(* ===== verification/Prelude.thy ===== *)
theory Prelude
  imports Main "HOL-Library.Word" "HOL-Library.Multiset"
begin

text \<open>
  Shared vocabulary of the development: C values that the plugins use (strings, \<^verbatim>\<open>snprintf\<close>
  buffers, \<^verbatim>\<open>atoi\<close>, fixed-width integers), results of C functions, the control flow of the
  \<^verbatim>\<open>SRPC_SAFE_CALL_*\<close> macros, keyed tables in insertion order, and the named collections of
  rewrite rules that the component theories extend.
\<close>

section \<open>Collections\<close>

named_theorems c_defs \<open>definitions of C functions that symbolic execution unfolds\<close>
named_theorems table_simps \<open>laws of the keyed tables\<close>

section \<open>Outcomes of C code\<close>

text \<open>A C function either returns, or its behaviour is undefined (double free, free of a wild
  pointer), or it calls \<^verbatim>\<open>abort()\<close> through a failed \<^verbatim>\<open>assert\<close>.\<close>

datatype 'a outcome = Ret 'a | Undef | Abort

fun obind :: "'a outcome \<Rightarrow> ('a \<Rightarrow> 'b outcome) \<Rightarrow> 'b outcome" where
  "obind (Ret x) f = f x"
| "obind Undef f = Undef"
| "obind Abort f = Abort"

lemma obind_Ret_right [simp]: "obind m Ret = m"
  by (cases m) auto

lemma obind_assoc: "obind (obind m f) g = obind m (\<lambda>x. obind (f x) g)"
  by (cases m) auto

lemma obind_eq_Ret: "obind m f = Ret y \<longleftrightarrow> (\<exists>x. m = Ret x \<and> f x = Ret y)"
  by (cases m) auto

fun omap_list :: "('a \<Rightarrow> 'b outcome) \<Rightarrow> 'a list \<Rightarrow> 'b list outcome" where
  "omap_list f [] = Ret []"
| "omap_list f (x # xs) = obind (f x) (\<lambda>y. obind (omap_list f xs) (\<lambda>ys. Ret (y # ys)))"

lemma omap_list_Ret:
  assumes "\<And>x. x \<in> set xs \<Longrightarrow> f x = Ret (g x)"
  shows "omap_list f xs = Ret (map g xs)"
  using assms by (induction xs) auto

section \<open>C strings and numbers in text\<close>

type_synonym cstr = string

text \<open>A \<^verbatim>\<open>char *\<close> field: \<^verbatim>\<open>NULL\<close>, a live string, or a pointer whose block was freed.\<close>

datatype cptr = Null | Ptr cstr | Dangling

fun opt_ptr :: "cstr option \<Rightarrow> cptr" where
  "opt_ptr None = Null"
| "opt_ptr (Some s) = Ptr s"

fun ptr_opt :: "cptr \<Rightarrow> cstr option" where
  "ptr_opt (Ptr s) = Some s"
| "ptr_opt _ = None"

lemma ptr_opt_opt_ptr [simp]: "ptr_opt (opt_ptr s) = s"
  by (cases s) auto

text \<open>\<^verbatim>\<open>free(p)\<close>: what the field holds afterwards, and the block given back.\<close>

fun c_free :: "cptr \<Rightarrow> cptr outcome" where
  "c_free Null = Ret Null"
| "c_free (Ptr s) = Ret Dangling"
| "c_free Dangling = Undef"

text \<open>\<^verbatim>\<open>snprintf(buf, n, "%s", s)\<close> keeps at most \<^verbatim>\<open>n - 1\<close> characters; its value is the
  full length.\<close>

definition cbuf :: "nat \<Rightarrow> cstr \<Rightarrow> cstr" where
  "cbuf n s = take (n - 1) s"

lemma cbuf_fits [simp]: "length s < n \<Longrightarrow> cbuf n s = s"
  by (simp add: cbuf_def)

lemma cbuf_bounded: "0 < n \<Longrightarrow> length (cbuf n s) < n"
  by (auto simp: cbuf_def)

definition digit :: "nat \<Rightarrow> char" where
  "digit d = char_of (48 + d)"

fun dec :: "nat \<Rightarrow> cstr" where
  "dec n = (if n < 10 then [digit n] else dec (n div 10) @ [digit (n mod 10)])"

declare dec.simps [simp del]

text \<open>\<^verbatim>\<open>%d\<close> of a signed value.\<close>

definition dec_int :: "int \<Rightarrow> cstr" where
  "dec_int i = (if i < 0 then CHR ''-'' # dec (nat (- i)) else dec (nat i))"

definition is_digit :: "char \<Rightarrow> bool" where
  "is_digit c = (48 \<le> (of_char c :: nat) \<and> (of_char c :: nat) \<le> 57)"

fun atoi_digits :: "nat \<Rightarrow> cstr \<Rightarrow> nat" where
  "atoi_digits acc [] = acc"
| "atoi_digits acc (c # cs) =
     (if is_digit c then atoi_digits (10 * acc + (of_char c - 48)) cs else acc)"

definition is_space :: "char \<Rightarrow> bool" where
  "is_space c = (of_char c = (32::nat) \<or> (9 \<le> (of_char c :: nat) \<and> (of_char c :: nat) \<le> 13))"

text \<open>\<^verbatim>\<open>atoi\<close>: white space, a sign, digits, and the rest ignored.\<close>

definition atoi :: "cstr \<Rightarrow> int" where
  "atoi s = (case dropWhile is_space s of
       [] \<Rightarrow> 0
     | c # cs \<Rightarrow>
         if c = CHR ''-'' then - int (atoi_digits 0 cs)
         else if c = CHR ''+'' then int (atoi_digits 0 cs)
         else int (atoi_digits 0 (c # cs)))"

definition atoi8 :: "cstr \<Rightarrow> 8 word" where
  "atoi8 s = word_of_int (atoi s)"

definition atoi16 :: "cstr \<Rightarrow> 16 word" where
  "atoi16 s = word_of_int (atoi s)"

lemma of_char_digit [simp]: "d < 10 \<Longrightarrow> of_char (digit d) = (48 + d :: nat)"
  by (simp add: digit_def)

lemma is_digit_digit [simp]: "d < 10 \<Longrightarrow> is_digit (digit d)"
  by (simp add: is_digit_def)

lemma atoi_digits_append:
  "(\<And>c. c \<in> set xs \<Longrightarrow> is_digit c) \<Longrightarrow> atoi_digits a (xs @ ys) = atoi_digits (atoi_digits a xs) ys"
  by (induction xs arbitrary: a) auto

lemma dec_all_digits: "c \<in> set (dec n) \<Longrightarrow> is_digit c"
proof (induction n rule: dec.induct)
  case (1 n)
  show ?case
  proof (cases "n < 10")
    case True
    then show ?thesis using 1 by (simp add: dec.simps [of n])
  next
    case False
    then have "c \<in> set (dec (n div 10)) \<or> c = digit (n mod 10)"
      using "1.prems" by (auto simp: dec.simps [of n])
    then show ?thesis using 1 False by auto
  qed
qed

lemma atoi_digits_dec: "atoi_digits 0 (dec n) = n"
proof (induction n rule: dec.induct)
  case (1 n)
  show ?case
  proof (cases "n < 10")
    case True
    then show ?thesis by (simp add: dec.simps [of n])
  next
    case False
    then have "atoi_digits 0 (dec n) = atoi_digits (atoi_digits 0 (dec (n div 10))) [digit (n mod 10)]"
      by (simp add: dec.simps [of n] atoi_digits_append dec_all_digits)
    with 1 False show ?thesis by simp
  qed
qed

lemma dec_not_Nil [simp]: "dec n \<noteq> []"
  by (simp add: dec.simps [of n])

lemma digit_no_sign: "is_digit c \<Longrightarrow> c \<noteq> CHR ''-'' \<and> c \<noteq> CHR ''+'' \<and> \<not> is_space c"
  by (auto simp: is_digit_def is_space_def)

lemma atoi_dec [simp]: "atoi (dec n) = int n"
proof -
  obtain c cs where d: "dec n = c # cs"
    by (cases "dec n") auto
  have c: "c \<noteq> CHR ''-'' \<and> c \<noteq> CHR ''+'' \<and> \<not> is_space c"
    using dec_all_digits [of c n] d by (intro digit_no_sign) auto
  then have "dropWhile is_space (dec n) = c # cs"
    by (simp add: d)
  then show ?thesis
    using c atoi_digits_dec [of n] d by (simp add: atoi_def)
qed

lemma length_dec_bound: "n < 10 ^ k \<Longrightarrow> 0 < k \<Longrightarrow> length (dec n) \<le> k"
proof (induction k arbitrary: n)
  case (Suc k)
  show ?case
  proof (cases "n < 10")
    case True
    then show ?thesis by (simp add: dec.simps [of n])
  next
    case False
    then have "0 < k" using Suc.prems by (cases k) auto
    moreover have "n div 10 < 10 ^ k" using Suc.prems by (simp add: less_mult_imp_div_less mult.commute)
    ultimately have "length (dec (n div 10)) \<le> k" by (rule Suc.IH [rotated])
    then show ?thesis using False by (simp add: dec.simps [of n])
  qed
qed simp

lemma atoi8_dec [simp]: "atoi8 (dec (unat w)) = w"
  by (simp add: atoi8_def)

lemma atoi16_dec [simp]: "atoi16 (dec (unat w)) = w"
  by (simp add: atoi16_def)

section \<open>Keyed tables\<close>

text \<open>
  A uthash table is used through \<^verbatim>\<open>HASH_FIND_STR\<close>, \<^verbatim>\<open>HASH_ADD_KEYPTR\<close>,
  \<^verbatim>\<open>HASH_ITER\<close> and \<^verbatim>\<open>HASH_DEL\<close>; its items are kept, and iterated, in insertion order.
\<close>

definition hash_find :: "('e \<Rightarrow> 'k) \<Rightarrow> 'k \<Rightarrow> 'e list \<Rightarrow> 'e option" where
  "hash_find key k t = List.find (\<lambda>e. key e = k) t"

definition hash_add :: "'e \<Rightarrow> 'e list \<Rightarrow> 'e list" where
  "hash_add e t = t @ [e]"

lemma find_append: "List.find P (xs @ ys) = (case List.find P xs of None \<Rightarrow> List.find P ys | Some x \<Rightarrow> Some x)"
  by (induction xs) auto

lemma hash_find_Nil [table_simps]: "hash_find key k [] = None"
  by (simp add: hash_find_def)

lemma hash_find_Cons [table_simps]:
  "hash_find key k (e # t) = (if key e = k then Some e else hash_find key k t)"
  by (simp add: hash_find_def)

lemma hash_find_add [table_simps]:
  "hash_find key k (hash_add e t) =
    (case hash_find key k t of Some x \<Rightarrow> Some x | None \<Rightarrow> if key e = k then Some e else None)"
  by (simp add: hash_find_def hash_add_def find_append split: option.splits)

lemma hash_find_append [table_simps]:
  "hash_find key k (s @ t) = (case hash_find key k s of Some x \<Rightarrow> Some x | None \<Rightarrow> hash_find key k t)"
  by (simp add: hash_find_def find_append split: option.splits)

lemma hash_find_None_iff: "hash_find key k t = None \<longleftrightarrow> k \<notin> key ` set t"
  by (auto simp: hash_find_def find_None_iff)

lemma hash_find_SomeD: "hash_find key k t = Some e \<Longrightarrow> e \<in> set t \<and> key e = k"
  by (auto simp: hash_find_def find_Some_iff)

lemma hash_find_unique:
  assumes "distinct (map key t)" "e \<in> set t"
  shows "hash_find key (key e) t = Some e"
  using assms by (induction t) (auto simp: table_simps)

text \<open>In-place update of the items with a key, as code does through a pointer it looked up.\<close>

definition hash_update :: "('e \<Rightarrow> 'k) \<Rightarrow> 'k \<Rightarrow> ('e \<Rightarrow> 'e) \<Rightarrow> 'e list \<Rightarrow> 'e list" where
  "hash_update key k f t = map (\<lambda>e. if key e = k then f e else e) t"

lemma hash_update_find [table_simps]:
  assumes "\<And>e. key (f e) = key e"
  shows "hash_find key j (hash_update key k f t) =
    (if j = k then map_option f (hash_find key j t) else hash_find key j t)"
  using assms by (induction t) (auto simp: hash_update_def hash_find_def)

lemma hash_update_keys [simp]:
  assumes "\<And>e. key (f e) = key e"
  shows "map key (hash_update key k f t) = map key t"
  using assms by (induction t) (auto simp: hash_update_def)

section \<open>Control flow of the safe-call macros\<close>

text \<open>
  \<^verbatim>\<open>SRPC_SAFE_CALL_ERR(error, call, label)\<close> stores the result of the call in
  \<^verbatim>\<open>error\<close> and jumps to the label when it is not 0; \<^verbatim>\<open>SRPC_SAFE_CALL_PTR(var, call, label)\<close>
  stores the pointer and jumps when it is \<^verbatim>\<open>NULL\<close>.  A label is the continuation of the code
  after it, a function of the state.
\<close>

definition safe_call :: "('w \<Rightarrow> int \<times> 'w) \<Rightarrow> ('w \<Rightarrow> 'r) \<Rightarrow> ('w \<Rightarrow> 'r) \<Rightarrow> 'w \<Rightarrow> 'r" where
  "safe_call call label k w = (case call w of (e, w') \<Rightarrow> if e \<noteq> 0 then label w' else k w')"

definition safe_ptr :: "('w \<Rightarrow> 'a option \<times> 'w) \<Rightarrow> ('w \<Rightarrow> 'r) \<Rightarrow> ('a \<Rightarrow> 'w \<Rightarrow> 'r) \<Rightarrow> 'w \<Rightarrow> 'r" where
  "safe_ptr call label k w = (case call w of (None, w') \<Rightarrow> label w' | (Some p, w') \<Rightarrow> k p w')"

lemma safe_call_ok [simp]: "call w = (0, w') \<Longrightarrow> safe_call call label k w = k w'"
  by (simp add: safe_call_def)

lemma safe_call_fail: "call w = (e, w') \<Longrightarrow> e \<noteq> 0 \<Longrightarrow> safe_call call label k w = label w'"
  by (simp add: safe_call_def)

lemma safe_ptr_ok [simp]: "call w = (Some p, w') \<Longrightarrow> safe_ptr call label k w = k p w'"
  by (simp add: safe_ptr_def)

lemma safe_ptr_fail [simp]: "call w = (None, w') \<Longrightarrow> safe_ptr call label k w = label w'"
  by (simp add: safe_ptr_def)

text \<open>Iteration that stops at the first item whose action returns non-zero.\<close>

fun until_fail :: "('a \<Rightarrow> 'w \<Rightarrow> int \<times> 'w) \<Rightarrow> 'a list \<Rightarrow> 'w \<Rightarrow> int \<times> 'w" where
  "until_fail f [] w = (0, w)"
| "until_fail f (x # xs) w = (case f x w of (e, w') \<Rightarrow> if e \<noteq> 0 then (e, w') else until_fail f xs w')"

lemma until_fail_append:
  "until_fail f (xs @ ys) w =
    (case until_fail f xs w of (e, w') \<Rightarrow> if e \<noteq> 0 then (e, w') else until_fail f ys w')"
  by (induction xs arbitrary: w) (auto split: prod.splits)

lemma until_fail_inv:
  assumes "\<And>x w. P w \<Longrightarrow> P (snd (f x w))" "P w"
  shows "P (snd (until_fail f xs w))"
  using assms(2)
proof (induction xs arbitrary: w)
  case (Cons x xs)
  from assms(1) [OF Cons.prems, of x] Cons.IH show ?case
    by (auto split: prod.splits)
qed simp

end
