(* ===== verification/KeyedTable.thy ===== *)
theory KeyedTable
  imports Prelude
begin

text \<open>
  The interface shared by the plugins' tables: the interface hash and the state hash of the
  interfaces plugin, and the RIB list and the per-RIB route table of the routing plugin.  A provider
  has a lookup by key and an insertion that reports whether the key was there; the clients'
  lemmas (the key stays unique, a sequence of insertions keeps the first item of each key) are
  proved once here.
\<close>

locale keyed_table =
  fixes key :: "'e \<Rightarrow> 'k"
    and items :: "'t \<Rightarrow> 'e list"
    and get :: "'t \<Rightarrow> 'k \<Rightarrow> 'e option"
    and add :: "'t \<Rightarrow> 'e \<Rightarrow> int \<times> 't"
  assumes get_find: "get t k = hash_find key k (items t)"
    and add_dup: "get t (key e) \<noteq> None \<Longrightarrow> fst (add t e) \<noteq> 0 \<and> snd (add t e) = t"
    and add_new: "get t (key e) = None \<Longrightarrow> fst (add t e) = 0 \<and> items (snd (add t e)) = items t @ [e]"
begin

definition unique :: "'t \<Rightarrow> bool" where
  "unique t = distinct (map key (items t))"

fun add_all :: "'t \<Rightarrow> 'e list \<Rightarrow> 't" where
  "add_all t [] = t"
| "add_all t (e # es) = add_all (snd (add t e)) es"

lemma get_None_iff: "get t k = None \<longleftrightarrow> k \<notin> key ` set (items t)"
  by (simp add: get_find hash_find_None_iff)

lemma add_ok_iff: "fst (add t e) = 0 \<longleftrightarrow> get t (key e) = None"
  using add_dup [of t e] add_new [of t e] by (cases "get t (key e)") auto

lemma items_add:
  "items (snd (add t e)) = (if get t (key e) = None then items t @ [e] else items t)"
  using add_dup [of t e] add_new [of t e] by (cases "get t (key e)") auto

lemma get_add:
  "get (snd (add t e)) k = (if get t k = None \<and> key e = k then Some e else get t k)"
proof (cases "get t (key e)")
  case None
  then show ?thesis
    by (cases "get t k") (auto simp: get_find items_add [of t e] None table_simps)
next
  case (Some x)
  then show ?thesis using add_dup [of t e] by auto
qed

lemma unique_add: "unique t \<Longrightarrow> unique (snd (add t e))"
  by (auto simp: unique_def items_add get_None_iff)

lemma unique_add_all: "unique t \<Longrightarrow> unique (add_all t es)"
  by (induction es arbitrary: t) (auto simp: unique_add)

lemma get_add_all:
  "get (add_all t es) k = (case get t k of Some e \<Rightarrow> Some e | None \<Rightarrow> hash_find key k es)"
  by (induction es arbitrary: t) (auto simp: get_add table_simps split: option.splits)

lemma get_unique_item: "unique t \<Longrightarrow> e \<in> set (items t) \<Longrightarrow> get t (key e) = Some e"
  by (simp add: unique_def get_find hash_find_unique)

lemma add_all_fresh:
  assumes "distinct (map key es)" "key ` set es \<inter> key ` set (items t) = {}"
  shows "items (add_all t es) = items t @ es"
  using assms
proof (induction es arbitrary: t)
  case (Cons e es)
  from Cons.prems have "get t (key e) = None" by (auto simp: get_None_iff)
  then have "items (snd (add t e)) = items t @ [e]" by (simp add: items_add)
  with Cons.IH [of "snd (add t e)"] Cons.prems show ?case by auto
qed simp

end

end
