(* ===== verification/IfData.thy ===== *)
theory IfData
  imports KeyedTable
begin

text \<open>
  The data model of the interfaces plugin, \<^verbatim>\<open>src/interfaces/src/plugin/types.h\<close>, and its data
  API under \<^verbatim>\<open>plugin/data/interfaces\<close>: the IPv4 and IPv6 address and neighbor lists, the
  interface hash, and the translation between netlink and YANG interface types.  Allocation is
  taken to succeed.  A string field that the code frees without resetting is a \<^typ>\<open>cptr\<close>; one that
  it resets through \<^verbatim>\<open>FREE_SAFE\<close> is an option.
\<close>

section \<open>Types\<close>

record carrier_delay =
  cd_down :: "32 word"
  cd_up :: "32 word"

record dampening =
  da_half_life :: "32 word"
  da_reuse :: "32 word"
  da_suppress :: "32 word"
  da_max_suppress_time :: "32 word"

record vlan_tag =
  vt_tag_type :: "cstr option"
  vt_vlan_id :: "16 word"

record dot1q_vlan =
  dv_outer_tag :: vlan_tag
  dv_second_tag :: vlan_tag

datatype subnet_type = subnet_none | subnet_prefix_length | subnet_netmask

text \<open>The union of \<^verbatim>\<open>uint8_t prefix_length\<close> and \<^verbatim>\<open>char *netmask\<close>: the byte with all other
  bytes zero, a netmask pointer, or a value that is neither \<^verbatim>\<open>NULL\<close> nor a live block.\<close>

datatype subnet = Sub_byte "8 word" | Sub_ptr cstr | Sub_wild

record v4_address =
  v4_ip :: cptr
  v4_subnet :: subnet
  v4_subnet_type :: subnet_type

record neighbor =
  ne_ip :: cptr
  ne_link_layer_address :: cptr

record v6_address =
  v6_ip :: cptr
  v6_prefix_length :: "8 word"

record ipv4 =
  i4_enabled :: "8 word"
  i4_forwarding :: "8 word"
  i4_mtu :: "16 word"
  i4_address :: "v4_address list"
  i4_neighbor :: "neighbor list"

record autoconf =
  ac_create_global_addresses :: "8 word"
  ac_create_temporary_addresses :: "8 word"
  ac_temporary_valid_lifetime :: "32 word"
  ac_temporary_preferred_lifetime :: "32 word"

record ipv6 =
  i6_enabled :: "8 word"
  i6_forwarding :: "8 word"
  i6_mtu :: "32 word"
  i6_address :: "v6_address list"
  i6_neighbor :: "neighbor list"
  i6_dup_addr_detect_transmits :: "32 word"
  i6_autoconf :: autoconf

record interface =
  if_name :: "cstr option"
  if_description :: "cstr option"
  if_type :: "cstr option"
  if_enabled :: "8 word"
  if_link_up_down_trap_enable :: bool
  if_carrier_delay :: carrier_delay
  if_dampening :: dampening
  if_encapsulation :: dot1q_vlan
  if_loopback :: "cstr option"
  if_max_frame_size :: "32 word"
  if_parent_interface :: "cstr option"
  if_ipv4 :: ipv4
  if_ipv6 :: ipv6

type_synonym interface_hash = "interface list"

section \<open>IPv4 addresses\<close>

definition ipv4_address_element_new :: v4_address where
  "ipv4_address_element_new = \<lparr> v4_ip = Null, v4_subnet = Sub_byte 0, v4_subnet_type = subnet_none \<rparr>"

definition ipv4_address_add_element :: "v4_address list \<Rightarrow> v4_address \<Rightarrow> int \<times> v4_address list" where
  "ipv4_address_add_element address el = (0, el # address)"

definition ipv4_address_element_set_ip :: "v4_address \<Rightarrow> cstr option \<Rightarrow> (int \<times> v4_address) outcome" where
  "ipv4_address_element_set_ip el ip =
    obind (c_free (v4_ip el)) (\<lambda>old.
      case ip of
        Some s \<Rightarrow> Ret (0, el\<lparr>v4_ip := Ptr s\<rparr>)
      | None \<Rightarrow> Ret (0, el\<lparr>v4_ip := old\<rparr>))"

text \<open>One byte is written: over a pointer it leaves the pointer's other bytes.\<close>

definition ipv4_address_element_set_prefix_length :: "v4_address \<Rightarrow> 8 word \<Rightarrow> int \<times> v4_address" where
  "ipv4_address_element_set_prefix_length el n =
    (0, el\<lparr>v4_subnet := (case v4_subnet el of Sub_byte _ \<Rightarrow> Sub_byte n | _ \<Rightarrow> Sub_wild),
           v4_subnet_type := subnet_prefix_length\<rparr>)"

text \<open>The union is read as a pointer whatever it holds, and freed when it is not \<^verbatim>\<open>NULL\<close>.\<close>

definition ipv4_address_element_set_netmask :: "v4_address \<Rightarrow> cstr option \<Rightarrow> (int \<times> v4_address) outcome" where
  "ipv4_address_element_set_netmask el netmask =
    obind (case v4_subnet el of
             Sub_byte b \<Rightarrow> if b = 0 then Ret el else Undef
           | Sub_ptr s \<Rightarrow> Ret (el\<lparr>v4_subnet := Sub_wild, v4_subnet_type := subnet_none\<rparr>)
           | Sub_wild \<Rightarrow> Undef)
      (\<lambda>el1. case netmask of
         Some s \<Rightarrow> Ret (0, el1\<lparr>v4_subnet := Sub_ptr s, v4_subnet_type := subnet_netmask\<rparr>)
       | None \<Rightarrow> Ret (0, el1))"

text \<open>The blocks a release gives back: a structure, or a string.  Releasing a list also unlinks every
  element, so the head it leaves is \<^verbatim>\<open>NULL\<close>.\<close>

datatype block = B_struct | B_str cstr

fun free_str :: "cptr \<Rightarrow> block list outcome" where
  "free_str Null = Ret []"
| "free_str (Ptr s) = Ret [B_str s]"
| "free_str Dangling = Undef"

definition ipv4_address_element_free :: "v4_address \<Rightarrow> block list outcome" where
  "ipv4_address_element_free el =
    obind (free_str (v4_ip el)) (\<lambda>b1.
    obind (if v4_subnet_type el \<noteq> subnet_none then
             (if v4_subnet_type el = subnet_netmask then
                (case v4_subnet el of
                   Sub_byte b \<Rightarrow> if b = 0 then Ret [] else Undef
                 | Sub_ptr s \<Rightarrow> Ret [B_str s]
                 | Sub_wild \<Rightarrow> Undef)
              else Ret [])
           else Ret [])
      (\<lambda>b2. Ret (b1 @ b2 @ [B_struct])))"

definition ipv4_address_free :: "v4_address list \<Rightarrow> (block list \<times> v4_address list) outcome" where
  "ipv4_address_free address =
    obind (omap_list ipv4_address_element_free address) (\<lambda>bs. Ret (concat bs, []))"

text \<open>\<^verbatim>\<open>inet_pton(AF_INET, netmask, &addr)\<close> is the parameter \<^verbatim>\<open>pton\<close>: the address in the
  four bytes of an \<^verbatim>\<open>in_addr_t\<close>, or \<^verbatim>\<open>None\<close> where it does not return 1.  The loop
  shifts the word right until it is zero; \<^verbatim>\<open>prefix\<close> is a \<^verbatim>\<open>uint8_t\<close>.\<close>

fun count_bits :: "nat \<Rightarrow> 32 word \<Rightarrow> 8 word \<Rightarrow> 8 word" where
  "count_bits 0 a prefix = prefix"
| "count_bits (Suc fuel) a prefix =
    (if a = 0 then prefix
     else count_bits fuel (drop_bit 1 a) (if and a 1 \<noteq> 0 then prefix + 1 else prefix))"

definition ipv4_address_netmask2prefix ::
    "(cstr \<Rightarrow> 32 word option) \<Rightarrow> cstr \<Rightarrow> 8 word \<Rightarrow> int \<times> 8 word" where
  "ipv4_address_netmask2prefix pton netmask prefix_length =
    (case pton netmask of
       None \<Rightarrow> (-1, prefix_length)
     | Some a \<Rightarrow> (0, count_bits 33 a 0))"

section \<open>Neighbors and IPv6 addresses\<close>

definition neighbor_element_new :: neighbor where
  "neighbor_element_new = \<lparr> ne_ip = Null, ne_link_layer_address = Null \<rparr>"

definition set_cptr :: "cptr \<Rightarrow> cstr option \<Rightarrow> cptr outcome" where
  "set_cptr p s = obind (c_free p) (\<lambda>old. Ret (case s of Some t \<Rightarrow> Ptr t | None \<Rightarrow> old))"

definition ipv4_neighbor_element_set_ip :: "neighbor \<Rightarrow> cstr option \<Rightarrow> (int \<times> neighbor) outcome" where
  "ipv4_neighbor_element_set_ip el ip =
    obind (set_cptr (ne_ip el) ip) (\<lambda>p. Ret (0, el\<lparr>ne_ip := p\<rparr>))"

definition ipv4_neighbor_element_set_link_layer_address ::
    "neighbor \<Rightarrow> cstr option \<Rightarrow> (int \<times> neighbor) outcome" where
  "ipv4_neighbor_element_set_link_layer_address el lla =
    obind (set_cptr (ne_link_layer_address el) lla)
      (\<lambda>p. Ret (0, el\<lparr>ne_link_layer_address := p\<rparr>))"

definition ipv4_neighbor_add_element :: "neighbor list \<Rightarrow> neighbor \<Rightarrow> int \<times> neighbor list" where
  "ipv4_neighbor_add_element address el = (0, el # address)"

definition ipv4_neighbor_element_free :: "neighbor \<Rightarrow> block list outcome" where
  "ipv4_neighbor_element_free el =
    obind (free_str (ne_ip el)) (\<lambda>b1.
    obind (free_str (ne_link_layer_address el)) (\<lambda>b2. Ret (b1 @ b2 @ [B_struct])))"

definition ipv4_neighbor_free :: "neighbor list \<Rightarrow> (block list \<times> neighbor list) outcome" where
  "ipv4_neighbor_free ns = obind (omap_list ipv4_neighbor_element_free ns) (\<lambda>bs. Ret (concat bs, []))"

text \<open>\<^verbatim>\<open>strdup\<close> of a field: reading a freed string is undefined.\<close>

fun read_ptr :: "cptr \<Rightarrow> cstr option outcome" where
  "read_ptr Null = Ret None"
| "read_ptr (Ptr s) = Ret (Some s)"
| "read_ptr Dangling = Undef"

text \<open>\<^verbatim>\<open>interfaces_interface_ipv4_neighbor_element_set\<close>: a deep copy of each element of the
  source, in order, added to the destination.\<close>

fun ipv4_neighbor_element_set :: "neighbor list \<Rightarrow> neighbor list \<Rightarrow> (int \<times> neighbor list) outcome" where
  "ipv4_neighbor_element_set [] dst = Ret (0, dst)"
| "ipv4_neighbor_element_set (x # src) dst =
    obind (read_ptr (ne_ip x)) (\<lambda>ip.
    obind (ipv4_neighbor_element_set_ip neighbor_element_new ip) (\<lambda>(_, e1).
    obind (read_ptr (ne_link_layer_address x)) (\<lambda>lla.
    obind (ipv4_neighbor_element_set_link_layer_address e1 lla) (\<lambda>(_, e2).
      ipv4_neighbor_element_set src (snd (ipv4_neighbor_add_element dst e2))))))"

definition ipv6_neighbor_element_set_ip :: "neighbor \<Rightarrow> cstr option \<Rightarrow> (int \<times> neighbor) outcome" where
  "ipv6_neighbor_element_set_ip el ip =
    obind (set_cptr (ne_ip el) ip) (\<lambda>p. Ret (0, el\<lparr>ne_ip := p\<rparr>))"

definition ipv6_neighbor_element_set_link_layer_address ::
    "neighbor \<Rightarrow> cstr option \<Rightarrow> (int \<times> neighbor) outcome" where
  "ipv6_neighbor_element_set_link_layer_address el lla =
    obind (set_cptr (ne_link_layer_address el) lla)
      (\<lambda>p. Ret (0, el\<lparr>ne_link_layer_address := p\<rparr>))"

definition ipv6_neighbor_add_element :: "neighbor list \<Rightarrow> neighbor \<Rightarrow> int \<times> neighbor list" where
  "ipv6_neighbor_add_element address el = (0, el # address)"

definition ipv6_neighbor_element_free :: "neighbor \<Rightarrow> block list outcome" where
  "ipv6_neighbor_element_free el =
    obind (free_str (ne_ip el)) (\<lambda>b1.
    obind (free_str (ne_link_layer_address el)) (\<lambda>b2. Ret (b1 @ b2 @ [B_struct])))"

definition ipv6_neighbor_free :: "neighbor list \<Rightarrow> (block list \<times> neighbor list) outcome" where
  "ipv6_neighbor_free ns = obind (omap_list ipv6_neighbor_element_free ns) (\<lambda>bs. Ret (concat bs, []))"

definition ipv6_address_element_new :: v6_address where
  "ipv6_address_element_new = \<lparr> v6_ip = Null, v6_prefix_length = 0 \<rparr>"

definition ipv6_address_element_set_ip :: "v6_address \<Rightarrow> cstr option \<Rightarrow> (int \<times> v6_address) outcome" where
  "ipv6_address_element_set_ip el ip =
    obind (set_cptr (v6_ip el) ip) (\<lambda>p. Ret (0, el\<lparr>v6_ip := p\<rparr>))"

definition ipv6_address_element_set_prefix_length :: "v6_address \<Rightarrow> 8 word \<Rightarrow> int \<times> v6_address" where
  "ipv6_address_element_set_prefix_length el n = (0, el\<lparr>v6_prefix_length := n\<rparr>)"

definition ipv6_address_add_element :: "v6_address list \<Rightarrow> v6_address \<Rightarrow> int \<times> v6_address list" where
  "ipv6_address_add_element address el = (0, el # address)"

definition ipv6_address_element_free :: "v6_address \<Rightarrow> block list outcome" where
  "ipv6_address_element_free el = obind (free_str (v6_ip el)) (\<lambda>b. Ret (b @ [B_struct]))"

definition ipv6_address_free :: "v6_address list \<Rightarrow> (block list \<times> v6_address list) outcome" where
  "ipv6_address_free as = obind (omap_list ipv6_address_element_free as) (\<lambda>bs. Ret (concat bs, []))"

fun ipv6_address_element_set :: "v6_address list \<Rightarrow> v6_address list \<Rightarrow> (int \<times> v6_address list) outcome" where
  "ipv6_address_element_set [] dst = Ret (0, dst)"
| "ipv6_address_element_set (x # src) dst =
    obind (read_ptr (v6_ip x)) (\<lambda>ip.
    obind (ipv6_address_element_set_ip ipv6_address_element_new ip) (\<lambda>(_, e1).
      let (_, e2) = ipv6_address_element_set_prefix_length e1 (v6_prefix_length x)
      in ipv6_address_element_set src (snd (ipv6_address_add_element dst e2))))"


fun ipv6_neighbor_element_set :: "neighbor list \<Rightarrow> neighbor list \<Rightarrow> (int \<times> neighbor list) outcome" where
  "ipv6_neighbor_element_set [] dst = Ret (0, dst)"
| "ipv6_neighbor_element_set (x # src) dst =
    obind (read_ptr (ne_ip x)) (\<lambda>ip.
    obind (ipv6_neighbor_element_set_ip neighbor_element_new ip) (\<lambda>(_, e1).
    obind (read_ptr (ne_link_layer_address x)) (\<lambda>lla.
    obind (ipv6_neighbor_element_set_link_layer_address e1 lla) (\<lambda>(_, e2).
      ipv6_neighbor_element_set src (snd (ipv6_neighbor_add_element dst e2))))))"

section \<open>The interface hash\<close>

definition hash_new :: interface_hash where
  "hash_new = []"

definition zero_tag :: vlan_tag where
  "zero_tag = \<lparr> vt_tag_type = None, vt_vlan_id = 0 \<rparr>"

definition zero_ipv4 :: ipv4 where
  "zero_ipv4 = \<lparr> i4_enabled = 0, i4_forwarding = 0, i4_mtu = 0, i4_address = [], i4_neighbor = [] \<rparr>"

definition zero_ipv6 :: ipv6 where
  "zero_ipv6 = \<lparr> i6_enabled = 0, i6_forwarding = 0, i6_mtu = 0, i6_address = [], i6_neighbor = [],
     i6_dup_addr_detect_transmits = 0,
     i6_autoconf = \<lparr> ac_create_global_addresses = 0, ac_create_temporary_addresses = 0,
       ac_temporary_valid_lifetime = 0, ac_temporary_preferred_lifetime = 0 \<rparr> \<rparr>"

text \<open>\<^verbatim>\<open>(interfaces_interface_t) { 0 }\<close>.\<close>

definition hash_element_new :: interface where
  "hash_element_new = \<lparr> if_name = None, if_description = None, if_type = None, if_enabled = 0,
     if_link_up_down_trap_enable = False,
     if_carrier_delay = \<lparr> cd_down = 0, cd_up = 0 \<rparr>,
     if_dampening = \<lparr> da_half_life = 0, da_reuse = 0, da_suppress = 0, da_max_suppress_time = 0 \<rparr>,
     if_encapsulation = \<lparr> dv_outer_tag = zero_tag, dv_second_tag = zero_tag \<rparr>,
     if_loopback = None, if_max_frame_size = 0, if_parent_interface = None,
     if_ipv4 = zero_ipv4, if_ipv6 = zero_ipv6 \<rparr>"

definition hash_element_set_name :: "interface \<Rightarrow> cstr option \<Rightarrow> int \<times> interface" where
  "hash_element_set_name el name =
    (let el1 = (if if_name el \<noteq> None then el\<lparr>if_name := None\<rparr> else el)
     in case name of Some s \<Rightarrow> (0, el1\<lparr>if_name := Some s\<rparr>) | None \<Rightarrow> (0, el1))"

definition hash_element_set_description :: "interface \<Rightarrow> cstr option \<Rightarrow> int \<times> interface" where
  "hash_element_set_description el d =
    (let el1 = (if if_description el \<noteq> None then el\<lparr>if_description := None\<rparr> else el)
     in case d of Some s \<Rightarrow> (0, el1\<lparr>if_description := Some s\<rparr>) | None \<Rightarrow> (0, el1))"

definition hash_element_set_type :: "interface \<Rightarrow> cstr option \<Rightarrow> int \<times> interface" where
  "hash_element_set_type el t =
    (let el1 = (if if_type el \<noteq> None then el\<lparr>if_type := None\<rparr> else el)
     in case t of Some s \<Rightarrow> (0, el1\<lparr>if_type := Some s\<rparr>) | None \<Rightarrow> (0, el1))"

definition hash_element_set_enabled :: "interface \<Rightarrow> 8 word \<Rightarrow> int \<times> interface" where
  "hash_element_set_enabled el e = (0, el\<lparr>if_enabled := e\<rparr>)"

definition hash_element_set_link_up_down_trap_enable :: "interface \<Rightarrow> bool \<Rightarrow> int \<times> interface" where
  "hash_element_set_link_up_down_trap_enable el b = (0, el\<lparr>if_link_up_down_trap_enable := b\<rparr>)"

definition hash_element_set_carrier_delay :: "interface \<Rightarrow> carrier_delay \<Rightarrow> int \<times> interface" where
  "hash_element_set_carrier_delay el c = (0, el\<lparr>if_carrier_delay := c\<rparr>)"

definition hash_element_set_dampening :: "interface \<Rightarrow> dampening \<Rightarrow> int \<times> interface" where
  "hash_element_set_dampening el d = (0, el\<lparr>if_dampening := d\<rparr>)"

text \<open>The tag types are copied with \<^verbatim>\<open>xstrdup\<close>, which is undefined on \<^verbatim>\<open>NULL\<close>.\<close>

definition hash_element_set_encapsulation :: "interface \<Rightarrow> dot1q_vlan \<Rightarrow> (int \<times> interface) outcome" where
  "hash_element_set_encapsulation el e =
    (if vt_tag_type (dv_outer_tag e) = None \<or> vt_tag_type (dv_second_tag e) = None then Undef
     else Ret (0, el\<lparr>if_encapsulation := e\<rparr>))"

definition hash_element_set_loopback :: "interface \<Rightarrow> cstr option \<Rightarrow> int \<times> interface" where
  "hash_element_set_loopback el l =
    (let el1 = (if if_loopback el \<noteq> None then el\<lparr>if_loopback := None\<rparr> else el)
     in case l of Some s \<Rightarrow> (0, el1\<lparr>if_loopback := Some s\<rparr>) | None \<Rightarrow> (0, el1))"

definition hash_element_set_max_frame_size :: "interface \<Rightarrow> 32 word \<Rightarrow> int \<times> interface" where
  "hash_element_set_max_frame_size el n = (0, el\<lparr>if_max_frame_size := n\<rparr>)"

definition hash_element_set_parent_interface :: "interface \<Rightarrow> cstr option \<Rightarrow> int \<times> interface" where
  "hash_element_set_parent_interface el p =
    (let el1 = (if if_parent_interface el \<noteq> None then el\<lparr>if_parent_interface := None\<rparr> else el)
     in case p of Some s \<Rightarrow> (0, el1\<lparr>if_parent_interface := Some s\<rparr>) | None \<Rightarrow> (0, el1))"

definition ipv4_set_enabled :: "ipv4 \<Rightarrow> 8 word \<Rightarrow> int \<times> ipv4" where
  "ipv4_set_enabled i e = (0, i\<lparr>i4_enabled := e\<rparr>)"

definition ipv4_set_forwarding :: "ipv4 \<Rightarrow> 8 word \<Rightarrow> int \<times> ipv4" where
  "ipv4_set_forwarding i f = (0, i\<lparr>i4_forwarding := f\<rparr>)"

definition ipv4_set_mtu :: "ipv4 \<Rightarrow> 16 word \<Rightarrow> int \<times> ipv4" where
  "ipv4_set_mtu i m = (0, i\<lparr>i4_mtu := m\<rparr>)"

definition ipv6_set_enabled :: "ipv6 \<Rightarrow> 8 word \<Rightarrow> int \<times> ipv6" where
  "ipv6_set_enabled i e = (0, i\<lparr>i6_enabled := e\<rparr>)"

definition ipv6_set_forwarding :: "ipv6 \<Rightarrow> 8 word \<Rightarrow> int \<times> ipv6" where
  "ipv6_set_forwarding i f = (0, i\<lparr>i6_forwarding := f\<rparr>)"

text \<open>The parameter is a \<^verbatim>\<open>uint16_t\<close>, the field a \<^verbatim>\<open>uint32_t\<close>.\<close>

definition ipv6_set_mtu :: "ipv6 \<Rightarrow> 16 word \<Rightarrow> int \<times> ipv6" where
  "ipv6_set_mtu i m = (0, i\<lparr>i6_mtu := ucast m\<rparr>)"

definition opt_block :: "cstr option \<Rightarrow> block list" where
  "opt_block s = (case s of Some t \<Rightarrow> [B_str t] | None \<Rightarrow> [])"

text \<open>\<^verbatim>\<open>interfaces_interface_hash_element_free\<close>: the conditions of the last two list releases
  read the address lists again, after those were released.\<close>

definition hash_element_free :: "interface \<Rightarrow> block list outcome" where
  "hash_element_free el =
    (let b0 = opt_block (if_name el) @ opt_block (if_description el) @ opt_block (if_type el)
              @ opt_block (if_loopback el) @ opt_block (if_parent_interface el);
         i4 = if_ipv4 el; i6 = if_ipv6 el
     in
      obind (if i4_address i4 \<noteq> [] then ipv4_address_free (i4_address i4) else Ret ([], i4_address i4))
        (\<lambda>(b1, a4).
      obind (if i6_address i6 \<noteq> [] then ipv6_address_free (i6_address i6) else Ret ([], i6_address i6))
        (\<lambda>(b2, a6).
      obind (if a4 \<noteq> [] then ipv4_neighbor_free (i4_neighbor i4) else Ret ([], i4_neighbor i4))
        (\<lambda>(b3, _).
      obind (if a6 \<noteq> [] then ipv6_neighbor_free (i6_neighbor i6) else Ret ([], i6_neighbor i6))
        (\<lambda>(b4, _). Ret (b0 @ b1 @ b2 @ b3 @ b4 @ [B_struct]))))))"

text \<open>The names are those of links and of list entries, which are never \<^verbatim>\<open>NULL\<close>: here \<^verbatim>\<open>NULL\<close> is a key like any
  other, where the code would read through it.\<close>

definition hash_add_element :: "interface_hash \<Rightarrow> interface \<Rightarrow> int \<times> interface_hash" where
  "hash_add_element hash el =
    (case hash_find if_name (if_name el) hash of
       Some _ \<Rightarrow> (-1, hash)
     | None \<Rightarrow> (0, hash_add el hash))"

definition hash_get_element :: "interface_hash \<Rightarrow> cstr option \<Rightarrow> interface option" where
  "hash_get_element hash name = hash_find if_name name hash"

definition hash_free :: "interface_hash \<Rightarrow> (block list \<times> interface_hash) outcome" where
  "hash_free hash = obind (omap_list hash_element_free hash) (\<lambda>bs. Ret (concat bs, []))"

section \<open>Interface types\<close>

text \<open>The results are the error code and what the out-parameter was assigned, if anything.\<close>

definition type_nl2ly :: "cstr option \<Rightarrow> int \<times> cstr option" where
  "type_nl2ly nl_type =
    (case nl_type of
       None \<Rightarrow> (0, Some ''iana-if-type:other'')
     | Some t \<Rightarrow>
         if t = ''veth'' then (0, Some ''iana-if-type:ethernetCsmacd'')
         else if t = ''vcan'' then (0, Some ''iana-if-type:softwareLoopback'')
         else if t = ''vlan'' then (0, Some ''iana-if-type:l2vlan'')
         else if t = ''dummy'' then (0, Some ''iana-if-type:other'')
         else if t = ''bridge'' then (0, Some ''iana-if-type:bridge'')
         else (-2, None))"

definition type_ly2nl :: "cstr option \<Rightarrow> int \<times> cstr option" where
  "type_ly2nl ly_type =
    (case ly_type of
       None \<Rightarrow> (-1, None)
     | Some t \<Rightarrow>
         if t = ''iana-if-type:ethernetCsmacd'' then (0, Some ''veth'')
         else if t = ''iana-if-type:softwareLoopback'' then (0, Some ''vcan'')
         else if t = ''iana-if-type:l2vlan'' then (0, Some ''vlan'')
         else if t = ''iana-if-type:other'' then (0, Some ''dummy'')
         else (-2, None))"

section \<open>Lemmas: tables\<close>

interpretation if_hash: keyed_table if_name "\<lambda>h. h" hash_get_element hash_add_element
  by unfold_locales
    (auto simp: hash_get_element_def hash_add_element_def hash_add_def split: option.splits)

text \<open>Filling an interface hash with any sequence of elements keeps every name once, and a
  lookup afterwards returns the first element inserted under that name: later elements with the
  same name are refused and never replace it.\<close>

theorem interface_hash_fill:
  "distinct (map if_name (if_hash.add_all hash_new es))
   \<and> hash_get_element (if_hash.add_all hash_new es) name = hash_find if_name name es"
proof -
  have "if_hash.unique hash_new"
    by (simp add: if_hash.unique_def hash_new_def)
  then have "if_hash.unique (if_hash.add_all hash_new es)"
    by (rule if_hash.unique_add_all)
  moreover have "hash_get_element hash_new name = None"
    by (simp add: hash_get_element_def hash_new_def table_simps)
  ultimately show ?thesis
    by (simp add: if_hash.unique_def if_hash.get_add_all)
qed

section \<open>Lemmas: deep copies of the lists\<close>

text \<open>The contract of the deep copies: each element that is readable is copied in front of the
  destination.\<close>

locale list_copy =
  fixes readable :: "'e \<Rightarrow> bool"
    and copy :: "'e list \<Rightarrow> 'e list \<Rightarrow> (int \<times> 'e list) outcome"
  assumes copy_Nil: "copy [] dst = Ret (0, dst)"
    and copy_Cons: "readable x \<Longrightarrow> copy (x # src) dst = copy src (x # dst)"
begin

lemma copy_rev: "(\<And>x. x \<in> set src \<Longrightarrow> readable x) \<Longrightarrow> copy src dst = Ret (0, rev src @ dst)"
  by (induction src arbitrary: dst) (auto simp: copy_Nil copy_Cons)

lemma copy_copy:
  assumes "\<And>x. x \<in> set src \<Longrightarrow> readable x"
  shows "obind (copy src []) (\<lambda>(_, mid). copy mid []) = Ret (0, src)"
proof -
  from assms have "copy src [] = Ret (0, rev src)" by (simp add: copy_rev)
  moreover from assms have "copy (rev src) [] = Ret (0, src)"
    by (subst copy_rev) auto
  ultimately show ?thesis by simp
qed

end

lemma opt_ptr_ptr_opt [simp]: "p \<noteq> Dangling \<Longrightarrow> opt_ptr (ptr_opt p) = p"
  by (cases p) auto

lemma read_ptr_live [simp]: "p \<noteq> Dangling \<Longrightarrow> read_ptr p = Ret (ptr_opt p)"
  by (cases p) auto

lemma set_cptr_Null [simp]: "set_cptr Null s = Ret (opt_ptr s)"
  by (cases s) (auto simp: set_cptr_def)

lemma neighbor_eta [simp]:
  "\<lparr>ne_ip = ne_ip x, ne_link_layer_address = ne_link_layer_address x\<rparr> = x"
  by (cases x) simp

lemma v6_address_eta [simp]: "\<lparr>v6_ip = v6_ip x, v6_prefix_length = v6_prefix_length x\<rparr> = x"
  by (cases x) simp

definition neighbor_readable :: "neighbor \<Rightarrow> bool" where
  "neighbor_readable n = (ne_ip n \<noteq> Dangling \<and> ne_link_layer_address n \<noteq> Dangling)"

definition v6_readable :: "v6_address \<Rightarrow> bool" where
  "v6_readable a = (v6_ip a \<noteq> Dangling)"

interpretation v4_neigh: list_copy neighbor_readable ipv4_neighbor_element_set
  by unfold_locales
    (auto simp: neighbor_readable_def ipv4_neighbor_element_set_ip_def neighbor_element_new_def
      ipv4_neighbor_element_set_link_layer_address_def ipv4_neighbor_add_element_def)

interpretation v6_neigh: list_copy neighbor_readable ipv6_neighbor_element_set
  by unfold_locales
    (auto simp: neighbor_readable_def ipv6_neighbor_element_set_ip_def neighbor_element_new_def
      ipv6_neighbor_element_set_link_layer_address_def ipv6_neighbor_add_element_def)

interpretation v6_addr: list_copy v6_readable ipv6_address_element_set
  by unfold_locales
    (auto simp: v6_readable_def ipv6_address_element_set_ip_def ipv6_address_element_new_def
      ipv6_address_element_set_prefix_length_def ipv6_address_add_element_def)

text \<open>The deep copy of a neighbor or address list (all strings live) puts the copies in front of
  what the destination held, in reverse order; copying twice restores the order.\<close>

theorem list_copies:
  assumes "\<forall>n\<in>set ns. neighbor_readable n" "\<forall>a\<in>set as. v6_readable a"
  shows "ipv4_neighbor_element_set ns dn = Ret (0, rev ns @ dn)
    \<and> ipv6_neighbor_element_set ns dn = Ret (0, rev ns @ dn)
    \<and> ipv6_address_element_set as da = Ret (0, rev as @ da)
    \<and> obind (ipv6_address_element_set as []) (\<lambda>(_, mid). ipv6_address_element_set mid []) = Ret (0, as)"
  using assms v6_addr.copy_copy [of as] by (simp add: v4_neigh.copy_rev v6_neigh.copy_rev v6_addr.copy_rev)

theorem list_copies_witness:
  "ipv4_neighbor_element_set [\<lparr>ne_ip = Ptr ''10.0.0.1'', ne_link_layer_address = Ptr ''aa''\<rparr>,
      \<lparr>ne_ip = Ptr ''10.0.0.2'', ne_link_layer_address = Null\<rparr>] []
    = Ret (0, [\<lparr>ne_ip = Ptr ''10.0.0.2'', ne_link_layer_address = Null\<rparr>,
      \<lparr>ne_ip = Ptr ''10.0.0.1'', ne_link_layer_address = Ptr ''aa''\<rparr>])"
  using list_copies [of "[\<lparr>ne_ip = Ptr ''10.0.0.1'', ne_link_layer_address = Ptr ''aa''\<rparr>,
      \<lparr>ne_ip = Ptr ''10.0.0.2'', ne_link_layer_address = Null\<rparr>]" "[]" "[]" "[]"]
  by (simp add: neighbor_readable_def)

section \<open>Lemmas: releasing an element\<close>

definition ptr_block :: "cptr \<Rightarrow> block list" where
  "ptr_block p = (case p of Ptr s \<Rightarrow> [B_str s] | _ \<Rightarrow> [])"

text \<open>A well-formed IPv4 address element: no dangling string, and the union agrees with its tag.\<close>

definition v4_wf :: "v4_address \<Rightarrow> bool" where
  "v4_wf a = (v4_ip a \<noteq> Dangling \<and>
    (case v4_subnet_type a of
       subnet_none \<Rightarrow> v4_subnet a = Sub_byte 0
     | subnet_prefix_length \<Rightarrow> (\<exists>b. v4_subnet a = Sub_byte b)
     | subnet_netmask \<Rightarrow> (\<exists>s. v4_subnet a = Sub_ptr s)))"

definition v4_owned :: "v4_address \<Rightarrow> block list" where
  "v4_owned a = ptr_block (v4_ip a) @ (case v4_subnet a of Sub_ptr s \<Rightarrow> [B_str s] | _ \<Rightarrow> []) @ [B_struct]"

definition neighbor_owned :: "neighbor \<Rightarrow> block list" where
  "neighbor_owned n = ptr_block (ne_ip n) @ ptr_block (ne_link_layer_address n) @ [B_struct]"

definition v6_owned :: "v6_address \<Rightarrow> block list" where
  "v6_owned a = ptr_block (v6_ip a) @ [B_struct]"

lemma free_str_live: "p \<noteq> Dangling \<Longrightarrow> free_str p = Ret (ptr_block p)"
  by (cases p) (auto simp: ptr_block_def)

lemma v4_free_wf: "v4_wf a \<Longrightarrow> ipv4_address_element_free a = Ret (v4_owned a)"
  by (cases "v4_subnet_type a")
    (auto simp: v4_wf_def ipv4_address_element_free_def v4_owned_def free_str_live)

lemma ipv4_address_free_wf:
  "\<forall>a\<in>set as. v4_wf a \<Longrightarrow> ipv4_address_free as = Ret (concat (map v4_owned as), [])"
  by (simp add: ipv4_address_free_def omap_list_Ret [where g = v4_owned] v4_free_wf)

lemma ipv6_address_free_wf:
  "\<forall>a\<in>set as. v6_readable a \<Longrightarrow> ipv6_address_free as = Ret (concat (map v6_owned as), [])"
  by (simp add: ipv6_address_free_def omap_list_Ret [where g = v6_owned] v6_readable_def
      ipv6_address_element_free_def v6_owned_def free_str_live)

definition interface_wf :: "interface \<Rightarrow> bool" where
  "interface_wf el = ((\<forall>a\<in>set (i4_address (if_ipv4 el)). v4_wf a)
     \<and> (\<forall>a\<in>set (i6_address (if_ipv6 el)). v6_readable a)
     \<and> (\<forall>n\<in>set (i4_neighbor (if_ipv4 el)). neighbor_readable n)
     \<and> (\<forall>n\<in>set (i6_neighbor (if_ipv6 el)). neighbor_readable n))"

text \<open>Everything the element owns: its strings, the lists' elements, its tag types and itself.\<close>

definition neighbor_blocks :: "interface \<Rightarrow> block list" where
  "neighbor_blocks el = concat (map neighbor_owned (i4_neighbor (if_ipv4 el)))
     @ concat (map neighbor_owned (i6_neighbor (if_ipv6 el)))"

definition tag_blocks :: "interface \<Rightarrow> block list" where
  "tag_blocks el = opt_block (vt_tag_type (dv_outer_tag (if_encapsulation el)))
     @ opt_block (vt_tag_type (dv_second_tag (if_encapsulation el)))"

definition interface_owned :: "interface \<Rightarrow> block list" where
  "interface_owned el = opt_block (if_name el) @ opt_block (if_description el) @ opt_block (if_type el)
     @ opt_block (if_loopback el) @ opt_block (if_parent_interface el)
     @ concat (map v4_owned (i4_address (if_ipv4 el))) @ concat (map v6_owned (i6_address (if_ipv6 el)))
     @ neighbor_blocks el @ tag_blocks el @ [B_struct]"

lemma hash_element_free_wf:
  "interface_wf el \<Longrightarrow> hash_element_free el =
    Ret (opt_block (if_name el) @ opt_block (if_description el) @ opt_block (if_type el)
     @ opt_block (if_loopback el) @ opt_block (if_parent_interface el)
     @ concat (map v4_owned (i4_address (if_ipv4 el))) @ concat (map v6_owned (i6_address (if_ipv6 el)))
     @ [B_struct])"
  by (simp add: hash_element_free_def interface_wf_def ipv4_address_free_wf ipv6_address_free_wf Let_def)

text \<open>C38. Releasing a well-formed interface element never frees twice and never frees a wild pointer;
  what it gives back is everything the element owns except its neighbors and its VLAN tag types,
  which are lost whatever the element holds.\<close>

theorem hash_element_free_leaks:
  assumes "interface_wf el"
  shows "\<exists>freed. hash_element_free el = Ret freed
    \<and> mset (interface_owned el) = mset freed + mset (neighbor_blocks el) + mset (tag_blocks el)"
  using assms by (simp add: hash_element_free_wf interface_owned_def ac_simps)

definition leaky_interface :: interface where
  "leaky_interface = hash_element_new
    \<lparr>if_name := Some ''eth0'',
     if_ipv4 := zero_ipv4
       \<lparr>i4_address := [\<lparr>v4_ip = Ptr ''10.0.0.1'', v4_subnet = Sub_ptr ''255.0.0.0'', v4_subnet_type = subnet_netmask\<rparr>],
        i4_neighbor := [\<lparr>ne_ip = Ptr ''10.0.0.2'', ne_link_layer_address = Ptr ''aa:bb''\<rparr>]\<rparr>\<rparr>"

theorem hash_element_free_leaks_witness:
  "\<exists>freed. hash_element_free leaky_interface = Ret freed
    \<and> mset (interface_owned leaky_interface)
        = mset freed + {# B_str ''10.0.0.2'', B_str ''aa:bb'', B_struct #}"
  using hash_element_free_leaks [of leaky_interface]
  by (simp add: leaky_interface_def interface_wf_def v4_wf_def neighbor_readable_def zero_ipv4_def
      hash_element_new_def zero_ipv6_def zero_tag_def neighbor_blocks_def tag_blocks_def neighbor_owned_def
      ptr_block_def opt_block_def)

section \<open>Lemmas: subnets\<close>

text \<open>C39. On a well-formed IPv4 address element, setting a netmask replaces the subnet and keeps the
  element well-formed, unless a non-zero prefix length was set before: that byte is then freed as
  if it were a pointer.  Setting the IP address to \<^verbatim>\<open>NULL\<close> over a live one leaves a dangling
  pointer that the release of the element frees a second time.\<close>

theorem ipv4_address_setters_safety:
  assumes "v4_wf el"
  shows "ipv4_address_element_set_netmask el (Some m) =
      (if v4_subnet_type el = subnet_prefix_length \<and> v4_subnet el \<noteq> Sub_byte 0 then Undef
       else Ret (0, el\<lparr>v4_subnet := Sub_ptr m, v4_subnet_type := subnet_netmask\<rparr>))
    \<and> v4_wf (el\<lparr>v4_subnet := Sub_ptr m, v4_subnet_type := subnet_netmask\<rparr>)
    \<and> (\<exists>el'. ipv4_address_element_set_ip el (Some ip) = Ret (0, el') \<and> v4_wf el' \<and> v4_ip el' = Ptr ip)
    \<and> obind (ipv4_address_element_set_ip (el\<lparr>v4_ip := Ptr s\<rparr>) None) (\<lambda>(_, el'). ipv4_address_element_free el') = Undef"
proof -
  have "\<exists>old. c_free (v4_ip el) = Ret old"
    using assms by (cases "v4_ip el") (auto simp: v4_wf_def)
  then obtain old where "c_free (v4_ip el) = Ret old" ..
  then show ?thesis
    using assms
    by (cases "v4_subnet el"; cases "v4_subnet_type el")
      (auto simp: ipv4_address_element_set_ip_def ipv4_address_element_set_netmask_def v4_wf_def
        ipv4_address_element_free_def)
qed

theorem ipv4_address_setters_safety_witness:
  "ipv4_address_element_set_netmask
      (snd (ipv4_address_element_set_prefix_length ipv4_address_element_new 24)) (Some ''255.0.0.0'') = Undef"
  using ipv4_address_setters_safety [of "snd (ipv4_address_element_set_prefix_length ipv4_address_element_new 24)"
      "''255.0.0.0''"]
  by (simp add: ipv4_address_element_set_prefix_length_def ipv4_address_element_new_def v4_wf_def)

lemma bit_shift_set:
  "{i. i < Suc n \<and> bit (a :: 32 word) i} =
    (if bit a 0 then insert 0 (Suc ` {i. i < n \<and> bit (drop_bit 1 a) i})
     else Suc ` {i. i < n \<and> bit (drop_bit 1 a) i})"
proof -
  have "{i. i < Suc n \<and> bit a i} = (if bit a 0 then {0} else {}) \<union> Suc ` {i. i < n \<and> bit a (Suc i)}"
    by (auto simp: image_iff less_Suc_eq_0_disj)
  then show ?thesis by (auto simp: bit_drop_bit_eq)
qed

lemma card_bits_Suc:
  "card {i. i < Suc n \<and> bit (a :: 32 word) i} =
    card {i. i < n \<and> bit (drop_bit 1 a) i} + (if bit a 0 then 1 else 0)"
  by (simp add: bit_shift_set card_insert_if card_image)

lemma and_one_bit: "(and (a :: 32 word) 1 \<noteq> 0) = bit a 0"
  by (simp add: and_one_eq bit_0 odd_iff_mod_2_eq_one)

lemma count_bits_card:
  "n < fuel \<Longrightarrow> (\<forall>i\<ge>n. \<not> bit a i) \<Longrightarrow> count_bits fuel a p = p + of_nat (card {i. i < n \<and> bit a i})"
proof (induction fuel arbitrary: n a p)
  case (Suc fuel)
  show ?case
  proof (cases n)
    case 0
    then have "a = 0" using Suc.prems by (intro bit_word_eqI) auto
    then show ?thesis using 0 by simp
  next
    case (Suc m)
    have hi: "\<forall>i\<ge>m. \<not> bit (drop_bit 1 a) i"
      using Suc.prems(2) Suc by (simp add: bit_drop_bit_eq)
    have IH: "count_bits fuel (drop_bit 1 a) q = q + of_nat (card {i. i < m \<and> bit (drop_bit 1 a) i})" for q
      using Suc.prems(1) Suc by (intro Suc.IH hi) simp
    have "a = 0 \<Longrightarrow> {i. i < n \<and> bit a i} = {}" by simp
    then show ?thesis
      unfolding Suc by (simp add: IH [unfolded One_nat_def] card_bits_Suc and_one_bit add.commute add.left_commute)
  qed
qed simp

text \<open>C37. The prefix length of a netmask the C library parses is the number of one bits in it, at most
  32 whatever the mask (contiguous or not), for either byte order; an unparsable netmask leaves
  the result untouched and reports an error.  The loop ends within 33 rounds.\<close>

theorem netmask2prefix_counts:
  "ipv4_address_netmask2prefix pton m p =
    (case pton m of None \<Rightarrow> (-1, p) | Some a \<Rightarrow> (0, of_nat (card {i. i < 32 \<and> bit a i})))
   \<and> (pton m = Some a \<longrightarrow> unat (snd (ipv4_address_netmask2prefix pton m p)) = card {i. i < 32 \<and> bit a i}
       \<and> unat (snd (ipv4_address_netmask2prefix pton m p)) \<le> 32)"
proof -
  have high: "\<forall>i\<ge>32. \<not> bit x i" for x :: "32 word"
    using bit_imp_le_length [of x] by fastforce
  have eq: "ipv4_address_netmask2prefix pton m p =
      (case pton m of None \<Rightarrow> (-1, p) | Some a \<Rightarrow> (0, of_nat (card {i. i < 32 \<and> bit a i})))"
    by (simp add: ipv4_address_netmask2prefix_def count_bits_card [of 32 33] high split: option.splits)
  have le: "card {i. i < (32::nat) \<and> bit a i} \<le> 32" for a :: "32 word"
    using card_mono [of "{..<32::nat}" "{i. i < 32 \<and> bit a i}"] by auto
  then have "unat (of_nat (card {i. i < (32::nat) \<and> bit a i}) :: 8 word) = card {i. i < 32 \<and> bit a i}" for a :: "32 word"
  proof -
    have "card {i. i < (32::nat) \<and> bit a i} < 256"
      using le [of a] by (rule le_less_trans) simp
    then show ?thesis by (simp add: unat_of_nat)
  qed
  with eq le show ?thesis by simp
qed

lemma count_24:
  "ipv4_address_netmask2prefix (\<lambda>s. if s = ''255.255.255.0'' then Some 0x00FFFFFF else None) ''255.255.255.0'' 0 = (0, 24)"
  by code_simp

theorem netmask2prefix_counts_witness:
  "ipv4_address_netmask2prefix (\<lambda>s. if s = ''255.255.255.0'' then Some 0x00FFFFFF else None) ''255.255.255.0'' 0 = (0, 24)
   \<and> unat (snd (ipv4_address_netmask2prefix (\<lambda>s. if s = ''255.255.255.0'' then Some 0x00FFFFFF else None) ''255.255.255.0'' 0)) \<le> 32"
  using netmask2prefix_counts [of "\<lambda>s. if s = ''255.255.255.0'' then Some 0x00FFFFFF else None" "''255.255.255.0''" 0 "0x00FFFFFF"]
  by (simp add: count_24)

section \<open>Lemmas: interface types\<close>

lemma ly2nl_Some_iff: "type_ly2nl (Some y) = (0, Some t) \<longleftrightarrow>
    (y, t) \<in> {(''iana-if-type:ethernetCsmacd'', ''veth''), (''iana-if-type:softwareLoopback'', ''vcan''),
      (''iana-if-type:l2vlan'', ''vlan''), (''iana-if-type:other'', ''dummy'')}"
  by (auto simp: type_ly2nl_def)

text \<open>Every YANG type that can be stored as a netlink type is read back as the same YANG type; a
  netlink type read as a YANG type is stored back as itself except bridge, which is read but
  cannot be stored, and the missing type, which is stored as dummy.\<close>

theorem interface_type_roundtrip:
  "(type_ly2nl (Some y) = (0, Some t) \<longrightarrow> type_nl2ly (Some t) = (0, Some y))
   \<and> (type_nl2ly nt = (0, Some y) \<longrightarrow>
       type_ly2nl (Some y) = (if nt = Some ''bridge'' then (-2, None)
                              else if nt = None then (0, Some ''dummy'') else (0, nt)))"
  by (cases nt) (auto simp: ly2nl_Some_iff type_nl2ly_def type_ly2nl_def)

theorem interface_type_roundtrip_witness:
  "type_ly2nl (Some ''iana-if-type:l2vlan'') = (0, Some ''vlan'')
   \<and> type_nl2ly (Some ''vlan'') = (0, Some ''iana-if-type:l2vlan'')
   \<and> type_ly2nl (Some ''iana-if-type:bridge'') = (-2, None)"
  using interface_type_roundtrip [of "''iana-if-type:l2vlan''" "''vlan''" None]
    interface_type_roundtrip [of "''iana-if-type:bridge''" "''x''" "Some ''bridge''"]
  by (simp add: type_nl2ly_def type_ly2nl_def)

end
