(* ===== verification/NlEnv.thy ===== *)
theory NlEnv
  imports IfData
begin

text \<open>
  The world the change handlers act in.  libnl, libyang, sysrepo and the srpc helpers are not part of
  the repository: what they answer is a field of the record \<^verbatim>\<open>env\<close>, a parameter of every
  handler, which may depend on everything that was called before.  What the handlers do to them
  is kept in the world's trace: resources acquired and released, and netlink requests.  An object
  under construction (\<^verbatim>\<open>struct rtnl_addr\<close>, \<^verbatim>\<open>rtnl_link\<close>, \<^verbatim>\<open>rtnl_neigh\<close>) is the list of
  the setter calls made on it, an address is the term of the calls that built it.
\<close>

section \<open>Requests and the trace\<close>

datatype family = AF_UNSPEC | AF_INET | AF_INET6 | AF_LLC

text \<open>\<^verbatim>\<open>nl_addr_parse(text, family)\<close>, then possibly \<^verbatim>\<open>nl_addr_set_prefixlen\<close>.\<close>

datatype naddr = Parsed cstr family | With_prefixlen naddr "8 word"

text \<open>The setter calls on request objects.\<close>

datatype attr =
    A_local naddr | A_ifindex int
  | L_name cstr | L_type "cstr option" | L_flags cstr | L_unset_flags cstr | L_operstate "8 word"
  | L_mtu "32 word"
  | N_ifindex int | N_dst naddr | N_lladdr naddr

type_synonym rt_object = "attr list"
type_synonym link = nat

abbreviation NLM_F_REPLACE :: nat where "NLM_F_REPLACE \<equiv> 0x100"
abbreviation NLM_F_CREATE :: nat where "NLM_F_CREATE \<equiv> 0x400"
abbreviation IF_OPER_DOWN :: "8 word" where "IF_OPER_DOWN \<equiv> 2"
abbreviation IF_OPER_UP :: "8 word" where "IF_OPER_UP \<equiv> 6"

datatype request =
    Addr_add rt_object nat | Addr_delete rt_object nat
  | Link_add rt_object nat | Link_change link rt_object nat | Link_delete link
  | Neigh_add rt_object nat | Neigh_delete rt_object nat

datatype res_kind = R_rtnl_addr | R_rtnl_link | R_rtnl_neigh | R_nl_addr | R_link_ref | R_session | R_val
  | R_socket | R_cache

text \<open>A resource is named by the position in the trace where it was acquired.\<close>

type_synonym res = "res_kind \<times> nat"

datatype event = Acquire res | Release res | Request request int

record mod_family =
  mf_prefix_length :: "8 word"
  mf_prefix_set :: bool
  mf_link_layer_address :: "cstr option"
  mf_link_layer_set :: bool

record nl_ctx =
  nc_socket :: "res option"
  nc_link_cache :: "res option"
  nc_addr_cache :: "res option"
  nc_neigh_cache :: "res option"

record mod_ctx =
  mc_nl :: nl_ctx
  mc_ipv4 :: mod_family
  mc_ipv6 :: mod_family

record world =
  w_trace :: "event list"
  w_mod :: mod_ctx

definition zero_mod_family :: mod_family where
  "zero_mod_family = \<lparr> mf_prefix_length = 0, mf_prefix_set = False,
     mf_link_layer_address = None, mf_link_layer_set = False \<rparr>"

text \<open>\<^verbatim>\<open>(interfaces_mod_changes_ctx_t) { 0 }\<close>.\<close>

definition zero_mod_ctx :: mod_ctx where
  "zero_mod_ctx = \<lparr> mc_nl = \<lparr> nc_socket = None, nc_link_cache = None, nc_addr_cache = None, nc_neigh_cache = None \<rparr>,
     mc_ipv4 = zero_mod_family, mc_ipv6 = zero_mod_family \<rparr>"

section \<open>Changes\<close>

datatype operation = SR_OP_CREATED | SR_OP_MODIFIED | SR_OP_DELETED | SR_OP_MOVED

text \<open>\<^verbatim>\<open>srpc_change_ctx_t\<close>: the operation, the node (named by a number), its value and its
  previous value.\<close>

record change =
  ch_operation :: operation
  ch_node :: nat
  ch_value :: cstr
  ch_previous_value :: cstr

type_synonym handler = "change \<Rightarrow> world \<Rightarrow> (int \<times> world) outcome"

text \<open>A value of the running datastore: \<^verbatim>\<open>sr_val_t\<close>.\<close>

datatype sr_val = V_uint8 "8 word" | V_string cstr

record env =
  en_lyd_path :: "nat \<Rightarrow> cstr option"
  en_key_value :: "cstr \<Rightarrow> cstr \<Rightarrow> cstr \<Rightarrow> int \<times> cstr"
  en_xpath_key :: "cstr \<Rightarrow> cstr \<Rightarrow> cstr \<Rightarrow> cstr option"
  en_link_by_name :: "event list \<Rightarrow> cstr \<Rightarrow> link option"
  en_link_ifindex :: "link \<Rightarrow> int"
  en_link_name :: "link \<Rightarrow> cstr"
  en_link_type :: "link \<Rightarrow> cstr option"
  en_addr_cache_empty :: "event list \<Rightarrow> bool"
  en_alloc :: "event list \<Rightarrow> bool"
  en_parse :: "event list \<Rightarrow> cstr \<Rightarrow> family \<Rightarrow> int"
  en_set :: "event list \<Rightarrow> attr \<Rightarrow> int"
  en_request :: "event list \<Rightarrow> request \<Rightarrow> int"
  en_connection :: bool
  en_session_start :: "event list \<Rightarrow> int"
  en_get_item :: "event list \<Rightarrow> cstr \<Rightarrow> int \<times> sr_val"
  en_pton :: "cstr \<Rightarrow> 32 word option"
  en_init :: "event list \<Rightarrow> cstr \<Rightarrow> int"
  en_iterate :: "cstr \<Rightarrow> handler \<Rightarrow> (world \<Rightarrow> int \<times> world) option \<Rightarrow> (world \<Rightarrow> world) option
                 \<Rightarrow> world \<Rightarrow> (int \<times> world) outcome"

section \<open>Primitive steps\<close>

definition emit :: "event \<Rightarrow> world \<Rightarrow> world" where
  "emit e w = w\<lparr>w_trace := w_trace w @ [e]\<rparr>"

definition acquire :: "res_kind \<Rightarrow> world \<Rightarrow> res \<times> world" where
  "acquire k w = (let r = (k, length (w_trace w)) in (r, emit (Acquire r) w))"

definition release :: "res \<Rightarrow> world \<Rightarrow> world" where
  "release r w = emit (Release r) w"

text \<open>\<^verbatim>\<open>if (p) put(p);\<close>\<close>

definition release_opt :: "res option \<Rightarrow> world \<Rightarrow> world" where
  "release_opt p w = (case p of Some r \<Rightarrow> release r w | None \<Rightarrow> w)"

definition do_request :: "env \<Rightarrow> request \<Rightarrow> world \<Rightarrow> int \<times> world" where
  "do_request E r w = (let rc = en_request E (w_trace w) r in (rc, emit (Request r rc) w))"

definition set_attr :: "env \<Rightarrow> attr \<Rightarrow> world \<Rightarrow> int \<times> world" where
  "set_attr E a w = (en_set E (w_trace w) a, w)"

text \<open>\<^verbatim>\<open>nl_addr_parse\<close>: the address object exists when it returns 0.\<close>

definition nl_addr_parse :: "env \<Rightarrow> cstr \<Rightarrow> family \<Rightarrow> world \<Rightarrow> int \<times> res option \<times> world" where
  "nl_addr_parse E s f w =
    (let rc = en_parse E (w_trace w) s f
     in if rc = 0 then (let (r, w1) = acquire R_nl_addr w in (0, Some r, w1)) else (rc, None, w))"

text \<open>\<^verbatim>\<open>rtnl_link_get_by_name\<close> takes a reference on the link it returns.\<close>

definition link_get_by_name :: "env \<Rightarrow> cstr \<Rightarrow> world \<Rightarrow> link option \<times> world" where
  "link_get_by_name E name w =
    (case en_link_by_name E (w_trace w) name of
       None \<Rightarrow> (None, w)
     | Some l \<Rightarrow> (Some l, snd (acquire R_link_ref w)))"

definition session_start :: "env \<Rightarrow> world \<Rightarrow> int \<times> res option \<times> world" where
  "session_start E w =
    (let rc = en_session_start E (w_trace w)
     in if rc = 0 then (let (r, w1) = acquire R_session w in (0, Some r, w1)) else (rc, None, w))"

text \<open>\<^verbatim>\<open>SRPC_SAFE_CALL_ERR\<close> on a call with an out-parameter.\<close>

definition safe_out :: "(world \<Rightarrow> int \<times> 'a \<times> world) \<Rightarrow> (world \<Rightarrow> 'r) \<Rightarrow> ('a \<Rightarrow> world \<Rightarrow> 'r) \<Rightarrow> world \<Rightarrow> 'r" where
  "safe_out call label k w = (case call w of (e, v, w') \<Rightarrow> if e \<noteq> 0 then label w' else k v w')"

text \<open>The same on a call that itself runs callbacks.\<close>

definition safe_run :: "(world \<Rightarrow> (int \<times> world) outcome) \<Rightarrow> (world \<Rightarrow> (int \<times> world) outcome)
    \<Rightarrow> (world \<Rightarrow> (int \<times> world) outcome) \<Rightarrow> world \<Rightarrow> (int \<times> world) outcome" where
  "safe_run call label k w = obind (call w) (\<lambda>(e, w'). if e \<noteq> 0 then label w' else k w')"

definition pure_call :: "int \<times> 'a \<Rightarrow> world \<Rightarrow> int \<times> 'a \<times> world" where
  "pure_call r w = (fst r, snd r, w)"

definition mod_of :: "family \<Rightarrow> world \<Rightarrow> mod_family" where
  "mod_of f w = (if f = AF_INET6 then mc_ipv6 (w_mod w) else mc_ipv4 (w_mod w))"

definition upd_mod :: "family \<Rightarrow> (mod_family \<Rightarrow> mod_family) \<Rightarrow> world \<Rightarrow> world" where
  "upd_mod f g w = (if f = AF_INET6 then w\<lparr>w_mod := (w_mod w)\<lparr>mc_ipv6 := g (mc_ipv6 (w_mod w))\<rparr>\<rparr>
                    else w\<lparr>w_mod := (w_mod w)\<lparr>mc_ipv4 := g (mc_ipv4 (w_mod w))\<rparr>\<rparr>)"

section \<open>What a trace says\<close>

fun requests_of :: "event list \<Rightarrow> (request \<times> int) list" where
  "requests_of [] = []"
| "requests_of (Request r rc # es) = (r, rc) # requests_of es"
| "requests_of (_ # es) = requests_of es"

definition requests :: "world \<Rightarrow> (request \<times> int) list" where
  "requests w = requests_of (w_trace w)"

text \<open>Resources acquired and not released, the latest first.\<close>

fun holding :: "res list \<Rightarrow> event list \<Rightarrow> res list" where
  "holding h [] = h"
| "holding h (Acquire r # es) = holding (r # h) es"
| "holding h (Release r # es) = holding (remove1 r h) es"
| "holding h (Request _ _ # es) = holding h es"

definition held :: "world \<Rightarrow> res list" where
  "held w = holding [] (w_trace w)"

lemma requests_of_append [simp]: "requests_of (xs @ ys) = requests_of xs @ requests_of ys"
  by (induction xs rule: requests_of.induct) auto

lemma holding_append [simp]: "holding h (xs @ ys) = holding (holding h xs) ys"
  by (induction h xs rule: holding.induct) auto

named_theorems trace_simps \<open>effect of the primitive steps on requests, held resources and context\<close>

lemma emit_simps [trace_simps]:
  "w_trace (emit e w) = w_trace w @ [e]" "w_mod (emit e w) = w_mod w"
  "requests (emit (Request r rc) w) = requests w @ [(r, rc)]"
  "requests (emit (Acquire x) w) = requests w" "requests (emit (Release x) w) = requests w"
  "held (emit (Request r rc) w) = held w" "held (emit (Acquire x) w) = x # held w"
  "held (emit (Release x) w) = remove1 x (held w)"
  by (simp_all add: emit_def requests_def held_def)

lemma release_simps [trace_simps]:
  "w_mod (release r w) = w_mod w" "requests (release r w) = requests w"
  "held (release r w) = remove1 r (held w)"
  by (simp_all add: release_def trace_simps)

text \<open>The resources of some kinds.\<close>

definition held_kinds :: "res_kind set \<Rightarrow> world \<Rightarrow> res list" where
  "held_kinds K w = filter (\<lambda>r. fst r \<in> K) (held w)"

lemma held_kinds_simps [trace_simps]:
  "held_kinds K (emit (Request r rc) w) = held_kinds K w"
  "held_kinds K (emit (Acquire x) w) = (if fst x \<in> K then x # held_kinds K w else held_kinds K w)"
  "held_kinds K (emit (Release x) w) = (if fst x \<in> K then remove1 x (held_kinds K w) else held_kinds K w)"
  "held_kinds K (release x w) = (if fst x \<in> K then remove1 x (held_kinds K w) else held_kinds K w)"
  by (auto simp: held_kinds_def trace_simps filter_remove1 remove1_idem)

lemma held_kinds_trace: "w_trace w' = w_trace w \<Longrightarrow> held_kinds K w' = held_kinds K w"
  by (simp add: held_kinds_def held_def)

lemma release_opt_simps [trace_simps]:
  "release_opt None w = w" "release_opt (Some r) w = release r w"
  by (simp_all add: release_opt_def)

lemma mod_simps [trace_simps]:
  "w_trace (upd_mod f g w) = w_trace w" "requests (upd_mod f g w) = requests w"
  "held (upd_mod f g w) = held w" "held_kinds K (upd_mod f g w) = held_kinds K w" "mod_of f (upd_mod f g w) = g (mod_of f w)"
  by (auto simp: upd_mod_def requests_def held_def held_kinds_def mod_of_def)

lemma mod_of_emit [trace_simps]: "mod_of f (emit e w) = mod_of f w"
  by (simp add: mod_of_def trace_simps)

lemma mod_of_release [trace_simps]: "mod_of f (release r w) = mod_of f w"
  by (simp add: mod_of_def trace_simps)

lemmas run_simps = safe_ptr_def safe_out_def safe_call_def safe_run_def pure_call_def acquire_def
  nl_addr_parse_def link_get_by_name_def session_start_def do_request_def set_attr_def Let_def

lemma trace_release [trace_simps]: "w_trace (release r w) = w_trace w @ [Release r]"
  by (simp add: release_def trace_simps)

section \<open>Runs that stop at the first refused request\<close>

text \<open>A run reports success only when every request it made was accepted, and makes no request after
  a refused one.\<close>

definition run_ok :: "int \<Rightarrow> (request \<times> int) list \<Rightarrow> bool" where
  "run_ok e rs = ((e = 0 \<longrightarrow> (\<forall>(r, rc)\<in>set rs. rc = 0)) \<and> (\<forall>(r, rc)\<in>set (butlast rs). rc = 0))"

lemma run_ok_Nil [simp]: "run_ok e []"
  by (simp add: run_ok_def)

lemma run_ok_append: "run_ok 0 rs \<Longrightarrow> run_ok e rs' \<Longrightarrow> run_ok e (rs @ rs')"
  by (auto simp: run_ok_def butlast_append dest: in_set_butlastD)

section \<open>The laws of the change iterator\<close>

fun iterate_list :: "handler \<Rightarrow> change list \<Rightarrow> world \<Rightarrow> (int \<times> world) outcome" where
  "iterate_list cb [] w = Ret (0, w)"
| "iterate_list cb (c # cs) w = obind (cb c w) (\<lambda>(e, w'). if e \<noteq> 0 then Ret (e, w') else iterate_list cb cs w')"

text \<open>What the code relies on of \<^verbatim>\<open>srpc_iterate_changes\<close>: it runs the init callback, then the
  change callback on some changes in turn until one fails, then possibly the free callback; it
  touches the world through these callbacks only, and reports success only if they all
  succeeded.\<close>

definition iterate_law :: "env \<Rightarrow> bool" where
  "iterate_law E = (\<forall>xpath cb init free w e w'.
     en_iterate E xpath cb init free w = Ret (e, w') \<longrightarrow>
     (\<exists>cs e1 w1 e2 w2.
        (case init of None \<Rightarrow> e1 = 0 \<and> w1 = w | Some i \<Rightarrow> i w = (e1, w1))
        \<and> (if e1 \<noteq> 0 then e2 = e1 \<and> w2 = w1 else iterate_list cb cs w1 = Ret (e2, w2))
        \<and> (e = 0 \<longrightarrow> e2 = 0)
        \<and> (w' = w2 \<or> (\<exists>f. free = Some f \<and> w' = f w2))))"

text \<open>The changes that the iterator finds at a path, when it runs no init and free callbacks.\<close>

definition iterates :: "env \<Rightarrow> cstr \<Rightarrow> change list \<Rightarrow> bool" where
  "iterates E xpath cs = (\<forall>cb w. en_iterate E xpath cb None None w = iterate_list cb cs w)"

text \<open>Which interface, address or neighbor a change of a leaf is about.\<close>

definition resolves :: "env \<Rightarrow> change \<Rightarrow> world \<Rightarrow> cstr \<Rightarrow> link \<Rightarrow> bool" where
  "resolves E c w name l = (\<exists>path. en_lyd_path E (ch_node c) = Some path
     \<and> en_key_value E path ''interface'' ''name'' = (0, name)
     \<and> en_link_by_name E (w_trace w) name = Some l)"

definition resolves_ip :: "env \<Rightarrow> change \<Rightarrow> cstr \<Rightarrow> world \<Rightarrow> cstr \<Rightarrow> cstr \<Rightarrow> link \<Rightarrow> bool" where
  "resolves_ip E c list w name ip l = (\<exists>path. en_lyd_path E (ch_node c) = Some path
     \<and> en_key_value E path ''interface'' ''name'' = (0, name)
     \<and> en_key_value E path list ''ip'' = (0, ip)
     \<and> en_link_by_name E (w_trace w) name = Some l)"

text \<open>Callbacks that leave the trace alone leave it alone through the iterator.\<close>

definition silent :: "handler \<Rightarrow> bool" where
  "silent cb = (\<forall>c w e w'. cb c w = Ret (e, w') \<longrightarrow> w_trace w' = w_trace w)"

lemma iterate_list_trace:
  assumes "silent cb"
  shows "iterate_list cb cs w = Ret (e, w') \<Longrightarrow> w_trace w' = w_trace w"
proof (induction cs arbitrary: w)
  case (Cons c cs)
  then obtain e1 w1 where 1: "cb c w = Ret (e1, w1)" "(if e1 \<noteq> 0 then Ret (e1, w1) else iterate_list cb cs w1) = Ret (e, w')"
    by (auto simp: obind_eq_Ret)
  then have "w_trace w1 = w_trace w" using assms by (auto simp: silent_def)
  then show ?case using Cons.IH [of w1] 1(2) by (auto split: if_splits)
qed simp

lemma iterate_trace:
  assumes "iterate_law E" "silent cb" "en_iterate E xpath cb None None w = Ret (e, w')"
  shows "w_trace w' = w_trace w"
proof -
  from assms(1,3) obtain cs e2 w2 where "iterate_list cb cs w = Ret (e2, w2)" "w' = w2"
    unfolding iterate_law_def by fastforce
  with iterate_list_trace [OF assms(2)] show ?thesis by blast
qed

lemma requests_trace: "w_trace w' = w_trace w \<Longrightarrow> requests w' = requests w"
  by (simp add: requests_def)

lemma upd_mod_upd_mod [trace_simps]: "upd_mod f g (upd_mod f h w) = upd_mod f (\<lambda>m. g (h m)) w"
  by (auto simp: upd_mod_def)

section \<open>Step-by-step reasoning\<close>

text \<open>What holds of every result of a piece of handler code; one rule per construct.\<close>

definition post :: "(int \<Rightarrow> world \<Rightarrow> bool) \<Rightarrow> (int \<times> world) outcome \<Rightarrow> bool" where
  "post P r = (\<forall>e w. r = Ret (e, w) \<longrightarrow> P e w)"

named_theorems post_intros \<open>rules for the postcondition of handler code\<close>

lemma post_Ret [post_intros]: "P e w \<Longrightarrow> post P (Ret (e, w))"
  by (simp add: post_def)

lemma post_Abort [post_intros]: "post P Abort" "post P Undef"
  by (simp_all add: post_def)

lemma post_obind [post_intros]: "(\<And>x. m = Ret x \<Longrightarrow> post P (f x)) \<Longrightarrow> post P (obind m f)"
  by (cases m) (auto simp: post_def)

lemma post_safe_call [post_intros]:
  "(\<And>e w'. call w = (e, w') \<Longrightarrow> e \<noteq> 0 \<Longrightarrow> post P (label w')) \<Longrightarrow>
   (\<And>w'. call w = (0, w') \<Longrightarrow> post P (k w')) \<Longrightarrow> post P (safe_call call label k w)"
  by (cases "call w") (auto simp: safe_call_def split: if_splits)

lemma post_safe_ptr [post_intros]:
  "(\<And>w'. call w = (None, w') \<Longrightarrow> post P (label w')) \<Longrightarrow>
   (\<And>p w'. call w = (Some p, w') \<Longrightarrow> post P (k p w')) \<Longrightarrow> post P (safe_ptr call label k w)"
  by (auto simp: safe_ptr_def split: prod.splits option.splits)

lemma post_safe_out [post_intros]:
  "(\<And>e v w'. call w = (e, v, w') \<Longrightarrow> e \<noteq> 0 \<Longrightarrow> post P (label w')) \<Longrightarrow>
   (\<And>v w'. call w = (0, v, w') \<Longrightarrow> post P (k v w')) \<Longrightarrow> post P (safe_out call label k w)"
  by (auto simp: safe_out_def split: prod.splits)

lemma post_safe_run [post_intros]:
  "(\<And>e w'. call w = Ret (e, w') \<Longrightarrow> e \<noteq> 0 \<Longrightarrow> post P (label w')) \<Longrightarrow>
   (\<And>w'. call w = Ret (0, w') \<Longrightarrow> post P (k w')) \<Longrightarrow> post P (safe_run call label k w)"
  by (cases "call w") (auto simp: safe_run_def post_def split: if_splits)

lemma post_if [post_intros]:
  "(b \<Longrightarrow> post P x) \<Longrightarrow> (\<not> b \<Longrightarrow> post P y) \<Longrightarrow> post P (if b then x else y)"
  by simp

lemma post_prod [post_intros]: "(\<And>a b. t = (a, b) \<Longrightarrow> post P (f a b)) \<Longrightarrow> post P (case t of (a, b) \<Rightarrow> f a b)"
  by (cases t) simp

lemma post_option [post_intros]:
  "(t = None \<Longrightarrow> post P x) \<Longrightarrow> (\<And>a. t = Some a \<Longrightarrow> post P (f a)) \<Longrightarrow> post P (case t of None \<Rightarrow> x | Some a \<Rightarrow> f a)"
  by (cases t) auto

lemma post_operation [post_intros]:
  "(t = SR_OP_CREATED \<Longrightarrow> post P a) \<Longrightarrow> (t = SR_OP_MODIFIED \<Longrightarrow> post P b) \<Longrightarrow>
   (t = SR_OP_DELETED \<Longrightarrow> post P c) \<Longrightarrow> (t = SR_OP_MOVED \<Longrightarrow> post P d) \<Longrightarrow>
   post P (case t of SR_OP_CREATED \<Rightarrow> a | SR_OP_MODIFIED \<Rightarrow> b | SR_OP_DELETED \<Rightarrow> c | SR_OP_MOVED \<Rightarrow> d)"
  by (cases t) auto

text \<open>Branches that wait for the world.\<close>

lemma post_option_fun [post_intros]:
  "(t = None \<Longrightarrow> post P (x w)) \<Longrightarrow> (\<And>a. t = Some a \<Longrightarrow> post P (f a w)) \<Longrightarrow>
   post P ((case t of None \<Rightarrow> x | Some a \<Rightarrow> f a) w)"
  by (cases t) auto

lemma post_operation_fun [post_intros]:
  "(t = SR_OP_CREATED \<Longrightarrow> post P (a w)) \<Longrightarrow> (t = SR_OP_MODIFIED \<Longrightarrow> post P (b w)) \<Longrightarrow>
   (t = SR_OP_DELETED \<Longrightarrow> post P (c w)) \<Longrightarrow> (t = SR_OP_MOVED \<Longrightarrow> post P (d w)) \<Longrightarrow>
   post P ((case t of SR_OP_CREATED \<Rightarrow> a | SR_OP_MODIFIED \<Rightarrow> b | SR_OP_DELETED \<Rightarrow> c | SR_OP_MOVED \<Rightarrow> d) w)"
  by (cases t) auto

text \<open>What the calls did, from what they returned.\<close>

lemma acquireD: "acquire k w = (r, w') \<Longrightarrow> r = (k, length (w_trace w)) \<and> w' = emit (Acquire r) w"
  by (auto simp: acquire_def Let_def)

lemma nl_addr_parseD:
  "nl_addr_parse E s f w = (e, r, w') \<Longrightarrow>
     (e = 0 \<longrightarrow> r = Some (R_nl_addr, length (w_trace w)) \<and> w' = emit (Acquire (R_nl_addr, length (w_trace w))) w)
     \<and> (e \<noteq> 0 \<longrightarrow> r = None \<and> w' = w)"
  by (auto simp: nl_addr_parse_def acquire_def Let_def split: if_splits)

lemma link_get_by_nameD:
  "link_get_by_name E n w = (l, w') \<Longrightarrow>
     (l \<noteq> None \<longrightarrow> w' = emit (Acquire (R_link_ref, length (w_trace w))) w) \<and> (l = None \<longrightarrow> w' = w)"
  by (auto simp: link_get_by_name_def acquire_def Let_def split: option.splits)

lemma session_startD:
  "session_start E w = (e, r, w') \<Longrightarrow>
     (e = 0 \<longrightarrow> r = Some (R_session, length (w_trace w)) \<and> w' = emit (Acquire (R_session, length (w_trace w))) w)
     \<and> (e \<noteq> 0 \<longrightarrow> r = None \<and> w' = w)"
  by (auto simp: session_start_def acquire_def Let_def split: if_splits)

lemma do_requestD: "do_request E r w = (e, w') \<Longrightarrow> w' = emit (Request r e) w"
  by (auto simp: do_request_def Let_def)

lemma set_attrD: "set_attr E a w = (e, w') \<Longrightarrow> w' = w"
  by (auto simp: set_attr_def)

lemma pure_callD: "pure_call r w = (e, v, w') \<Longrightarrow> w' = w"
  by (auto simp: pure_call_def)

lemma pair_callD: "(v, w) = (v', w') \<Longrightarrow> w' = w"
  by simp

lemmas call_dests = acquireD nl_addr_parseD link_get_by_nameD session_startD do_requestD set_attrD
  pure_callD pair_callD

section \<open>The contract of the change handlers\<close>

text \<open>Every handler appends to the request log a run that stops at the first refused request.\<close>

locale change_handler =
  fixes h :: "env \<Rightarrow> handler"
  assumes run: "iterate_law E \<Longrightarrow> h E c w = Ret (e, w') \<Longrightarrow>
    \<exists>rs. requests w' = requests w @ rs \<and> run_ok e rs"
begin

lemma iterate_list_run:
  "iterate_law E \<Longrightarrow> iterate_list (h E) cs w = Ret (e, w') \<Longrightarrow> \<exists>rs. requests w' = requests w @ rs \<and> run_ok e rs"
proof (induction cs arbitrary: w)
  case (Cons c cs)
  obtain e1 w1 where h: "h E c w = Ret (e1, w1)"
    using Cons.prems(2) by (auto simp: obind_eq_Ret)
  from run [OF Cons.prems(1) h] obtain r1 where r1: "requests w1 = requests w @ r1" "run_ok e1 r1" by blast
  show ?case
  proof (cases "e1 = 0")
    case True
    then have "iterate_list (h E) cs w1 = Ret (e, w')" using Cons.prems(2) h by simp
    from Cons.IH [OF Cons.prems(1) this] obtain r2 where "requests w' = requests w1 @ r2" "run_ok e r2" by blast
    then show ?thesis using r1 True run_ok_append [of r1 e r2] by auto
  next
    case False
    then show ?thesis using Cons.prems(2) h r1 by auto
  qed
qed simp

lemma iterate_run:
  assumes "iterate_law E" "en_iterate E xpath (h E) (Some i) (Some f) w = Ret (e, w')"
    and "\<And>w. requests (snd (i w)) = requests w" "\<And>w. requests (f w) = requests w"
  shows "\<exists>rs. requests w' = requests w @ rs \<and> run_ok e rs"
proof -
  from assms(1,2) obtain cs e1 w1 e2 w2 where i: "i w = (e1, w1)"
    and s: "if e1 \<noteq> 0 then e2 = e1 \<and> w2 = w1 else iterate_list (h E) cs w1 = Ret (e2, w2)"
    and e: "e = 0 \<longrightarrow> e2 = 0" and w': "w' = w2 \<or> w' = f w2"
    unfolding iterate_law_def by fastforce
  have r1: "requests w1 = requests w" using assms(3) [of w] i by simp
  have "\<exists>rs. requests w2 = requests w @ rs \<and> run_ok e2 rs"
  proof (cases "e1 = 0")
    case True
    then show ?thesis using s iterate_list_run [OF assms(1), of cs w1 e2 w2] r1 by simp
  next
    case False
    then show ?thesis using s r1 by (intro exI [of _ "[]"]) simp
  qed
  then obtain rs where "requests w2 = requests w @ rs" "run_ok e2 rs" by blast
  moreover from this(2) e have "run_ok e rs" by (auto simp: run_ok_def)
  moreover have "requests w' = requests w2" using w' assms(4) [of w2] by auto
  ultimately show ?thesis by auto
qed

end

section \<open>A concrete environment\<close>

text \<open>An iterator over given changes: it satisfies the law.\<close>

definition iterate_changes_of :: "(cstr \<Rightarrow> change list) \<Rightarrow> cstr \<Rightarrow> handler \<Rightarrow> (world \<Rightarrow> int \<times> world) option
    \<Rightarrow> (world \<Rightarrow> world) option \<Rightarrow> world \<Rightarrow> (int \<times> world) outcome" where
  "iterate_changes_of changes xpath cb init free w =
    (case (case init of None \<Rightarrow> (0, w) | Some i \<Rightarrow> i w) of
       (e1, w1) \<Rightarrow>
         if e1 \<noteq> 0 then Ret (e1, w1)
         else obind (iterate_list cb (changes xpath) w1) (\<lambda>(e2, w2).
                Ret (e2, case free of None \<Rightarrow> w2 | Some f \<Rightarrow> f w2)))"

lemma iterate_law_changes_of: "en_iterate E = iterate_changes_of ch \<Longrightarrow> iterate_law E"
  unfolding iterate_law_def
proof (intro allI impI)
  fix xpath cb init free w e w'
  assume "en_iterate E = iterate_changes_of ch" "en_iterate E xpath cb init free w = Ret (e, w')"
  then have r: "iterate_changes_of ch xpath cb init free w = Ret (e, w')" by simp
  obtain e1 w1 where i: "(case init of None \<Rightarrow> (0, w) | Some i \<Rightarrow> i w) = (e1, w1)" by fastforce
  then have ini: "case init of None \<Rightarrow> e1 = 0 \<and> w1 = w | Some i \<Rightarrow> i w = (e1, w1)"
    by (auto split: option.splits)
  show "\<exists>cs e1 w1 e2 w2.
        (case init of None \<Rightarrow> e1 = 0 \<and> w1 = w | Some i \<Rightarrow> i w = (e1, w1))
        \<and> (if e1 \<noteq> 0 then e2 = e1 \<and> w2 = w1 else iterate_list cb cs w1 = Ret (e2, w2))
        \<and> (e = 0 \<longrightarrow> e2 = 0) \<and> (w' = w2 \<or> (\<exists>f. free = Some f \<and> w' = f w2))"
  proof (cases "e1 = 0")
    case True
    then obtain w2 where "iterate_list cb (ch xpath) w1 = Ret (e, w2)"
      "w' = (case free of None \<Rightarrow> w2 | Some f \<Rightarrow> f w2)"
      using r i by (auto simp: iterate_changes_of_def obind_eq_Ret)
    then show ?thesis
      using True ini by (intro exI [of _ "ch xpath"] exI [of _ e1] exI [of _ w1] exI [of _ e] exI [of _ w2])
        (auto split: option.splits)
  next
    case False
    then show ?thesis
      using ini r i by (intro exI [of _ "[]"] exI [of _ e1] exI [of _ w1] exI [of _ e1] exI [of _ w1])
        (auto simp: iterate_changes_of_def)
  qed
qed

lemma iterates_changes_of: "en_iterate E = iterate_changes_of ch \<Longrightarrow> ch xpath = cs \<Longrightarrow> iterates E xpath cs"
  by (auto simp: iterates_def iterate_changes_of_def)

text \<open>One link, \<^verbatim>\<open>eth0\<close>, on which everything succeeds; the changes below a path are given.\<close>

definition demo_env :: "(cstr \<Rightarrow> change list) \<Rightarrow> env" where
  "demo_env ch = \<lparr> en_lyd_path = (\<lambda>n. Some ''node''),
     en_key_value = (\<lambda>p list key. (0, if list = ''interface'' then ''eth0'' else ''10.0.0.1'')),
     en_xpath_key = (\<lambda>p list key. Some ''eth0''),
     en_link_by_name = (\<lambda>t n. if n = ''eth0'' then Some 2 else None),
     en_link_ifindex = (\<lambda>l. int l), en_link_name = (\<lambda>l. ''eth0''), en_link_type = (\<lambda>l. Some ''dummy''),
     en_addr_cache_empty = (\<lambda>t. False), en_alloc = (\<lambda>t. True), en_parse = (\<lambda>t s f. 0), en_set = (\<lambda>t a. 0),
     en_request = (\<lambda>t r. 0), en_connection = True, en_session_start = (\<lambda>t. 0),
     en_get_item = (\<lambda>t p. (0, V_uint8 24)),
     en_pton = (\<lambda>s. if s = ''255.255.255.0'' then Some 0x00FFFFFF else None),
     en_init = (\<lambda>t s. 0), en_iterate = iterate_changes_of ch \<rparr>"

definition demo_world :: world where
  "demo_world = \<lparr> w_trace = [], w_mod = zero_mod_ctx \<rparr>"

definition demo_change :: "operation \<Rightarrow> cstr \<Rightarrow> cstr \<Rightarrow> change" where
  "demo_change oper v prev = \<lparr> ch_operation = oper, ch_node = 0, ch_value = v, ch_previous_value = prev \<rparr>"

lemma demo_simps [simp]:
  "ch_operation (demo_change oper v prev) = oper" "ch_value (demo_change oper v prev) = v"
  "ch_previous_value (demo_change oper v prev) = prev" "requests demo_world = []"
  "mod_of f demo_world = zero_mod_family" "mf_prefix_set zero_mod_family = False"
  "mf_prefix_length zero_mod_family = 0"
  by (simp_all add: demo_change_def requests_def demo_world_def mod_of_def zero_mod_ctx_def zero_mod_family_def)

lemma demo_law [simp]: "iterate_law (demo_env ch)"
  by (rule iterate_law_changes_of [of _ ch]) (simp add: demo_env_def)

lemma demo_iterates: "ch xpath = cs \<Longrightarrow> iterates (demo_env ch) xpath cs"
  by (rule iterates_changes_of [of _ ch]) (simp_all add: demo_env_def)

lemma demo_resolves:
  "resolves (demo_env ch) c w ''eth0'' 2"
  "list \<noteq> ''interface'' \<Longrightarrow> resolves_ip (demo_env ch) c list w ''eth0'' ''10.0.0.1'' 2"
  by (auto simp: resolves_def resolves_ip_def demo_env_def)

end
