(* ===== verification/IfAddrChange.thy ===== *)
theory IfAddrChange
  imports NlEnv
begin

text \<open>
  The change handlers of the IPv4 and IPv6 address lists,
  \<^verbatim>\<open>plugin/api/interfaces/interface/ipv4/address/change.c\<close> and
  \<^verbatim>\<open>ipv6/address/change.c\<close>.  The two \<^verbatim>\<open>change_prefix_length\<close> handlers differ in the address
  family only and are one definition with the family as its argument.  The labels
  \<^verbatim>\<open>error_out\<close> and \<^verbatim>\<open>out\<close> are functions of the local pointers the cleanup tests.
\<close>

section \<open>Paths\<close>

abbreviation PATH_MAX :: nat where "PATH_MAX \<equiv> 4096"

definition interface_list_path :: cstr where
  "interface_list_path = ''/ietf-interfaces:interfaces/interface''"

definition ip_node_path :: "cstr \<Rightarrow> cstr \<Rightarrow> cstr \<Rightarrow> cstr \<Rightarrow> cstr \<Rightarrow> cstr" where
  "ip_node_path ipv name list ip leaf =
     cbuf PATH_MAX (interface_list_path @ ''[name=\"'' @ name @ ''\"]/ietf-ip:'' @ ipv @ ''/'' @ list
       @ ''[ip=\"'' @ ip @ ''\"]/'' @ leaf)"

definition SR_ERR_NOT_FOUND :: int where
  "SR_ERR_NOT_FOUND = 5"

fun uint8_val :: "sr_val \<Rightarrow> 8 word outcome" where
  "uint8_val (V_uint8 n) = Ret n"
| "uint8_val (V_string _) = Undef"

fun string_val :: "sr_val \<Rightarrow> cstr outcome" where
  "string_val (V_string s) = Ret s"
| "string_val (V_uint8 _) = Undef"

section \<open>Prefix length and netmask\<close>

definition address_change_prefix_length :: "family \<Rightarrow> env \<Rightarrow> handler" where
  "address_change_prefix_length fam E c w0 =
    (let out = (\<lambda>req del old loc error w.
           Ret (error, release_opt loc (release_opt old (release_opt del (release_opt req w)))));
         error_out = (\<lambda>req del old loc. out req del old loc (-1))
     in safe_ptr (\<lambda>w. (en_lyd_path E (ch_node c), w)) (error_out None None None None) (\<lambda>path.
        safe_out (pure_call (en_key_value E path ''interface'' ''name'')) (error_out None None None None) (\<lambda>name.
        safe_out (pure_call (en_key_value E path ''address'' ''ip'')) (error_out None None None None) (\<lambda>ip.
        safe_ptr (link_get_by_name E name) (error_out None None None None) (\<lambda>link w.
          case ch_operation c of
            SR_OP_CREATED \<Rightarrow> out None None None None 0 w
          | SR_OP_MODIFIED \<Rightarrow>
              let (req, w1) = acquire R_rtnl_addr w;
                  (del, w2) = acquire R_rtnl_addr w1;
                  address = cbuf 100 (ip @ ''/'' @ ch_value c);
                  old_address = cbuf 100 (ip @ ''/'' @ ch_previous_value c);
                  ifindex = en_link_ifindex E link
              in safe_out (nl_addr_parse E address fam) (error_out (Some req) (Some del) None None) (\<lambda>loc.
                 safe_out (nl_addr_parse E old_address fam) (error_out (Some req) (Some del) None loc) (\<lambda>old.
                 safe_call (set_attr E (A_local (Parsed address fam))) (error_out (Some req) (Some del) old loc) (
                 safe_call (set_attr E (A_local (Parsed old_address fam))) (error_out (Some req) (Some del) old loc) (
                 safe_call (do_request E (Addr_delete [A_local (Parsed old_address fam), A_ifindex ifindex] 0))
                   (error_out (Some req) (Some del) old loc) (
                 safe_call (do_request E (Addr_add [A_local (Parsed address fam), A_ifindex ifindex] 0))
                   (error_out (Some req) (Some del) old loc) (
                 out (Some req) (Some del) old loc 0)))))) w2
          | SR_OP_DELETED \<Rightarrow> out None None None None 0 w
          | SR_OP_MOVED \<Rightarrow> out None None None None 0 w)))) w0)"

definition ipv4_address_change_prefix_length :: "env \<Rightarrow> handler" where
  "ipv4_address_change_prefix_length = address_change_prefix_length AF_INET"

definition ipv6_address_change_prefix_length :: "env \<Rightarrow> handler" where
  "ipv6_address_change_prefix_length = address_change_prefix_length AF_INET6"

definition ipv4_address_change_netmask :: "env \<Rightarrow> handler" where
  "ipv4_address_change_netmask E c w0 =
    (let out = (\<lambda>req del old loc error w.
           Ret (error, release_opt loc (release_opt old (release_opt del (release_opt req w)))));
         error_out = (\<lambda>req del old loc. out req del old loc (-1))
     in safe_ptr (\<lambda>w. (en_lyd_path E (ch_node c), w)) (error_out None None None None) (\<lambda>path.
        safe_out (pure_call (en_key_value E path ''interface'' ''name'')) (error_out None None None None) (\<lambda>name.
        safe_out (pure_call (en_key_value E path ''address'' ''ip'')) (error_out None None None None) (\<lambda>ip.
        safe_ptr (link_get_by_name E name) (error_out None None None None) (\<lambda>link w.
          case ch_operation c of
            SR_OP_CREATED \<Rightarrow> out None None None None 0 w
          | SR_OP_MODIFIED \<Rightarrow>
              let (req, w1) = acquire R_rtnl_addr w;
                  (del, w2) = acquire R_rtnl_addr w1;
                  ifindex = en_link_ifindex E link
              in safe_out (pure_call (ipv4_address_netmask2prefix (en_pton E) (ch_value c) 0))
                   (error_out (Some req) (Some del) None None) (\<lambda>prefix_length.
                 safe_out (pure_call (ipv4_address_netmask2prefix (en_pton E) (ch_previous_value c) 0))
                   (error_out (Some req) (Some del) None None) (\<lambda>old_prefix_length.
                 let address = cbuf 100 (ip @ ''/'' @ dec (unat prefix_length));
                     old_address = cbuf 100 (ip @ ''/'' @ dec (unat old_prefix_length))
                 in
                 safe_out (nl_addr_parse E address AF_INET) (error_out (Some req) (Some del) None None) (\<lambda>loc.
                 safe_out (nl_addr_parse E old_address AF_INET) (error_out (Some req) (Some del) None loc) (\<lambda>old.
                 safe_call (set_attr E (A_local (Parsed address AF_INET))) (error_out (Some req) (Some del) old loc) (
                 safe_call (set_attr E (A_local (Parsed old_address AF_INET))) (error_out (Some req) (Some del) old loc) (
                 safe_call (do_request E (Addr_delete [A_local (Parsed old_address AF_INET), A_ifindex ifindex] 0))
                   (error_out (Some req) (Some del) old loc) (
                 safe_call (do_request E (Addr_add [A_local (Parsed address AF_INET), A_ifindex ifindex] 0))
                   (error_out (Some req) (Some del) old loc) (
                 out (Some req) (Some del) old loc 0)))))))) w2
          | SR_OP_DELETED \<Rightarrow> out None None None None 0 w
          | SR_OP_MOVED \<Rightarrow> out None None None None 0 w)))) w0)"

section \<open>The IP leaf\<close>

text \<open>The callbacks that \<^verbatim>\<open>change_ip\<close> runs over the changes of the sibling leaves; the assertion
  is on the operation of that change.\<close>

definition ipv4_address_get_prefix_length :: handler where
  "ipv4_address_get_prefix_length c w =
    (if ch_operation c \<noteq> SR_OP_CREATED then Abort
     else Ret (0, upd_mod AF_INET (\<lambda>m. m\<lparr>mf_prefix_length := atoi8 (ch_value c), mf_prefix_set := True\<rparr>) w))"

definition ipv6_address_get_prefix_length :: handler where
  "ipv6_address_get_prefix_length c w =
    (if ch_operation c \<noteq> SR_OP_CREATED then Abort
     else Ret (0, upd_mod AF_INET6 (\<lambda>m. m\<lparr>mf_prefix_length := atoi8 (ch_value c), mf_prefix_set := True\<rparr>) w))"

definition ipv4_address_get_netmask :: "env \<Rightarrow> handler" where
  "ipv4_address_get_netmask E c w =
    (if ch_operation c \<noteq> SR_OP_CREATED then Abort
     else case ipv4_address_netmask2prefix (en_pton E) (ch_value c) 0 of
       (e, prefix_length) \<Rightarrow>
         if e \<noteq> 0 then Ret (-1, upd_mod AF_INET (\<lambda>m. m\<lparr>mf_prefix_set := False\<rparr>) w)
         else Ret (0, upd_mod AF_INET (\<lambda>m. m\<lparr>mf_prefix_length := prefix_length, mf_prefix_set := True\<rparr>) w))"

definition ipv4_address_change_ip :: "env \<Rightarrow> handler" where
  "ipv4_address_change_ip E c w0 =
    (let out = (\<lambda>session req error w.
           Ret (error, upd_mod AF_INET (\<lambda>m. m\<lparr>mf_prefix_length := 0, mf_prefix_set := False\<rparr>)
             (release_opt req (release_opt session w))));
         error_out = (\<lambda>session req. out session req (-1))
     in safe_ptr (\<lambda>w. (en_lyd_path E (ch_node c), w)) (error_out None None) (\<lambda>path.
        safe_out (pure_call (en_key_value E path ''interface'' ''name'')) (error_out None None) (\<lambda>name.
        safe_ptr (link_get_by_name E name) (error_out None None) (\<lambda>link.
        safe_ptr (\<lambda>w. (if en_connection E then Some () else None, w)) (error_out None None) (\<lambda>conn.
        safe_out (session_start E) (error_out None None) (\<lambda>session w.
          case ch_operation c of
            SR_OP_CREATED \<Rightarrow>
              let (req, w1) = acquire R_rtnl_addr w;
                  finish = (\<lambda>w.
                    let addr = With_prefixlen (Parsed (ch_value c) AF_INET) (mf_prefix_length (mod_of AF_INET w))
                    in safe_call (set_attr E (A_local addr)) (error_out session (Some req)) (
                       safe_call (do_request E (Addr_add [A_local addr, A_ifindex (en_link_ifindex E link)] 0))
                         (error_out session (Some req)) (
                       out session (Some req) 0)) w)
              in safe_out (nl_addr_parse E (ch_value c) AF_INET) (error_out session (Some req)) (\<lambda>local_addr.
                 safe_run (en_iterate E (ip_node_path ''ipv4'' name ''address'' (ch_value c) ''prefix-length'')
                     ipv4_address_get_prefix_length None None) (error_out session (Some req)) (\<lambda>w.
                 if \<not> mf_prefix_set (mod_of AF_INET w) then
                   safe_run (en_iterate E (ip_node_path ''ipv4'' name ''address'' (ch_value c) ''netmask'')
                       (ipv4_address_get_netmask E) None None) (error_out session (Some req)) (\<lambda>w.
                   if \<not> mf_prefix_set (mod_of AF_INET w) then error_out session (Some req) w
                   else finish w) w
                 else finish w)) w1
          | SR_OP_MODIFIED \<Rightarrow> error_out session None w
          | SR_OP_DELETED \<Rightarrow>
              let (req, w1) = acquire R_rtnl_addr w;
                  finish = (\<lambda>prefix_length.
                    let address = cbuf 100 (ch_value c @ ''/'' @ dec (unat prefix_length));
                        addr = Parsed address AF_INET
                    in safe_out (nl_addr_parse E address AF_INET) (error_out session (Some req)) (\<lambda>local_addr.
                       safe_call (set_attr E (A_local addr)) (error_out session (Some req)) (
                       safe_call (do_request E (Addr_delete [A_local addr, A_ifindex (en_link_ifindex E link)] 0))
                         (error_out session (Some req)) (
                       out session (Some req) 0))));
                  (error, prefix_val) =
                    en_get_item E (w_trace w1) (ip_node_path ''ipv4'' name ''address'' (ch_value c) ''prefix-length'')
              in if error = 0 then
                   let (val, w2) = acquire R_val w1
                   in obind (uint8_val prefix_val) (\<lambda>prefix_length. finish prefix_length w2)
                 else if error = SR_ERR_NOT_FOUND then
                   (case en_get_item E (w_trace w1) (ip_node_path ''ipv4'' name ''address'' (ch_value c) ''netmask'') of
                      (error2, netmask_val) \<Rightarrow>
                        if error2 \<noteq> 0 then error_out session (Some req) w1
                        else
                          let (val, w2) = acquire R_val w1
                          in obind (string_val netmask_val) (\<lambda>netmask.
                             safe_out (pure_call (ipv4_address_netmask2prefix (en_pton E) netmask 0))
                               (error_out session (Some req)) finish w2))
                 else error_out session (Some req) w1
          | SR_OP_MOVED \<Rightarrow> out session None 0 w))))) w0)"

definition ipv6_address_change_ip :: "env \<Rightarrow> handler" where
  "ipv6_address_change_ip E c w0 =
    (let out = (\<lambda>session req error w.
           Ret (error, upd_mod AF_INET6 (\<lambda>m. m\<lparr>mf_prefix_length := 0, mf_prefix_set := False\<rparr>)
             (release_opt req (release_opt session w))));
         error_out = (\<lambda>session req. out session req (-1))
     in safe_ptr (\<lambda>w. (en_lyd_path E (ch_node c), w)) (error_out None None) (\<lambda>path.
        safe_out (pure_call (en_key_value E path ''interface'' ''name'')) (error_out None None) (\<lambda>name.
        safe_ptr (link_get_by_name E name) (error_out None None) (\<lambda>link.
        safe_ptr (\<lambda>w. (if en_connection E then Some () else None, w)) (error_out None None) (\<lambda>conn.
        safe_out (session_start E) (error_out None None) (\<lambda>session w.
          case ch_operation c of
            SR_OP_CREATED \<Rightarrow>
              let (req, w1) = acquire R_rtnl_addr w
              in safe_out (nl_addr_parse E (ch_value c) AF_INET6) (error_out session (Some req)) (\<lambda>local_addr.
                 safe_run (en_iterate E (ip_node_path ''ipv6'' name ''address'' (ch_value c) ''prefix-length'')
                     ipv6_address_get_prefix_length None None) (error_out session (Some req)) (\<lambda>w.
                 let addr = With_prefixlen (Parsed (ch_value c) AF_INET6) (mf_prefix_length (mod_of AF_INET6 w))
                 in safe_call (set_attr E (A_local addr)) (error_out session (Some req)) (
                    safe_call (do_request E (Addr_add [A_local addr, A_ifindex (en_link_ifindex E link)] 0))
                      (error_out session (Some req)) (
                    out session (Some req) 0)) w)) w1
          | SR_OP_MODIFIED \<Rightarrow> error_out session None w
          | SR_OP_DELETED \<Rightarrow>
              let (req, w1) = acquire R_rtnl_addr w;
                  (error, prefix_val) =
                    en_get_item E (w_trace w1) (ip_node_path ''ipv6'' name ''address'' (ch_value c) ''prefix-length'')
              in if error \<noteq> 0 then error_out session (Some req) w1
                 else
                   let (val, w2) = acquire R_val w1
                   in obind (uint8_val prefix_val) (\<lambda>prefix_length.
                      let address = cbuf 100 (ch_value c @ ''/'' @ dec (unat prefix_length));
                          addr = Parsed address AF_INET6
                      in safe_out (nl_addr_parse E address AF_INET6) (error_out session (Some req)) (\<lambda>local_addr.
                         safe_call (set_attr E (A_local addr)) (error_out session (Some req)) (
                         safe_call (do_request E (Addr_delete [A_local addr, A_ifindex (en_link_ifindex E link)] 0))
                           (error_out session (Some req)) (
                         out session (Some req) 0))) w2)
          | SR_OP_MOVED \<Rightarrow> out session None 0 w))))) w0)"

section \<open>Lemmas\<close>

text \<open>The calls before a request on which it depends: the given addresses can be parsed and the given
  attributes set; and the connection to sysrepo and its session.\<close>

definition callable :: "env \<Rightarrow> (cstr \<times> family) set \<Rightarrow> attr set \<Rightarrow> bool" where
  "callable E ps as = (\<forall>t. (\<forall>(s, f)\<in>ps. en_parse E t s f = 0) \<and> (\<forall>a\<in>as. en_set E t a = 0))"

lemma callableD: "callable E ps as \<Longrightarrow> \<forall>t. \<forall>(s, f)\<in>ps. en_parse E t s f = 0" "callable E ps as \<Longrightarrow> \<forall>t. \<forall>a\<in>as. en_set E t a = 0"
  by (simp_all add: callable_def)

definition session_ready :: "env \<Rightarrow> bool" where
  "session_ready E = (en_connection E \<and> (\<forall>t. en_session_start E t = 0))"

lemma session_readyD: "session_ready E \<Longrightarrow> en_connection E" "session_ready E \<Longrightarrow> \<forall>t. en_session_start E t = 0"
  by (simp_all add: session_ready_def)

text \<open>A result that the kernel gives for a request.\<close>

definition answered :: "env \<Rightarrow> request \<Rightarrow> int \<Rightarrow> bool" where
  "answered E r rc = (\<exists>t. en_request E t r = rc)"

lemma answeredI: "answered E r (en_request E t r)" "en_request E t r = rc \<Longrightarrow> answered E r rc"
  by (auto simp: answered_def)

text \<open>One request is made and its outcome is the result; only when the calls before it do not all succeed can
  there be none, and then the result is -1.\<close>

fun single_run :: "env \<Rightarrow> bool \<Rightarrow> request \<Rightarrow> int \<Rightarrow> (request \<times> int) list \<Rightarrow> bool" where
  "single_run E ready r e [] = (\<not> ready \<and> e = -1)"
| "single_run E ready r e [x] = (fst x = r \<and> answered E r (snd x) \<and> e = (if snd x = 0 then 0 else -1))"
| "single_run E ready r e _ = False"

text \<open>Deleting the old address and adding the new one: the deletion is sent, and after it was accepted the
  addition; only when the calls before do not all succeed can nothing be sent, and then the result is
  -1; success exactly when both were accepted.\<close>

fun replace_run :: "env \<Rightarrow> bool \<Rightarrow> request \<Rightarrow> request \<Rightarrow> int \<Rightarrow> (request \<times> int) list \<Rightarrow> bool" where
  "replace_run E ready del add e [] = (\<not> ready \<and> e = -1)"
| "replace_run E ready del add e [x] = (fst x = del \<and> answered E del (snd x) \<and> snd x \<noteq> 0 \<and> e = -1)"
| "replace_run E ready del add e [x, y] = (fst x = del \<and> answered E del (snd x) \<and> snd x = 0
     \<and> fst y = add \<and> answered E add (snd y) \<and> e = (if snd y = 0 then 0 else -1))"
| "replace_run E ready del add e _ = False"

lemma run_accepted:
  assumes "\<And>r rc. answered E r rc \<Longrightarrow> rc = 0" "ready"
  shows "single_run E ready r e rs \<Longrightarrow> e = 0 \<and> rs = [(r, 0)]"
    and "replace_run E ready del add e rs \<Longrightarrow> e = 0 \<and> rs = [(del, 0), (add, 0)]"
proof -
  show "single_run E ready r e rs \<Longrightarrow> e = 0 \<and> rs = [(r, 0)]"
    using assms by (cases rs rule: remdups_adj.cases) (auto simp: prod_eq_iff)
  show "replace_run E ready del add e rs \<Longrightarrow> e = 0 \<and> rs = [(del, 0), (add, 0)]"
    using assms by (induction E ready del add e rs rule: replace_run.induct) (auto simp: prod_eq_iff dest: assms(1))
qed

text \<open>The reference a handler takes on the link and never gives back.\<close>

definition keeps_link_ref :: "world \<Rightarrow> world \<Rightarrow> bool" where
  "keeps_link_ref w w' = (held w' = (R_link_ref, length (w_trace w)) # held w)"

lemma change_prefix_length_modified:
  assumes "resolves_ip E c ''address'' w name ip l" "ch_operation c = SR_OP_MODIFIED"
    "ready = callable E {(cbuf 100 (ip @ ''/'' @ ch_value c), fam), (cbuf 100 (ip @ ''/'' @ ch_previous_value c), fam)}
      {A_local (Parsed (cbuf 100 (ip @ ''/'' @ ch_value c)) fam), A_local (Parsed (cbuf 100 (ip @ ''/'' @ ch_previous_value c)) fam)}"
  shows "\<exists>e w' rs. address_change_prefix_length fam E c w = Ret (e, w') \<and> requests w' = requests w @ rs
    \<and> w_mod w' = w_mod w \<and> keeps_link_ref w w'
    \<and> replace_run E ready
        (Addr_delete [A_local (Parsed (cbuf 100 (ip @ ''/'' @ ch_previous_value c)) fam), A_ifindex (en_link_ifindex E l)] 0)
        (Addr_add [A_local (Parsed (cbuf 100 (ip @ ''/'' @ ch_value c)) fam), A_ifindex (en_link_ifindex E l)] 0) e rs"
proof (cases ready)
  case True
  then show ?thesis
    using assms callableD [OF iffD1 [OF assms(3) True]]
    by (auto simp: address_change_prefix_length_def resolves_ip_def run_simps trace_simps keeps_link_ref_def answeredI)
next
  case False
  then show ?thesis
    using assms(1,2) by (auto simp: address_change_prefix_length_def resolves_ip_def run_simps trace_simps keeps_link_ref_def answeredI)
qed

lemma change_prefix_length_other:
  assumes "resolves_ip E c ''address'' w name ip l" "ch_operation c \<noteq> SR_OP_MODIFIED"
  shows "\<exists>w'. address_change_prefix_length fam E c w = Ret (0, w') \<and> requests w' = requests w
    \<and> w_mod w' = w_mod w \<and> keeps_link_ref w w'"
  using assms
  by (cases "ch_operation c")
    (auto simp: address_change_prefix_length_def resolves_ip_def run_simps trace_simps keeps_link_ref_def)

lemma change_prefix_length_unresolved:
  assumes "\<nexists>name ip l. resolves_ip E c ''address'' w name ip l"
  shows "address_change_prefix_length fam E c w = Ret (-1, w)"
  using assms
  by (auto simp: address_change_prefix_length_def resolves_ip_def run_simps trace_simps prod_eq_iff split: option.splits)

lemma change_netmask_modified:
  assumes "resolves_ip E c ''address'' w name ip l" "ch_operation c = SR_OP_MODIFIED"
    "ipv4_address_netmask2prefix (en_pton E) (ch_value c) 0 = (0, p)"
    "ipv4_address_netmask2prefix (en_pton E) (ch_previous_value c) 0 = (0, p_old)"
    "ready = callable E {(cbuf 100 (ip @ ''/'' @ dec (unat p)), AF_INET), (cbuf 100 (ip @ ''/'' @ dec (unat p_old)), AF_INET)}
      {A_local (Parsed (cbuf 100 (ip @ ''/'' @ dec (unat p))) AF_INET), A_local (Parsed (cbuf 100 (ip @ ''/'' @ dec (unat p_old))) AF_INET)}"
  shows "\<exists>e w' rs. ipv4_address_change_netmask E c w = Ret (e, w') \<and> requests w' = requests w @ rs
    \<and> w_mod w' = w_mod w \<and> keeps_link_ref w w'
    \<and> replace_run E ready
        (Addr_delete [A_local (Parsed (cbuf 100 (ip @ ''/'' @ dec (unat p_old))) AF_INET), A_ifindex (en_link_ifindex E l)] 0)
        (Addr_add [A_local (Parsed (cbuf 100 (ip @ ''/'' @ dec (unat p))) AF_INET), A_ifindex (en_link_ifindex E l)] 0) e rs"
proof (cases ready)
  case True
  then show ?thesis
    using assms callableD [OF iffD1 [OF assms(5) True]]
    by (auto simp: ipv4_address_change_netmask_def resolves_ip_def run_simps trace_simps keeps_link_ref_def answeredI)
next
  case False
  then show ?thesis
    using assms(1-4) by (auto simp: ipv4_address_change_netmask_def resolves_ip_def run_simps trace_simps keeps_link_ref_def answeredI)
qed

lemma change_netmask_other:
  assumes "resolves_ip E c ''address'' w name ip l"
    "ch_operation c \<noteq> SR_OP_MODIFIED \<or> en_pton E (ch_value c) = None \<or> en_pton E (ch_previous_value c) = None"
  shows "\<exists>w'. ipv4_address_change_netmask E c w = Ret (if ch_operation c = SR_OP_MODIFIED then -1 else 0, w')
    \<and> requests w' = requests w \<and> w_mod w' = w_mod w \<and> keeps_link_ref w w'"
proof -
  have n: "fst (ipv4_address_netmask2prefix (en_pton E) v 0) \<noteq> 0" if "en_pton E v = None" for v
    using that by (simp add: ipv4_address_netmask2prefix_def)
  consider "ch_operation c \<noteq> SR_OP_MODIFIED" | "ch_operation c = SR_OP_MODIFIED" "en_pton E (ch_value c) = None"
    | "ch_operation c = SR_OP_MODIFIED" "en_pton E (ch_value c) \<noteq> None" "en_pton E (ch_previous_value c) = None"
    using assms(2) by metis
  then show ?thesis
  proof cases
    case 1
    then show ?thesis
      using assms(1) by (cases "ch_operation c") (auto simp: ipv4_address_change_netmask_def resolves_ip_def run_simps trace_simps keeps_link_ref_def)
  qed (use assms(1) n in \<open>auto simp: ipv4_address_change_netmask_def resolves_ip_def run_simps trace_simps keeps_link_ref_def\<close>)
qed

lemma v4_prefix_length_run:
  "post (\<lambda>e w'. \<exists>rs. requests w' = requests w @ rs \<and> run_ok e rs) (ipv4_address_change_prefix_length E c w)"
  unfolding ipv4_address_change_prefix_length_def address_change_prefix_length_def Let_def
  by (intro post_intros; ((drule call_dests)+)?; auto simp: trace_simps run_ok_def)

interpretation v4_prefix_length: change_handler ipv4_address_change_prefix_length
  by unfold_locales (use v4_prefix_length_run in \<open>auto simp: post_def\<close>)

lemma v6_prefix_length_run:
  "post (\<lambda>e w'. \<exists>rs. requests w' = requests w @ rs \<and> run_ok e rs) (ipv6_address_change_prefix_length E c w)"
  unfolding ipv6_address_change_prefix_length_def address_change_prefix_length_def Let_def
  by (intro post_intros; ((drule call_dests)+)?; auto simp: trace_simps run_ok_def)

interpretation v6_prefix_length: change_handler ipv6_address_change_prefix_length
  by unfold_locales (use v6_prefix_length_run in \<open>auto simp: post_def\<close>)

lemma v4_netmask_run:
  "post (\<lambda>e w'. \<exists>rs. requests w' = requests w @ rs \<and> run_ok e rs) (ipv4_address_change_netmask E c w)"
  unfolding ipv4_address_change_netmask_def Let_def
  by (intro post_intros; ((drule call_dests)+)?; auto simp: trace_simps run_ok_def)

interpretation v4_netmask: change_handler ipv4_address_change_netmask
  by unfold_locales (use v4_netmask_run in \<open>auto simp: post_def\<close>)

subsection \<open>The IP leaf\<close>

lemma callbacks_silent:
  "silent ipv4_address_get_prefix_length" "silent ipv6_address_get_prefix_length"
  "silent (ipv4_address_get_netmask E)"
  by (auto simp: silent_def ipv4_address_get_prefix_length_def ipv6_address_get_prefix_length_def
      trace_simps ipv4_address_get_netmask_def split: if_splits prod.splits)

lemma iterate_callbacks_trace:
  assumes "iterate_law E"
  shows "en_iterate E x ipv4_address_get_prefix_length None None w = Ret (e, w') \<Longrightarrow> w_trace w' = w_trace w"
    and "en_iterate E x ipv6_address_get_prefix_length None None w = Ret (e, w') \<Longrightarrow> w_trace w' = w_trace w"
    and "en_iterate E x (ipv4_address_get_netmask E) None None w = Ret (e, w') \<Longrightarrow> w_trace w' = w_trace w"
  using iterate_trace [OF assms] callbacks_silent by blast+

lemmas iterate_callbacks_requests = iterate_callbacks_trace [THEN requests_trace]

lemma v4_change_ip_run:
  assumes "iterate_law E"
  shows "post (\<lambda>e w'. \<exists>rs. requests w' = requests w @ rs \<and> run_ok e rs) (ipv4_address_change_ip E c w)"
  unfolding ipv4_address_change_ip_def Let_def
  by (intro post_intros; ((drule call_dests iterate_callbacks_requests [OF assms])+)?; auto simp: trace_simps run_ok_def)

lemma v6_change_ip_run:
  assumes "iterate_law E"
  shows "post (\<lambda>e w'. \<exists>rs. requests w' = requests w @ rs \<and> run_ok e rs) (ipv6_address_change_ip E c w)"
  unfolding ipv6_address_change_ip_def Let_def
  by (intro post_intros; ((drule call_dests iterate_callbacks_requests [OF assms])+)?; auto simp: trace_simps run_ok_def)

interpretation v4_change_ip: change_handler ipv4_address_change_ip
  by unfold_locales (use v4_change_ip_run in \<open>auto simp: post_def\<close>)

interpretation v6_change_ip: change_handler ipv6_address_change_ip
  by unfold_locales (use v6_change_ip_run in \<open>auto simp: post_def\<close>)

text \<open>What the change iterator collects from the sibling leaves.\<close>

lemma iterate_get_prefix_length:
  assumes "\<forall>c\<in>set cs. ch_operation c = SR_OP_CREATED"
  shows "iterate_list ipv4_address_get_prefix_length cs w =
    Ret (0, if cs = [] then w else upd_mod AF_INET
      (\<lambda>m. m\<lparr>mf_prefix_length := atoi8 (ch_value (last cs)), mf_prefix_set := True\<rparr>) w)"
  using assms
  by (induction cs arbitrary: w) (auto simp: ipv4_address_get_prefix_length_def trace_simps)

lemma iterate_get_prefix_length6:
  assumes "\<forall>c\<in>set cs. ch_operation c = SR_OP_CREATED"
  shows "iterate_list ipv6_address_get_prefix_length cs w =
    Ret (0, if cs = [] then w else upd_mod AF_INET6
      (\<lambda>m. m\<lparr>mf_prefix_length := atoi8 (ch_value (last cs)), mf_prefix_set := True\<rparr>) w)"
  using assms
  by (induction cs arbitrary: w) (auto simp: ipv6_address_get_prefix_length_def trace_simps)

lemma iterate_get_netmask:
  assumes "\<forall>c\<in>set cs. ch_operation c = SR_OP_CREATED" "\<forall>c\<in>set cs. en_pton E (ch_value c) \<noteq> None"
  shows "iterate_list (ipv4_address_get_netmask E) cs w =
    Ret (0, if cs = [] then w else upd_mod AF_INET
      (\<lambda>m. m\<lparr>mf_prefix_length := snd (ipv4_address_netmask2prefix (en_pton E) (ch_value (last cs)) 0),
             mf_prefix_set := True\<rparr>) w)"
  using assms
  by (induction cs arbitrary: w)
    (auto simp: ipv4_address_get_netmask_def ipv4_address_netmask2prefix_def trace_simps)

lemma iterate_get_netmask_bad:
  assumes "\<forall>c\<in>set cs. ch_operation c = SR_OP_CREATED" "\<exists>c\<in>set cs. en_pton E (ch_value c) = None"
  shows "\<exists>w'. iterate_list (ipv4_address_get_netmask E) cs w = Ret (-1, w') \<and> w_trace w' = w_trace w"
proof -
  have "\<exists>w'. iterate_list (ipv4_address_get_netmask E) cs w = Ret (-1, w')"
    using assms
    by (induction cs arbitrary: w)
      (auto simp: ipv4_address_get_netmask_def ipv4_address_netmask2prefix_def split: option.splits)
  then show ?thesis using iterate_list_trace [OF callbacks_silent(3)] by blast
qed

text \<open>The prefix length a created address gets: that of the last \<^verbatim>\<open>prefix-length\<close> change, else
  that of the last \<^verbatim>\<open>netmask\<close> change provided all of them parse.\<close>

definition created_prefix :: "env \<Rightarrow> change list \<Rightarrow> change list \<Rightarrow> 8 word option" where
  "created_prefix E cs1 cs2 =
    (if cs1 \<noteq> [] then Some (atoi8 (ch_value (last cs1)))
     else if cs2 = [] \<or> (\<exists>c\<in>set cs2. en_pton E (ch_value c) = None) then None
     else Some (snd (ipv4_address_netmask2prefix (en_pton E) (ch_value (last cs2)) 0)))"

lemma v4_change_ip_created:
  assumes "resolves E c w name l" "ch_operation c = SR_OP_CREATED"
    and "iterates E (ip_node_path ''ipv4'' name ''address'' (ch_value c) ''prefix-length'') cs1"
    and "iterates E (ip_node_path ''ipv4'' name ''address'' (ch_value c) ''netmask'') cs2"
    and "\<forall>c\<in>set cs1. ch_operation c = SR_OP_CREATED" "\<forall>c\<in>set cs2. ch_operation c = SR_OP_CREATED"
    and "\<not> mf_prefix_set (mod_of AF_INET w)"
    and "\<And>p. created_prefix E cs1 cs2 = Some p \<Longrightarrow> ready p = (session_ready E \<and> callable E {(ch_value c, AF_INET)} {A_local (With_prefixlen (Parsed (ch_value c) AF_INET) p)})"
  shows "\<exists>e w' rs. ipv4_address_change_ip E c w = Ret (e, w') \<and> requests w' = requests w @ rs
    \<and> (case created_prefix E cs1 cs2 of
         None \<Rightarrow> rs = [] \<and> e = -1
       | Some p \<Rightarrow> single_run E (ready p)
           (Addr_add [A_local (With_prefixlen (Parsed (ch_value c) AF_INET) p),
                                         A_ifindex (en_link_ifindex E l)] 0) e rs)"
proof (cases "cs1 = [] \<and> (\<exists>c\<in>set cs2. en_pton E (ch_value c) = None)")
  case True
  have "\<forall>v. \<exists>v'. iterate_list (ipv4_address_get_netmask E) cs2 v = Ret (-1, v') \<and> requests v' = requests v"
    using iterate_get_netmask_bad [OF assms(6), of E] True by (blast intro: requests_trace)
  then obtain f where "\<And>v. iterate_list (ipv4_address_get_netmask E) cs2 v = Ret (-1, f v)"
    "\<And>v. requests (f v) = requests v"
    by metis
  then show ?thesis
    using assms True
    by (auto simp: ipv4_address_change_ip_def resolves_def iterates_def created_prefix_def
        run_simps trace_simps)
next
  case False
  show ?thesis
  proof (cases "created_prefix E cs1 cs2")
    case None
    then have "cs1 = []" "cs2 = []" using False by (auto simp: created_prefix_def split: if_splits)
    then show ?thesis
      using assms(1-7) by (auto simp: ipv4_address_change_ip_def resolves_def iterates_def created_prefix_def run_simps trace_simps)
  next
    case (Some p)
    have c: "cs1 \<noteq> [] \<and> p = atoi8 (ch_value (last cs1)) \<or> cs1 = [] \<and> cs2 \<noteq> [] \<and> (\<forall>c\<in>set cs2. en_pton E (ch_value c) \<noteq> None)
        \<and> p = snd (ipv4_address_netmask2prefix (en_pton E) (ch_value (last cs2)) 0)"
      using Some False by (auto simp: created_prefix_def split: if_splits)
    show ?thesis
    proof (cases "ready p")
      case True
      note r = iffD1 [OF assms(8) [OF Some] True]
      show ?thesis
        using assms(1-7) c True session_readyD [OF conjunct1 [OF r]] callableD [OF conjunct2 [OF r]] unfolding Some option.case
        by (auto simp: ipv4_address_change_ip_def resolves_def iterates_def
            iterate_get_prefix_length iterate_get_netmask run_simps trace_simps answeredI)
    next
      case False
      then show ?thesis
        using assms(1-7) c unfolding Some option.case
        by (auto simp: ipv4_address_change_ip_def resolves_def iterates_def
            iterate_get_prefix_length iterate_get_netmask run_simps trace_simps answeredI)
    qed
  qed
qed

lemma v6_change_ip_created:
  assumes "resolves E c w name l" "ch_operation c = SR_OP_CREATED"
    and "iterates E (ip_node_path ''ipv6'' name ''address'' (ch_value c) ''prefix-length'') cs"
    and "\<forall>c\<in>set cs. ch_operation c = SR_OP_CREATED"
    and "p = (if cs = [] then mf_prefix_length (mod_of AF_INET6 w) else atoi8 (ch_value (last cs)))"
    and "ready = (session_ready E \<and> callable E {(ch_value c, AF_INET6)} {A_local (With_prefixlen (Parsed (ch_value c) AF_INET6) p)})"
  shows "\<exists>e w' rs. ipv6_address_change_ip E c w = Ret (e, w') \<and> requests w' = requests w @ rs
    \<and> single_run E ready
        (Addr_add [A_local (With_prefixlen (Parsed (ch_value c) AF_INET6) p),
                             A_ifindex (en_link_ifindex E l)] 0) e rs"
proof (cases ready)
  case True
  then show ?thesis
    using assms session_readyD [OF conjunct1 [OF iffD1 [OF assms(6) True]]] callableD [OF conjunct2 [OF iffD1 [OF assms(6) True]]]
    by (auto simp: ipv6_address_change_ip_def resolves_def iterates_def
        iterate_get_prefix_length6 run_simps trace_simps answeredI)
next
  case False
  then show ?thesis
    using assms(1-5) by (auto simp: ipv6_address_change_ip_def resolves_def iterates_def
        iterate_get_prefix_length6 run_simps trace_simps answeredI)
qed

text \<open>The prefix length of a stored address, from the running datastore: its
  \<^verbatim>\<open>prefix-length\<close> leaf, or its \<^verbatim>\<open>netmask\<close> leaf when the first is not there.\<close>

definition stored_prefix :: "env \<Rightarrow> int \<Rightarrow> 8 word \<Rightarrow> int \<Rightarrow> cstr \<Rightarrow> 8 word option" where
  "stored_prefix E e1 q e2 m =
    (if e1 = 0 then Some q
     else if e1 = SR_ERR_NOT_FOUND \<and> e2 = 0 \<and> en_pton E m \<noteq> None
     then Some (snd (ipv4_address_netmask2prefix (en_pton E) m 0)) else None)"

lemma v4_change_ip_deleted:
  assumes "resolves E c w name l" "ch_operation c = SR_OP_DELETED"
    and "\<forall>t. en_get_item E t (ip_node_path ''ipv4'' name ''address'' (ch_value c) ''prefix-length'') = (e1, V_uint8 q)"
    and "\<forall>t. en_get_item E t (ip_node_path ''ipv4'' name ''address'' (ch_value c) ''netmask'') = (e2, V_string m)"
    and "\<And>p. stored_prefix E e1 q e2 m = Some p \<Longrightarrow> ready p = (session_ready E \<and> callable E {(cbuf 100 (ch_value c @ ''/'' @ dec (unat p)), AF_INET)}
        {A_local (Parsed (cbuf 100 (ch_value c @ ''/'' @ dec (unat p))) AF_INET)})"
  shows "\<exists>e w' rs. ipv4_address_change_ip E c w = Ret (e, w') \<and> requests w' = requests w @ rs
    \<and> (case stored_prefix E e1 q e2 m of
         None \<Rightarrow> rs = [] \<and> e = -1
       | Some p \<Rightarrow> single_run E (ready p)
           (Addr_delete [A_local (Parsed (cbuf 100 (ch_value c @ ''/'' @ dec (unat p))) AF_INET),
                                         A_ifindex (en_link_ifindex E l)] 0) e rs)"
proof (cases "stored_prefix E e1 q e2 m")
  case None
  then show ?thesis
    using assms(1-4)
    by (auto simp: ipv4_address_change_ip_def resolves_def stored_prefix_def SR_ERR_NOT_FOUND_def
        ipv4_address_netmask2prefix_def run_simps trace_simps split: option.splits if_splits)
next
  case (Some p)
  have c: "e1 = 0 \<and> p = q \<or> e1 = SR_ERR_NOT_FOUND \<and> e2 = 0 \<and> en_pton E m \<noteq> None \<and> p = snd (ipv4_address_netmask2prefix (en_pton E) m 0)"
    using Some by (auto simp: stored_prefix_def split: if_splits)
  show ?thesis
  proof (cases "ready p")
    case True
    note r = iffD1 [OF assms(5) [OF Some] True]
    show ?thesis
      using assms(1-4) c True session_readyD [OF conjunct1 [OF r]] callableD [OF conjunct2 [OF r]] unfolding Some option.case
      by (auto simp: ipv4_address_change_ip_def resolves_def SR_ERR_NOT_FOUND_def
          ipv4_address_netmask2prefix_def run_simps trace_simps answeredI)
  next
    case False
    then show ?thesis
      using assms(1-4) c unfolding Some option.case
      by (auto simp: ipv4_address_change_ip_def resolves_def SR_ERR_NOT_FOUND_def
          ipv4_address_netmask2prefix_def run_simps trace_simps answeredI)
  qed
qed

lemma v6_change_ip_deleted:
  assumes "resolves E c w name l" "ch_operation c = SR_OP_DELETED"
    and "\<forall>t. en_get_item E t (ip_node_path ''ipv6'' name ''address'' (ch_value c) ''prefix-length'') = (e1, V_uint8 q)"
    and "ready = (session_ready E \<and> callable E {(cbuf 100 (ch_value c @ ''/'' @ dec (unat q)), AF_INET6)}
        {A_local (Parsed (cbuf 100 (ch_value c @ ''/'' @ dec (unat q))) AF_INET6)})"
  shows "\<exists>e w' rs. ipv6_address_change_ip E c w = Ret (e, w') \<and> requests w' = requests w @ rs
    \<and> (if e1 \<noteq> 0 then rs = [] \<and> e = -1
       else single_run E ready
           (Addr_delete [A_local (Parsed (cbuf 100 (ch_value c @ ''/'' @ dec (unat q))) AF_INET6),
                                         A_ifindex (en_link_ifindex E l)] 0) e rs)"
proof (cases ready)
  case True
  then show ?thesis
    using assms session_readyD [OF conjunct1 [OF iffD1 [OF assms(4) True]]] callableD [OF conjunct2 [OF iffD1 [OF assms(4) True]]]
    by (cases "e1 = 0") (auto simp: ipv6_address_change_ip_def resolves_def run_simps trace_simps answeredI)
next
  case False
  then show ?thesis
    using assms(1-3) by (cases "e1 = 0") (auto simp: ipv6_address_change_ip_def resolves_def run_simps trace_simps answeredI)
qed

subsection \<open>What is kept\<close>

lemmas iterate_callbacks_held = iterate_callbacks_trace [THEN held_kinds_trace]

lemma v4_change_ip_cleanup:
  assumes "iterate_law E"
  shows "post (\<lambda>e w'. held_kinds {R_session, R_rtnl_addr} w' = held_kinds {R_session, R_rtnl_addr} w
      \<and> mf_prefix_length (mod_of AF_INET w') = 0 \<and> \<not> mf_prefix_set (mod_of AF_INET w'))
    (ipv4_address_change_ip E c w)"
  unfolding ipv4_address_change_ip_def Let_def
  by (intro post_intros; ((drule call_dests iterate_callbacks_held [OF assms, where K = "{R_session, R_rtnl_addr}"])+)?; auto simp: trace_simps)

lemma v6_change_ip_cleanup:
  assumes "iterate_law E"
  shows "post (\<lambda>e w'. held_kinds {R_session, R_rtnl_addr} w' = held_kinds {R_session, R_rtnl_addr} w
      \<and> mf_prefix_length (mod_of AF_INET6 w') = 0 \<and> \<not> mf_prefix_set (mod_of AF_INET6 w'))
    (ipv6_address_change_ip E c w)"
  unfolding ipv6_address_change_ip_def Let_def
  by (intro post_intros; ((drule call_dests iterate_callbacks_held [OF assms, where K = "{R_session, R_rtnl_addr}"])+)?; auto simp: trace_simps)

text \<open>A successful creation keeps the link reference and the parsed address.\<close>

lemma v4_change_ip_leak:
  assumes "iterate_law E"
  shows "post (\<lambda>e w'. e = 0 \<and> ch_operation c = SR_OP_CREATED \<longrightarrow>
        length (held_kinds {R_link_ref, R_nl_addr} w') = length (held_kinds {R_link_ref, R_nl_addr} w) + 2)
    (ipv4_address_change_ip E c w)"
  unfolding ipv4_address_change_ip_def Let_def
  by (intro post_intros; ((drule call_dests iterate_callbacks_held [OF assms, where K = "{R_link_ref, R_nl_addr}"])+)?; auto simp: trace_simps)

section \<open>Properties\<close>

lemma demo_ready: "session_ready (demo_env ch)" "callable (demo_env ch) ps as"
  by (simp_all add: session_ready_def callable_def demo_env_def)

lemma demo_answered: "answered (demo_env ch) r rc = (rc = 0)"
  by (auto simp: answered_def demo_env_def)

lemma demo_runs:
  "single_run (demo_env ch) True r e rs = (e = 0 \<and> rs = [(r, 0)])"
  "replace_run (demo_env ch) True del add e rs = (e = 0 \<and> rs = [(del, 0), (add, 0)])"
  using run_accepted [of "demo_env ch" True] by (auto simp: demo_answered)

lemma demo_ifindex: "en_link_ifindex (demo_env ch) l = int l"
  by (simp add: demo_env_def)

text \<open>C22. A change of the prefix length of an address on a known interface acts only when the leaf was
  modified, and then the address with the old prefix length is deleted before the one with the
  new prefix length is added.  When both addresses can be parsed and set, the deletion is sent, and
  the addition after the kernel accepted it; nothing is sent only when one of these calls fails.
  The handler returns 0 exactly when both requests were accepted, else -1.  The same for IPv4 and IPv6.
  The only resource kept is a reference on the link.\<close>

theorem prefix_length_change:
  assumes "resolves_ip E c ''address'' w name ip l"
    and "(h, fam) \<in> {(ipv4_address_change_prefix_length, AF_INET), (ipv6_address_change_prefix_length, AF_INET6)}"
  shows "\<exists>e w' rs. h E c w = Ret (e, w') \<and> requests w' = requests w @ rs
    \<and> w_mod w' = w_mod w \<and> keeps_link_ref w w'
    \<and> (if ch_operation c = SR_OP_MODIFIED then
         replace_run E (callable E {(cbuf 100 (ip @ ''/'' @ ch_value c), fam), (cbuf 100 (ip @ ''/'' @ ch_previous_value c), fam)}
          {A_local (Parsed (cbuf 100 (ip @ ''/'' @ ch_value c)) fam), A_local (Parsed (cbuf 100 (ip @ ''/'' @ ch_previous_value c)) fam)})
           (Addr_delete [A_local (Parsed (cbuf 100 (ip @ ''/'' @ ch_previous_value c)) fam), A_ifindex (en_link_ifindex E l)] 0)
           (Addr_add [A_local (Parsed (cbuf 100 (ip @ ''/'' @ ch_value c)) fam), A_ifindex (en_link_ifindex E l)] 0) e rs
       else rs = [] \<and> e = 0)"
proof (cases "ch_operation c = SR_OP_MODIFIED")
  case True
  then show ?thesis
    using change_prefix_length_modified [OF assms(1) _ refl, of fam] assms(2)
    by (auto simp: ipv4_address_change_prefix_length_def ipv6_address_change_prefix_length_def)
next
  case False
  then show ?thesis
    using change_prefix_length_other [OF assms(1), of fam] assms(2)
    by (auto simp: ipv4_address_change_prefix_length_def ipv6_address_change_prefix_length_def)
qed

theorem prefix_length_change_witness:
  "\<exists>w'. ipv4_address_change_prefix_length (demo_env (\<lambda>x. [])) (demo_change SR_OP_MODIFIED ''16'' ''24'') demo_world = Ret (0, w')
    \<and> requests w' = [(Addr_delete [A_local (Parsed ''10.0.0.1/24'' AF_INET), A_ifindex 2] 0, 0),
        (Addr_add [A_local (Parsed ''10.0.0.1/16'' AF_INET), A_ifindex 2] 0, 0)]"
  using prefix_length_change [OF demo_resolves(2) [of "''address''" "\<lambda>x. []" "demo_change SR_OP_MODIFIED ''16'' ''24''" demo_world],
      of ipv4_address_change_prefix_length AF_INET]
  by (auto simp: cbuf_def demo_ready demo_runs demo_ifindex)

text \<open>A change of the netmask of an IPv4 address on a known interface acts only when the leaf was
  modified: when both netmasks parse, the address with the prefix length of the old netmask is
  deleted and then the one with the prefix length of the new netmask added, as for a prefix
  length; when one does not parse, nothing is sent and the handler fails.\<close>

theorem netmask_change:
  assumes "resolves_ip E c ''address'' w name ip l"
  shows "\<exists>e w' rs. ipv4_address_change_netmask E c w = Ret (e, w') \<and> requests w' = requests w @ rs
    \<and> w_mod w' = w_mod w \<and> keeps_link_ref w w'
    \<and> (if ch_operation c \<noteq> SR_OP_MODIFIED then rs = [] \<and> e = 0
       else let (e_old, p_old) = ipv4_address_netmask2prefix (en_pton E) (ch_previous_value c) 0;
                (e_new, p) = ipv4_address_netmask2prefix (en_pton E) (ch_value c) 0
            in if e_old = 0 \<and> e_new = 0 then
                 replace_run E (callable E {(cbuf 100 (ip @ ''/'' @ dec (unat p)), AF_INET), (cbuf 100 (ip @ ''/'' @ dec (unat p_old)), AF_INET)}
          {A_local (Parsed (cbuf 100 (ip @ ''/'' @ dec (unat p))) AF_INET), A_local (Parsed (cbuf 100 (ip @ ''/'' @ dec (unat p_old))) AF_INET)})
                   (Addr_delete [A_local (Parsed (cbuf 100 (ip @ ''/'' @ dec (unat p_old))) AF_INET), A_ifindex (en_link_ifindex E l)] 0)
                   (Addr_add [A_local (Parsed (cbuf 100 (ip @ ''/'' @ dec (unat p))) AF_INET), A_ifindex (en_link_ifindex E l)] 0) e rs
               else rs = [] \<and> e = -1)"
proof (cases "en_pton E (ch_previous_value c) \<noteq> None \<and> en_pton E (ch_value c) \<noteq> None \<and> ch_operation c = SR_OP_MODIFIED")
  case True
  then show ?thesis
    using change_netmask_modified [OF assms _ _ _ refl] by (auto simp: ipv4_address_netmask2prefix_def)
next
  case False
  then have "ch_operation c \<noteq> SR_OP_MODIFIED \<or> en_pton E (ch_value c) = None \<or> en_pton E (ch_previous_value c) = None" by blast
  then obtain w' where w': "ipv4_address_change_netmask E c w = Ret (if ch_operation c = SR_OP_MODIFIED then -1 else 0, w')"
    "requests w' = requests w" "w_mod w' = w_mod w" "keeps_link_ref w w'"
    using change_netmask_other [OF assms] by metis
  moreover have "\<not> (fst (ipv4_address_netmask2prefix (en_pton E) (ch_previous_value c) 0) = 0
      \<and> fst (ipv4_address_netmask2prefix (en_pton E) (ch_value c) 0) = 0)" if "ch_operation c = SR_OP_MODIFIED"
    using False that by (auto simp: ipv4_address_netmask2prefix_def split: option.split)
  ultimately show ?thesis
    by (intro exI [of _ "if ch_operation c = SR_OP_MODIFIED then -1 else 0"] exI [of _ w'] exI [of _ "[]"])
      (auto simp: case_prod_beta Let_def simp del: replace_run.simps)
qed

theorem netmask_change_witness:
  "\<exists>e w'. ipv4_address_change_netmask (demo_env (\<lambda>x. [])) (demo_change SR_OP_MODIFIED ''bad'' ''255.255.255.0'') demo_world = Ret (e, w')
    \<and> requests w' = [] \<and> e = -1"
  using netmask_change [OF demo_resolves(2) [of "''address''" "\<lambda>x. []" "demo_change SR_OP_MODIFIED ''bad'' ''255.255.255.0''" demo_world]]
  by (auto simp: ipv4_address_netmask2prefix_def demo_env_def)

text \<open>C23. Creating an IPv4 address on a known interface: the prefix length comes from the created
  prefix-length leaf, and only without one from the netmask leaf; with neither, or with a
  netmask that does not parse, nothing is sent and the change fails; otherwise one request to add
  exactly that address with that prefix length is made and its outcome is the result.  Only when
  the session of the datastore cannot be started, or the address not be parsed or set, can there be no
  request, and then the change fails.\<close>

theorem ipv4_address_create:
  assumes "resolves E c w name l" "ch_operation c = SR_OP_CREATED"
    and "iterates E (ip_node_path ''ipv4'' name ''address'' (ch_value c) ''prefix-length'') cs1"
    and "iterates E (ip_node_path ''ipv4'' name ''address'' (ch_value c) ''netmask'') cs2"
    and "\<forall>c\<in>set cs1 \<union> set cs2. ch_operation c = SR_OP_CREATED"
    and "\<not> mf_prefix_set (mod_of AF_INET w)"
  shows "\<exists>e w' rs. ipv4_address_change_ip E c w = Ret (e, w') \<and> requests w' = requests w @ rs
    \<and> (case created_prefix E cs1 cs2 of
         None \<Rightarrow> rs = [] \<and> e = -1
       | Some p \<Rightarrow> single_run E (session_ready E \<and> callable E {(ch_value c, AF_INET)} {A_local (With_prefixlen (Parsed (ch_value c) AF_INET) p)})
           (Addr_add [A_local (With_prefixlen (Parsed (ch_value c) AF_INET) p),
                                         A_ifindex (en_link_ifindex E l)] 0) e rs)"
  using assms by (intro v4_change_ip_created) auto

definition demo_netmask_changes :: "cstr \<Rightarrow> change list" where
  "demo_netmask_changes path =
    (if path = ip_node_path ''ipv4'' ''eth0'' ''address'' ''10.0.0.1'' ''netmask''
     then [demo_change SR_OP_CREATED ''255.255.255.0'' ''''] else [])"

lemma demo_paths:
  "ip_node_path ''ipv4'' ''eth0'' ''address'' ''10.0.0.1'' ''prefix-length''
     \<noteq> ip_node_path ''ipv4'' ''eth0'' ''address'' ''10.0.0.1'' ''netmask''"
  by (simp add: ip_node_path_def cbuf_def interface_list_path_def)

theorem ipv4_address_create_witness:
  "\<exists>w'. ipv4_address_change_ip (demo_env demo_netmask_changes) (demo_change SR_OP_CREATED ''10.0.0.1'' '''') demo_world = Ret (0, w')
    \<and> requests w' = [(Addr_add [A_local (With_prefixlen (Parsed ''10.0.0.1'' AF_INET) 24), A_ifindex 2] 0, 0)]"
proof -
  let ?E = "demo_env demo_netmask_changes" and ?c = "demo_change SR_OP_CREATED ''10.0.0.1'' ''''"
  have 1: "iterates ?E (ip_node_path ''ipv4'' ''eth0'' ''address'' (ch_value ?c) ''prefix-length'') []"
    by (rule demo_iterates) (simp add: demo_netmask_changes_def demo_paths)
  have 2: "iterates ?E (ip_node_path ''ipv4'' ''eth0'' ''address'' (ch_value ?c) ''netmask'')
      [demo_change SR_OP_CREATED ''255.255.255.0'' '''']"
    by (rule demo_iterates) (simp add: demo_netmask_changes_def)
  have p: "created_prefix ?E [] [demo_change SR_OP_CREATED ''255.255.255.0'' ''''] = Some 24"
    using count_24 by (simp add: created_prefix_def demo_env_def)
  show ?thesis
    using ipv4_address_create [OF demo_resolves(1) [of demo_netmask_changes ?c demo_world] _ 1 2]
    by (auto simp: p demo_ready demo_runs demo_ifindex)
qed

text \<open>C26. Creating an IPv6 address on a known interface makes one request, to add the address with the
  prefix length of the created prefix-length leaf; only when the session of the datastore cannot be
  started, or the address not be parsed or set, can there be none.  There is no check that such a leaf was
  seen: without one the request is made all the same, with the prefix length that the context
  holds, and that is 0 after every IPv6 address change that returns.\<close>

theorem ipv6_address_create:
  assumes "resolves E c w name l" "ch_operation c = SR_OP_CREATED"
    and "iterates E (ip_node_path ''ipv6'' name ''address'' (ch_value c) ''prefix-length'') cs"
    and "\<forall>c\<in>set cs. ch_operation c = SR_OP_CREATED"
    and "p = (if cs = [] then mf_prefix_length (mod_of AF_INET6 w) else atoi8 (ch_value (last cs)))"
  shows "(\<exists>e w' rs. ipv6_address_change_ip E c w = Ret (e, w') \<and> requests w' = requests w @ rs
      \<and> single_run E (session_ready E \<and> callable E {(ch_value c, AF_INET6)} {A_local (With_prefixlen (Parsed (ch_value c) AF_INET6) p)})
          (Addr_add [A_local (With_prefixlen (Parsed (ch_value c) AF_INET6) p), A_ifindex (en_link_ifindex E l)] 0) e rs)
    \<and> (\<forall>c0 w0 e0. iterate_law E \<and> ipv6_address_change_ip E c0 w0 = Ret (e0, w) \<longrightarrow> mf_prefix_length (mod_of AF_INET6 w) = 0)"
  using v6_change_ip_created [OF assms refl] v6_change_ip_cleanup [of E] by (auto simp: post_def)

theorem ipv6_address_create_witness:
  "\<exists>w'. ipv6_address_change_ip (demo_env (\<lambda>x. [])) (demo_change SR_OP_CREATED ''fe80::1'' '''') demo_world = Ret (0, w')
    \<and> requests w' = [(Addr_add [A_local (With_prefixlen (Parsed ''fe80::1'' AF_INET6) 0), A_ifindex 2] 0, 0)]"
  using ipv6_address_create [OF demo_resolves(1) [of "\<lambda>x. []" "demo_change SR_OP_CREATED ''fe80::1'' ''''" demo_world]
      _ demo_iterates _ refl]
  by (auto simp: demo_ready demo_runs demo_ifindex)

text \<open>Deleting an IPv4 address on a known interface reads the prefix length of the stored address
  from the running datastore, from its netmask when it has no prefix length; then
  one request is made, to delete the address with that prefix length, unless the session cannot be
  started or the address not be parsed or set.  When the datastore gives
  neither, or fails otherwise, nothing is sent and the change fails.\<close>

theorem ipv4_address_remove:
  assumes "resolves E c w name l" "ch_operation c = SR_OP_DELETED"
    and "\<forall>t. en_get_item E t (ip_node_path ''ipv4'' name ''address'' (ch_value c) ''prefix-length'') = (e1, V_uint8 q)"
    and "\<forall>t. en_get_item E t (ip_node_path ''ipv4'' name ''address'' (ch_value c) ''netmask'') = (e2, V_string m)"
  shows "\<exists>e w' rs. ipv4_address_change_ip E c w = Ret (e, w') \<and> requests w' = requests w @ rs
    \<and> (case stored_prefix E e1 q e2 m of
         None \<Rightarrow> rs = [] \<and> e = -1
       | Some p \<Rightarrow> single_run E (session_ready E \<and> callable E {(cbuf 100 (ch_value c @ ''/'' @ dec (unat p)), AF_INET)}
             {A_local (Parsed (cbuf 100 (ch_value c @ ''/'' @ dec (unat p))) AF_INET)})
           (Addr_delete [A_local (Parsed (cbuf 100 (ch_value c @ ''/'' @ dec (unat p))) AF_INET),
                                         A_ifindex (en_link_ifindex E l)] 0) e rs)"
  using assms by (intro v4_change_ip_deleted) auto

definition demo_stored_env :: env where
  "demo_stored_env = (demo_env (\<lambda>x. []))\<lparr>en_get_item := (\<lambda>t p.
     if p = ip_node_path ''ipv4'' ''eth0'' ''address'' ''10.0.0.1'' ''netmask'' then (0, V_string ''255.255.255.0'')
     else (SR_ERR_NOT_FOUND, V_uint8 0))\<rparr>"

lemma dec_24: "dec 24 = ''24''"
  by code_simp

theorem ipv4_address_remove_witness:
  "\<exists>w'. ipv4_address_change_ip demo_stored_env (demo_change SR_OP_DELETED ''10.0.0.1'' '''') demo_world = Ret (0, w')
    \<and> requests w' = [(Addr_delete [A_local (Parsed ''10.0.0.1/24'' AF_INET), A_ifindex 2] 0, 0)]"
proof -
  have r: "resolves demo_stored_env c w ''eth0'' 2" for c w
    by (simp add: demo_stored_env_def resolves_def demo_env_def)
  have p: "stored_prefix demo_stored_env SR_ERR_NOT_FOUND 0 0 ''255.255.255.0'' = Some 24"
    using count_24 by (simp add: stored_prefix_def demo_stored_env_def demo_env_def SR_ERR_NOT_FOUND_def)
  have d: "session_ready demo_stored_env" "callable demo_stored_env ps as" "en_link_ifindex demo_stored_env l = int l" for ps as l
    by (simp_all add: session_ready_def callable_def demo_stored_env_def demo_env_def)
  have "answered demo_stored_env q rc = (rc = 0)" for q rc
    by (auto simp: answered_def demo_stored_env_def demo_env_def)
  then have a: "single_run demo_stored_env True q e rs = (e = 0 \<and> rs = [(q, 0)])" for q e rs
    using run_accepted(1) [of demo_stored_env True] by auto
  have g: "\<forall>t. en_get_item demo_stored_env t (ip_node_path ''ipv4'' ''eth0'' ''address'' ''10.0.0.1'' ''prefix-length'') = (SR_ERR_NOT_FOUND, V_uint8 0)"
    "\<forall>t. en_get_item demo_stored_env t (ip_node_path ''ipv4'' ''eth0'' ''address'' ''10.0.0.1'' ''netmask'') = (0, V_string ''255.255.255.0'')"
    by (simp_all add: demo_stored_env_def demo_paths)
  show ?thesis
    using ipv4_address_remove [OF r, of "demo_change SR_OP_DELETED ''10.0.0.1'' ''''" SR_ERR_NOT_FOUND 0 0 "''255.255.255.0''" demo_world] g
    by (auto simp: p cbuf_def dec_24 d a)
qed

text \<open>C25. Whatever happens in an IPv4 address change, error paths included, the datastore session and
  the request object are given back and the prefix length collected in the context is
  cleared, so that the next change starts clean; but every successful creation keeps a link
  reference and a parsed address that nothing releases.\<close>

theorem ipv4_address_cleanup:
  assumes "iterate_law E" "ipv4_address_change_ip E c w = Ret (e, w')"
  shows "held_kinds {R_session, R_rtnl_addr} w' = held_kinds {R_session, R_rtnl_addr} w
    \<and> mf_prefix_length (mod_of AF_INET w') = 0 \<and> \<not> mf_prefix_set (mod_of AF_INET w')
    \<and> (e = 0 \<and> ch_operation c = SR_OP_CREATED \<longrightarrow>
        length (held_kinds {R_link_ref, R_nl_addr} w') = length (held_kinds {R_link_ref, R_nl_addr} w) + 2)"
  using v4_change_ip_cleanup [OF assms(1), of w c] v4_change_ip_leak [OF assms(1), of c w] assms(2)
  by (simp add: post_def)

theorem ipv4_address_cleanup_witness:
  "\<exists>e w'. ipv4_address_change_ip (demo_env (\<lambda>x. [])) (demo_change SR_OP_MODIFIED ''10.0.0.1'' '''') demo_world = Ret (e, w')
    \<and> e = -1 \<and> held_kinds {R_session, R_rtnl_addr} w' = []"
proof -
  have "\<exists>w'. ipv4_address_change_ip (demo_env (\<lambda>x. [])) (demo_change SR_OP_MODIFIED ''10.0.0.1'' '''') demo_world = Ret (-1, w')"
    by (simp add: ipv4_address_change_ip_def run_simps demo_env_def)
  then obtain w' where w': "ipv4_address_change_ip (demo_env (\<lambda>x. [])) (demo_change SR_OP_MODIFIED ''10.0.0.1'' '''') demo_world = Ret (-1, w')" ..
  from ipv4_address_cleanup [OF demo_law w'] have "held_kinds {R_session, R_rtnl_addr} w' = held_kinds {R_session, R_rtnl_addr} demo_world"
    by blast
  then show ?thesis using w' by (simp add: held_kinds_def held_def demo_world_def)
qed

end
