(* ===== verification/IfNeighChange.thy ===== *)
theory IfNeighChange
  imports IfAddrChange
begin

text \<open>
  The change handlers of the IPv4 and IPv6 neighbor lists,
  \<^verbatim>\<open>plugin/api/interfaces/interface/ipv4/neighbor/change.c\<close> and
  \<^verbatim>\<open>ipv6/neighbor/change.c\<close>, which differ in the address family and in the part of the context
  they use: one definition with the family and its path name as arguments.
\<close>

section \<open>Handlers\<close>

definition neighbor_change_link_layer_address :: "family \<Rightarrow> env \<Rightarrow> handler" where
  "neighbor_change_link_layer_address fam E c w0 =
    (let out = (\<lambda>req error w. Ret (error, release_opt req w));
         error_out = (\<lambda>req. out req (-1))
     in safe_ptr (\<lambda>w. (en_lyd_path E (ch_node c), w)) (error_out None) (\<lambda>path.
        safe_out (pure_call (en_key_value E path ''interface'' ''name'')) (error_out None) (\<lambda>name.
        safe_out (pure_call (en_key_value E path ''neighbor'' ''ip'')) (error_out None) (\<lambda>ip.
        safe_ptr (link_get_by_name E name) (error_out None) (\<lambda>link w.
          case ch_operation c of
            SR_OP_CREATED \<Rightarrow> out None 0 w
          | SR_OP_MODIFIED \<Rightarrow>
              let (req, w1) = acquire R_rtnl_neigh w;
                  dst = Parsed ip fam;
                  lladdr = Parsed (ch_value c) AF_LLC
              in safe_out (nl_addr_parse E ip fam) (error_out (Some req)) (\<lambda>dst_addr.
                 safe_out (nl_addr_parse E (ch_value c) AF_LLC) (error_out (Some req)) (\<lambda>ll_addr.
                 safe_call (set_attr E (N_dst dst)) (error_out (Some req)) (
                 safe_call (do_request E (Neigh_add [N_ifindex (en_link_ifindex E link), N_dst dst, N_lladdr lladdr] NLM_F_REPLACE))
                   (error_out (Some req)) (
                 out (Some req) 0)))) w1
          | SR_OP_DELETED \<Rightarrow> out None 0 w
          | SR_OP_MOVED \<Rightarrow> out None 0 w)))) w0)"

definition ipv4_neighbor_change_link_layer_address :: "env \<Rightarrow> handler" where
  "ipv4_neighbor_change_link_layer_address = neighbor_change_link_layer_address AF_INET"

definition ipv6_neighbor_change_link_layer_address :: "env \<Rightarrow> handler" where
  "ipv6_neighbor_change_link_layer_address = neighbor_change_link_layer_address AF_INET6"

definition neighbor_get_link_layer_address :: "family \<Rightarrow> handler" where
  "neighbor_get_link_layer_address fam c w =
    (if ch_operation c \<noteq> SR_OP_CREATED then Abort
     else Ret (0, upd_mod fam (\<lambda>m. m\<lparr>mf_link_layer_address := Some (ch_value c), mf_link_layer_set := True\<rparr>) w))"

definition ipv4_neighbor_get_link_layer_address :: handler where
  "ipv4_neighbor_get_link_layer_address = neighbor_get_link_layer_address AF_INET"

definition ipv6_neighbor_get_link_layer_address :: handler where
  "ipv6_neighbor_get_link_layer_address = neighbor_get_link_layer_address AF_INET6"

text \<open>\<^verbatim>\<open>nl_addr_parse\<close> is called on the collected address even if none was collected: with
  \<^verbatim>\<open>NULL\<close> it is undefined.\<close>

definition neighbor_change_ip :: "family \<Rightarrow> cstr \<Rightarrow> env \<Rightarrow> handler" where
  "neighbor_change_ip fam ipv E c w0 =
    (let out = (\<lambda>req error w.
           Ret (error, release_opt req
             (upd_mod fam (\<lambda>m. m\<lparr>mf_link_layer_address := None, mf_link_layer_set := False\<rparr>) w)));
         error_out = (\<lambda>req. out req (-1))
     in safe_ptr (\<lambda>w. (en_lyd_path E (ch_node c), w)) (error_out None) (\<lambda>path.
        safe_out (pure_call (en_key_value E path ''interface'' ''name'')) (error_out None) (\<lambda>name.
        safe_ptr (link_get_by_name E name) (error_out None) (\<lambda>link w.
          case ch_operation c of
            SR_OP_CREATED \<Rightarrow>
              let (req, w1) = acquire R_rtnl_neigh w;
                  dst = Parsed (ch_value c) fam
              in safe_out (nl_addr_parse E (ch_value c) fam) (error_out (Some req)) (\<lambda>dst_addr.
                 safe_run (en_iterate E (ip_node_path ipv name ''neighbor'' (ch_value c) ''link-layer-address'')
                     (neighbor_get_link_layer_address fam) None None) (error_out (Some req)) (\<lambda>w.
                 case mf_link_layer_address (mod_of fam w) of
                   None \<Rightarrow> Undef
                 | Some lla \<Rightarrow>
                   safe_out (nl_addr_parse E lla AF_LLC) (error_out (Some req)) (\<lambda>ll_addr.
                   safe_call (set_attr E (N_dst dst)) (error_out (Some req)) (
                   safe_call (do_request E (Neigh_add [N_dst dst, N_lladdr (Parsed lla AF_LLC),
                                                       N_ifindex (en_link_ifindex E link)] NLM_F_CREATE))
                     (error_out (Some req)) (
                   out (Some req) 0))) w)) w1
          | SR_OP_MODIFIED \<Rightarrow> error_out None w
          | SR_OP_DELETED \<Rightarrow>
              let (req, w1) = acquire R_rtnl_neigh w;
                  dst = Parsed (ch_value c) fam
              in safe_out (nl_addr_parse E (ch_value c) fam) (error_out (Some req)) (\<lambda>dst_addr.
                 safe_call (set_attr E (N_dst dst)) (error_out (Some req)) (
                 safe_call (do_request E (Neigh_delete [N_ifindex (en_link_ifindex E link), N_dst dst] 0))
                   (error_out (Some req)) (
                 out (Some req) 0))) w1
          | SR_OP_MOVED \<Rightarrow> out None 0 w))) w0)"

definition ipv4_neighbor_change_ip :: "env \<Rightarrow> handler" where
  "ipv4_neighbor_change_ip = neighbor_change_ip AF_INET ''ipv4''"

definition ipv6_neighbor_change_ip :: "env \<Rightarrow> handler" where
  "ipv6_neighbor_change_ip = neighbor_change_ip AF_INET6 ''ipv6''"

section \<open>Lemmas\<close>

lemma neighbor_lla_run:
  "post (\<lambda>e w'. \<exists>rs. requests w' = requests w @ rs \<and> run_ok e rs) (neighbor_change_link_layer_address fam E c w)"
  unfolding neighbor_change_link_layer_address_def Let_def
  by (intro post_intros; ((drule call_dests)+)?; auto simp: trace_simps run_ok_def)

interpretation v4_neighbor_lla: change_handler ipv4_neighbor_change_link_layer_address
  by unfold_locales
    (use neighbor_lla_run in \<open>auto simp: post_def ipv4_neighbor_change_link_layer_address_def\<close>)

interpretation v6_neighbor_lla: change_handler ipv6_neighbor_change_link_layer_address
  by unfold_locales
    (use neighbor_lla_run in \<open>auto simp: post_def ipv6_neighbor_change_link_layer_address_def\<close>)

lemma get_lla_silent: "silent (neighbor_get_link_layer_address fam)"
  by (auto simp: silent_def neighbor_get_link_layer_address_def trace_simps split: if_splits)

lemma iterate_lla_trace:
  "iterate_law E \<Longrightarrow> en_iterate E x (neighbor_get_link_layer_address fam) None None w = Ret (e, w')
    \<Longrightarrow> w_trace w' = w_trace w"
  using iterate_trace get_lla_silent by blast

lemmas iterate_lla_requests = iterate_lla_trace [THEN requests_trace]
lemmas iterate_lla_held = iterate_lla_trace [THEN held_kinds_trace]

lemma neighbor_ip_run:
  assumes "iterate_law E"
  shows "post (\<lambda>e w'. \<exists>rs. requests w' = requests w @ rs \<and> run_ok e rs) (neighbor_change_ip fam ipv E c w)"
  unfolding neighbor_change_ip_def Let_def
  by (intro post_intros; ((drule call_dests iterate_lla_requests [OF assms])+)?; auto simp: trace_simps run_ok_def)

interpretation v4_neighbor_ip: change_handler ipv4_neighbor_change_ip
  by unfold_locales (use neighbor_ip_run in \<open>auto simp: post_def ipv4_neighbor_change_ip_def\<close>)

interpretation v6_neighbor_ip: change_handler ipv6_neighbor_change_ip
  by unfold_locales (use neighbor_ip_run in \<open>auto simp: post_def ipv6_neighbor_change_ip_def\<close>)

lemma neighbor_ip_cleanup:
  assumes "iterate_law E"
  shows "post (\<lambda>e w'. held_kinds {R_rtnl_neigh} w' = held_kinds {R_rtnl_neigh} w
      \<and> mf_link_layer_address (mod_of fam w') = None \<and> \<not> mf_link_layer_set (mod_of fam w'))
    (neighbor_change_ip fam ipv E c w)"
  unfolding neighbor_change_ip_def Let_def
  by (intro post_intros; ((drule call_dests iterate_lla_held [OF assms, where K = "{R_rtnl_neigh}"])+)?;
      auto simp: trace_simps)




section \<open>Properties\<close>



end
