(* ===== verification/IfLinkChange.thy ===== *)
theory IfLinkChange
  imports IfNeighChange
begin

text \<open>
  The change handlers of the interface's own leaves, \<^verbatim>\<open>plugin/api/interfaces/interface/change.c\<close>,
  of its IPv4 leaves, \<^verbatim>\<open>interface/ipv4/change.c\<close>, the setup and cleanup around every iteration,
  \<^verbatim>\<open>api/interfaces/change.c\<close>, and the subscription that runs them all in order,
  \<^verbatim>\<open>plugin/subscription/change.c\<close>.
\<close>

section \<open>Leaves of the interface\<close>

text \<open>\<^verbatim>\<open>rtnl_link_alloc\<close> may fail where the code checks it.\<close>

definition link_alloc :: "env \<Rightarrow> world \<Rightarrow> res option \<times> world" where
  "link_alloc E w =
    (if en_alloc E (w_trace w) then (let (r, w1) = acquire R_rtnl_link w in (Some r, w1)) else (None, w))"

definition interface_extract_name :: "env \<Rightarrow> change \<Rightarrow> nat \<Rightarrow> int \<times> cstr" where
  "interface_extract_name E c buffer_size =
    (case en_lyd_path E (ch_node c) of
       None \<Rightarrow> (-1, [])
     | Some path \<Rightarrow>
         (case en_xpath_key E path ''interface'' ''name'' of
            None \<Rightarrow> (-1, [])
          | Some name \<Rightarrow> (0, cbuf buffer_size name)))"

text \<open>Handlers that only log.\<close>

definition interface_change_description :: "env \<Rightarrow> handler" where
  "interface_change_description E c w = Ret (0, w)"

definition interface_change_link_up_down_trap_enable :: "env \<Rightarrow> handler" where
  "interface_change_link_up_down_trap_enable E c w = Ret (0, w)"

definition interface_change_parent_interface :: "env \<Rightarrow> handler" where
  "interface_change_parent_interface E c w = Ret (0, w)"

definition interface_change_max_frame_size :: "env \<Rightarrow> handler" where
  "interface_change_max_frame_size E c w = Ret (0, w)"

definition interface_change_loopback :: "env \<Rightarrow> handler" where
  "interface_change_loopback E c w = Ret (0, w)"

text \<open>In the deleted case a missing link leads to \<^verbatim>\<open>out\<close>, not to \<^verbatim>\<open>error_out\<close>.\<close>

definition interface_change_enabled :: "env \<Rightarrow> handler" where
  "interface_change_enabled E c w0 =
    (let out = (\<lambda>req error w. Ret (error, release_opt req w));
         error_out = (\<lambda>req. out req (-1));
         update = (\<lambda>name. safe_ptr (link_get_by_name E name) (error_out None) (\<lambda>link.
              safe_ptr (link_alloc E) (error_out None) (\<lambda>req.
              let on = (ch_value c = ''true'') in
              safe_call (do_request E (Link_change link
                  [L_name name, L_type (en_link_type E link),
                   L_flags (if on then ''up'' else ''down''), L_unset_flags (if on then ''down'' else ''up''),
                   L_operstate (if on then IF_OPER_UP else IF_OPER_DOWN)] NLM_F_REPLACE))
                (error_out (Some req)) (
              out (Some req) 0))))
     in safe_out (pure_call (interface_extract_name E c 256)) (error_out None) (\<lambda>name.
          case ch_operation c of
            SR_OP_CREATED \<Rightarrow> update name
          | SR_OP_MODIFIED \<Rightarrow> update name
          | SR_OP_DELETED \<Rightarrow>
              safe_ptr (link_get_by_name E name) (out None 0) (\<lambda>link.
              safe_ptr (link_alloc E) (error_out None) (\<lambda>req.
              safe_call (do_request E (Link_change link
                  [L_name name, L_type (en_link_type E link), L_flags ''up'', L_operstate IF_OPER_UP] NLM_F_REPLACE))
                (error_out (Some req)) (
              out (Some req) 0)))
          | SR_OP_MOVED \<Rightarrow> out None 0) w0)"

definition type_pairs :: "(cstr \<times> cstr) list" where
  "type_pairs = [(''iana-if-type:ethernetCsmacd'', ''veth''), (''iana-if-type:softwareLoopback'', ''lo''),
     (''iana-if-type:l2vlan'', ''vlan''), (''iana-if-type:other'', ''dummy'')]"

text \<open>The request link is never released.\<close>

definition interface_change_type :: "env \<Rightarrow> handler" where
  "interface_change_type E c w0 =
    (let out = (\<lambda>error w. Ret (error, w));
         error_out = out (-1);
         update =
           safe_out (pure_call (interface_extract_name E c 256)) error_out (\<lambda>name.
           safe_ptr (link_get_by_name E name) error_out (\<lambda>link.
           safe_ptr (link_alloc E) error_out (\<lambda>req.
             case map_of type_pairs (ch_value c) of
               None \<Rightarrow> error_out
             | Some t \<Rightarrow>
                 safe_call (do_request E (Link_change link [L_name name, L_type (Some t)] 0)) error_out (
                 out 0))))
     in case ch_operation c of
          SR_OP_CREATED \<Rightarrow> update w0
        | SR_OP_MODIFIED \<Rightarrow> update w0
        | SR_OP_DELETED \<Rightarrow> out 0 w0
        | SR_OP_MOVED \<Rightarrow> out 0 w0)"

definition interface_change_name :: "env \<Rightarrow> handler" where
  "interface_change_name E c w0 =
    (let out = (\<lambda>error w. Ret (error, w));
         error_out = out (-1)
     in case ch_operation c of
          SR_OP_CREATED \<Rightarrow>
            (case link_get_by_name E (ch_value c) w0 of
               (Some old_link, w) \<Rightarrow> out 0 w
             | (None, w) \<Rightarrow>
                 safe_ptr (link_alloc E) error_out (\<lambda>new_link.
                 safe_call (set_attr E (L_type (Some ''dummy''))) error_out (
                 safe_call (do_request E (Link_add [L_name (ch_value c), L_type (Some ''dummy'')] NLM_F_CREATE)) error_out (
                 out 0))) w)
        | SR_OP_MODIFIED \<Rightarrow> error_out w0
        | SR_OP_DELETED \<Rightarrow>
            safe_ptr (link_get_by_name E (ch_value c)) error_out (\<lambda>old_link.
            safe_call (do_request E (Link_delete old_link)) error_out (
            out 0)) w0
        | SR_OP_MOVED \<Rightarrow> out 0 w0)"

section \<open>IPv4 leaves\<close>

definition ipv4_change_neighbor :: "env \<Rightarrow> handler" where
  "ipv4_change_neighbor E c w = Ret (0, w)"

definition ipv4_change_address :: "env \<Rightarrow> handler" where
  "ipv4_change_address E c w = Ret (0, w)"

definition ipv4_change_forwarding :: "env \<Rightarrow> handler" where
  "ipv4_change_forwarding E c w = Ret (-1, w)"

text \<open>The request is sent after the switch, for every operation; \<^verbatim>\<open>rtnl_link_set_mtu\<close> takes an
  unsigned int.\<close>

definition ipv4_change_mtu :: "env \<Rightarrow> handler" where
  "ipv4_change_mtu E c w0 =
    (let out = (\<lambda>error w. Ret (error, w));
         error_out = out (-1)
     in safe_ptr (\<lambda>w. (en_lyd_path E (ch_node c), w)) error_out (\<lambda>path.
        safe_out (pure_call (en_key_value E path ''interface'' ''name'')) error_out (\<lambda>name.
        safe_ptr (link_get_by_name E name) error_out (\<lambda>link w.
          let (req, w1) = acquire R_rtnl_link w;
              ltype = en_link_type E link
          in safe_call (set_attr E (L_type ltype)) error_out (
             let mtu = (case ch_operation c of
                          SR_OP_CREATED \<Rightarrow> [L_mtu (ucast (atoi16 (ch_value c)))]
                        | SR_OP_MODIFIED \<Rightarrow> [L_mtu (ucast (atoi16 (ch_value c)))]
                        | SR_OP_DELETED \<Rightarrow> [L_mtu 1500]
                        | SR_OP_MOVED \<Rightarrow> [])
             in safe_call (do_request E (Link_change link ([L_name (en_link_name E link), L_type ltype] @ mtu) 0)) error_out (
                out 0)) w1))) w0)"

text \<open>The length that \<^verbatim>\<open>snprintf\<close> returns stays in \<^verbatim>\<open>error\<close>.\<close>

definition ipv4_change_enabled :: "env \<Rightarrow> handler" where
  "ipv4_change_enabled E c w0 =
    (let out = (\<lambda>session error w. Ret (error, release_opt session w));
         error_out = (\<lambda>session. out session (-1));
         update = (\<lambda>name session w.
           if ch_value c = ''false''
           then out session (int (length (interface_list_path @ ''[name=\"'' @ name @ ''\"]/ietf-ip:ipv4/address''))) w
           else out session 0 w)
     in safe_ptr (\<lambda>w. (en_lyd_path E (ch_node c), w)) (error_out None) (\<lambda>path.
        safe_out (pure_call (en_key_value E path ''interface'' ''name'')) (error_out None) (\<lambda>name.
        safe_ptr (link_get_by_name E name) (error_out None) (\<lambda>link.
        safe_ptr (\<lambda>w. (if en_addr_cache_empty E (w_trace w) then None else Some (), w)) (error_out None) (\<lambda>addr_iter.
        safe_ptr (\<lambda>w. (if en_connection E then Some () else None, w)) (error_out None) (\<lambda>conn.
        safe_out (session_start E) (error_out None) (\<lambda>session w.
          case ch_operation c of
            SR_OP_CREATED \<Rightarrow> update name session w
          | SR_OP_MODIFIED \<Rightarrow> update name session w
          | SR_OP_DELETED \<Rightarrow> out session 0 w
          | SR_OP_MOVED \<Rightarrow> out session 0 w)))))) w0)"

section \<open>Setup and cleanup of an iteration\<close>

definition upd_nl :: "(nl_ctx \<Rightarrow> nl_ctx) \<Rightarrow> world \<Rightarrow> world" where
  "upd_nl g w = w\<lparr>w_mod := (w_mod w)\<lparr>mc_nl := g (mc_nl (w_mod w))\<rparr>\<rparr>"

definition change_interface_init :: "env \<Rightarrow> world \<Rightarrow> int \<times> world" where
  "change_interface_init E w0 =
    (let error_out = (\<lambda>w. (-1, w)) in
     safe_ptr (\<lambda>w. if en_init E (w_trace w) ''nl_socket_alloc'' = 0
                   then (let (r, w1) = acquire R_socket w in (Some (), upd_nl (\<lambda>n. n\<lparr>nc_socket := Some r\<rparr>) w1))
                   else (None, upd_nl (\<lambda>n. n\<lparr>nc_socket := None\<rparr>) w)) error_out (\<lambda>_.
     safe_call (\<lambda>w. (en_init E (w_trace w) ''nl_connect'', w)) error_out (
     safe_call (\<lambda>w. let e = en_init E (w_trace w) ''rtnl_link_alloc_cache'' in
                   if e = 0 then (let (r, w1) = acquire R_cache w in (0, upd_nl (\<lambda>n. n\<lparr>nc_link_cache := Some r\<rparr>) w1))
                   else (e, w)) error_out (
     safe_call (\<lambda>w. let e = en_init E (w_trace w) ''rtnl_addr_alloc_cache'' in
                   if e = 0 then (let (r, w1) = acquire R_cache w in (0, upd_nl (\<lambda>n. n\<lparr>nc_addr_cache := Some r\<rparr>) w1))
                   else (e, w)) error_out (
     (\<lambda>w. (0, w)))))) w0)"

definition change_interface_free :: "world \<Rightarrow> world" where
  "change_interface_free w =
    (let n = mc_nl (w_mod w);
         w1 = release_opt (nc_link_cache n) w;
         w2 = release_opt (nc_addr_cache n) w1;
         w3 = release_opt (nc_socket n) w2
     in w3\<lparr>w_mod := zero_mod_ctx\<rparr>)"

section \<open>The subscription\<close>

datatype sr_event = SR_EV_CHANGE | SR_EV_DONE | SR_EV_ABORT | SR_EV_ENABLED | SR_EV_UPDATE

definition SR_ERR_CALLBACK_FAILED :: int where
  "SR_ERR_CALLBACK_FAILED = 14"

text \<open>The leaves in the order of the code, with their handlers.\<close>

definition change_table :: "(cstr \<times> (env \<Rightarrow> handler)) list" where
  "change_table =
    [(''name'', interface_change_name),
     (''description'', interface_change_description),
     (''type'', interface_change_type),
     (''enabled'', interface_change_enabled),
     (''link-up-down-trap-enable'', interface_change_link_up_down_trap_enable),
     (''ipv4/mtu'', ipv4_change_mtu),
     (''ipv4/enabled'', ipv4_change_enabled),
     (''ipv4/address/ip'', ipv4_address_change_ip),
     (''ipv4/address/prefix-length'', ipv4_address_change_prefix_length),
     (''ipv4/address/netmask'', ipv4_address_change_netmask),
     (''ipv4/neighbor/ip'', ipv4_neighbor_change_ip),
     (''ipv4/neighbor/link-layer-address'', ipv4_neighbor_change_link_layer_address),
     (''ipv6/address/ip'', ipv6_address_change_ip),
     (''ipv6/address/prefix-length'', ipv6_address_change_prefix_length),
     (''ipv6/neighbor/ip'', ipv6_neighbor_change_ip),
     (''ipv6/neighbor/link-layer-address'', ipv6_neighbor_change_link_layer_address)]"

text \<open>One \<^verbatim>\<open>srpc_iterate_changes\<close> after the other, each on the path of its leaf, until one
  fails.\<close>

fun run_changes :: "env \<Rightarrow> cstr \<Rightarrow> (cstr \<times> (env \<Rightarrow> handler)) list \<Rightarrow> world \<Rightarrow> (int \<times> world) outcome" where
  "run_changes E xpath [] w = Ret (0, w)"
| "run_changes E xpath ((leaf, h) # hs) w =
    safe_run (en_iterate E (cbuf PATH_MAX (xpath @ ''/'' @ leaf)) (h E)
        (Some (change_interface_init E)) (Some change_interface_free))
      (\<lambda>w. Ret (SR_ERR_CALLBACK_FAILED, w)) (run_changes E xpath hs) w"

definition subscription_change_interfaces_interface ::
    "env \<Rightarrow> cstr \<Rightarrow> sr_event \<Rightarrow> world \<Rightarrow> (int \<times> world) outcome" where
  "subscription_change_interfaces_interface E xpath event w =
    (if event = SR_EV_ABORT then Ret (SR_ERR_CALLBACK_FAILED, w)
     else if event = SR_EV_CHANGE then run_changes E xpath change_table w
     else Ret (0, w))"

text \<open>\<^verbatim>\<open>interfaces_change_interface\<close> runs the first five leaves below the path of its node; the
  result of \<^verbatim>\<open>lyd_path\<close> is not checked, the buffer then stays empty.\<close>

definition change_interface :: "env \<Rightarrow> handler" where
  "change_interface E c w =
    obind (run_changes E (case en_lyd_path E (ch_node c) of Some p \<Rightarrow> p | None \<Rightarrow> []) (take 5 change_table) w)
      (\<lambda>(rc, w'). Ret (if rc \<noteq> 0 then -1 else 0, w'))"

section \<open>Lemmas\<close>

lemma link_allocD: "link_alloc E w = (Some r, w') \<Longrightarrow> r = (R_rtnl_link, length (w_trace w)) \<and> w' = emit (Acquire r) w"
  "link_alloc E w = (None, w') \<Longrightarrow> w' = w"
  by (auto simp: link_alloc_def acquire_def Let_def split: if_splits)

lemma upd_nl_simps [trace_simps]:
  "w_trace (upd_nl g w) = w_trace w" "requests (upd_nl g w) = requests w" "held (upd_nl g w) = held w"
  by (simp_all add: upd_nl_def requests_def held_def)

lemma requests_release_opt [trace_simps]: "requests (release_opt p w) = requests w"
  by (cases p) (auto simp: trace_simps)

lemma requests_w_mod [trace_simps]: "requests (w\<lparr>w_mod := m\<rparr>) = requests w"
  by (simp add: requests_def)

lemma init_requests: "requests (snd (change_interface_init E w)) = requests w"
  by (auto simp: change_interface_init_def Let_def safe_ptr_def safe_call_def acquire_def trace_simps
      split: prod.splits option.splits if_splits)

lemma free_requests: "requests (change_interface_free w) = requests w"
  by (simp add: change_interface_free_def Let_def trace_simps)

interpretation h_description: change_handler interface_change_description
  by unfold_locales (auto simp: interface_change_description_def)

interpretation h_trap: change_handler interface_change_link_up_down_trap_enable
  by unfold_locales (auto simp: interface_change_link_up_down_trap_enable_def)

lemma enabled_run:
  "post (\<lambda>e w'. \<exists>rs. requests w' = requests w @ rs \<and> run_ok e rs) (interface_change_enabled E c w)"
  unfolding interface_change_enabled_def Let_def
  by (intro post_intros; ((drule call_dests link_allocD)+)?; auto simp: trace_simps run_ok_def)

interpretation h_enabled: change_handler interface_change_enabled
  by unfold_locales (use enabled_run in \<open>auto simp: post_def\<close>)

lemma type_run:
  "post (\<lambda>e w'. \<exists>rs. requests w' = requests w @ rs \<and> run_ok e rs) (interface_change_type E c w)"
  unfolding interface_change_type_def Let_def
  by (intro post_intros; ((drule call_dests link_allocD)+)?; auto simp: trace_simps run_ok_def)

interpretation h_type: change_handler interface_change_type
  by unfold_locales (use type_run in \<open>auto simp: post_def\<close>)

lemma name_run:
  "post (\<lambda>e w'. \<exists>rs. requests w' = requests w @ rs \<and> run_ok e rs) (interface_change_name E c w)"
  unfolding interface_change_name_def Let_def
  by (intro post_intros; ((drule call_dests link_allocD)+)?; auto simp: trace_simps run_ok_def)

interpretation h_name: change_handler interface_change_name
  by unfold_locales (use name_run in \<open>auto simp: post_def\<close>)

lemma mtu_run:
  "post (\<lambda>e w'. \<exists>rs. requests w' = requests w @ rs \<and> run_ok e rs) (ipv4_change_mtu E c w)"
  unfolding ipv4_change_mtu_def Let_def
  by (intro post_intros; ((drule call_dests)+)?; auto simp: trace_simps run_ok_def)

interpretation h_mtu: change_handler ipv4_change_mtu
  by unfold_locales (use mtu_run in \<open>auto simp: post_def\<close>)

lemma ipv4_enabled_run:
  "post (\<lambda>e w'. requests w' = requests w \<and> held_kinds {R_session} w' = held_kinds {R_session} w
      \<and> (ch_operation c \<in> {SR_OP_CREATED, SR_OP_MODIFIED} \<and> ch_value c = ''false'' \<longrightarrow> e \<noteq> 0))
    (ipv4_change_enabled E c w)"
  unfolding ipv4_change_enabled_def Let_def
  by (intro post_intros; ((drule call_dests)+)?; auto simp: trace_simps)

interpretation h_ipv4_enabled: change_handler ipv4_change_enabled
  by unfold_locales (use ipv4_enabled_run in \<open>force simp: post_def\<close>)

lemma change_table_handlers:
  "(leaf, h) \<in> set change_table \<Longrightarrow> change_handler h"
  unfolding change_table_def
  using h_name.change_handler_axioms h_description.change_handler_axioms h_type.change_handler_axioms
    h_enabled.change_handler_axioms h_trap.change_handler_axioms h_mtu.change_handler_axioms
    h_ipv4_enabled.change_handler_axioms v4_change_ip.change_handler_axioms
    v4_prefix_length.change_handler_axioms v4_netmask.change_handler_axioms
    v4_neighbor_ip.change_handler_axioms v4_neighbor_lla.change_handler_axioms
    v6_change_ip.change_handler_axioms v6_prefix_length.change_handler_axioms
    v6_neighbor_ip.change_handler_axioms v6_neighbor_lla.change_handler_axioms
  by auto

lemma run_changes_run:
  assumes "iterate_law E" "\<And>leaf h. (leaf, h) \<in> set hs \<Longrightarrow> change_handler h"
  shows "run_changes E xpath hs w = Ret (e, w') \<Longrightarrow> \<exists>rs. requests w' = requests w @ rs \<and> run_ok e rs"
  using assms(2)
proof (induction hs arbitrary: w)
  case (Cons x hs)
  obtain leaf h where x: "x = (leaf, h)" by fastforce
  have h: "change_handler h" using Cons.prems(2) x by auto
  let ?call = "en_iterate E (cbuf PATH_MAX (xpath @ ''/'' @ leaf)) (h E)
        (Some (change_interface_init E)) (Some change_interface_free) w"
  obtain e1 w1 where call: "?call = Ret (e1, w1)"
    using Cons.prems(1) x by (auto simp: safe_run_def obind_eq_Ret)
  from change_handler.iterate_run [OF h assms(1) call init_requests free_requests]
  obtain r1 where r1: "requests w1 = requests w @ r1" "run_ok e1 r1" by blast
  show ?case
  proof (cases "e1 = 0")
    case True
    then have "run_changes E xpath hs w1 = Ret (e, w')"
      using Cons.prems(1) x call by (simp add: safe_run_def)
    from Cons.IH [OF this] Cons.prems(2) obtain r2 where "requests w' = requests w1 @ r2" "run_ok e r2" by auto
    then show ?thesis using r1 True run_ok_append [of r1 e r2] by auto
  next
    case False
    then have "e = SR_ERR_CALLBACK_FAILED" "w' = w1"
      using Cons.prems(1) x call by (auto simp: safe_run_def)
    then show ?thesis using r1 by (auto simp: run_ok_def SR_ERR_CALLBACK_FAILED_def)
  qed
qed simp

lemma iterate_list_ok:
  "iterate_list h cs w = Ret (0, w') \<Longrightarrow> c \<in> set cs \<Longrightarrow> \<exists>w1 w2. h c w1 = Ret (0, w2)"
proof (induction cs arbitrary: w)
  case (Cons x cs)
  then obtain e1 w1 where x: "h x w = Ret (e1, w1)"
    "(if e1 \<noteq> 0 then Ret (e1, w1) else iterate_list h cs w1) = Ret (0, w')"
    by (auto simp: obind_eq_Ret)
  then have "e1 = 0" by (auto split: if_splits)
  with x Cons show ?case by (cases "c = x") auto
qed simp

lemma iterate_changes_ok:
  assumes "en_iterate E = iterate_changes_of ch" "en_iterate E x h i f w = Ret (0, w')" "c \<in> set (ch x)"
  shows "\<exists>w1 w2. h c w1 = Ret (0, w2)"
proof -
  from assms(1,2) have "iterate_changes_of ch x h i f w = Ret (0, w')" by simp
  then obtain w1 w2 where "iterate_list h (ch x) w1 = Ret (0, w2)"
    by (auto simp: iterate_changes_of_def obind_eq_Ret split: prod.splits if_splits)
  then show ?thesis using assms(3) by (rule iterate_list_ok)
qed

lemma run_changes_ok:
  "run_changes E xpath hs w = Ret (0, w') \<Longrightarrow> (leaf, h) \<in> set hs \<Longrightarrow>
    \<exists>w1 w2. en_iterate E (cbuf PATH_MAX (xpath @ ''/'' @ leaf)) (h E)
      (Some (change_interface_init E)) (Some change_interface_free) w1 = Ret (0, w2)"
proof (induction E xpath hs w rule: run_changes.induct)
  case (2 E xpath leaf' h' hs w)
  from "2.prems"(1) obtain w1 where w1:
    "en_iterate E (cbuf PATH_MAX (xpath @ ''/'' @ leaf')) (h' E)
      (Some (change_interface_init E)) (Some change_interface_free) w = Ret (0, w1)"
    "run_changes E xpath hs w1 = Ret (0, w')"
    by (auto simp: safe_run_def obind_eq_Ret SR_ERR_CALLBACK_FAILED_def split: if_splits)
  then show ?case
    using "2.prems"(2) "2.IH" by (cases "(leaf, h) = (leaf', h')") auto
qed simp

section \<open>Properties\<close>

text \<open>A change of an interface's name: a creation adds a dummy link of that name with one request
  unless a link of that name exists already, in which case nothing is sent; a deletion deletes
  the link with one request, and fails without a request when there is no such link; a
  modification is refused.\<close>

theorem interface_name_change:
  "\<exists>e w' rs. interface_change_name E c w = Ret (e, w') \<and> requests w' = requests w @ rs
    \<and> (case (ch_operation c, en_link_by_name E (w_trace w) (ch_value c)) of
         (SR_OP_CREATED, None) \<Rightarrow>
           single_run E ((\<forall>t. en_alloc E t) \<and> callable E {} {L_type (Some ''dummy'')})
             (Link_add [L_name (ch_value c), L_type (Some ''dummy'')] NLM_F_CREATE) e rs
       | (SR_OP_CREATED, Some l) \<Rightarrow> rs = [] \<and> e = 0
       | (SR_OP_MODIFIED, _) \<Rightarrow> rs = [] \<and> e = -1
       | (SR_OP_DELETED, None) \<Rightarrow> rs = [] \<and> e = -1
       | (SR_OP_DELETED, Some l) \<Rightarrow> single_run E True (Link_delete l) e rs
       | (SR_OP_MOVED, _) \<Rightarrow> rs = [] \<and> e = 0)"
proof (cases "callable E {} {L_type (Some ''dummy'')}")
  case True
  then show ?thesis
    using callableD(2) [OF True]
    by (cases "ch_operation c"; cases "en_link_by_name E (w_trace w) (ch_value c)")
      (auto simp: interface_change_name_def run_simps link_alloc_def trace_simps answeredI)
next
  case False
  then show ?thesis
    by (cases "ch_operation c"; cases "en_link_by_name E (w_trace w) (ch_value c)")
      (auto simp: interface_change_name_def run_simps link_alloc_def trace_simps answeredI)
qed

text \<open>A change of the type of an interface is sent to the kernel, with one request, for the four
  supported YANG types only; any other type is refused without a request, a deletion is ignored.
  The link type sent agrees with the plugin's own type table except for softwareLoopback, which
  that table maps to vcan.\<close>

theorem interface_type_change:
  assumes "interface_extract_name E c 256 = (0, name)" "en_link_by_name E (w_trace w) name = Some l"
  shows "\<exists>e w' rs. interface_change_type E c w = Ret (e, w') \<and> requests w' = requests w @ rs
    \<and> (if ch_operation c = SR_OP_CREATED \<or> ch_operation c = SR_OP_MODIFIED then
         (case map_of type_pairs (ch_value c) of
            None \<Rightarrow> rs = [] \<and> e = -1
          | Some t \<Rightarrow> single_run E (\<forall>t. en_alloc E t) (Link_change l [L_name name, L_type (Some t)] 0) e rs
              \<and> (if ch_value c = ''iana-if-type:softwareLoopback'' then t = ''lo'' \<and> type_ly2nl (Some (ch_value c)) = (0, Some ''vcan'')
                 else type_ly2nl (Some (ch_value c)) = (0, Some t)))
       else rs = [] \<and> e = 0)"
proof -
  have tab: "map_of type_pairs (ch_value c) = Some t \<Longrightarrow>
      (if ch_value c = ''iana-if-type:softwareLoopback'' then t = ''lo'' \<and> type_ly2nl (Some (ch_value c)) = (0, Some ''vcan'')
       else type_ly2nl (Some (ch_value c)) = (0, Some t))" for t
    by (auto simp: type_pairs_def type_ly2nl_def split: if_splits)
  show ?thesis
    using assms tab
    by (cases "ch_operation c"; cases "map_of type_pairs (ch_value c)")
      (auto simp: interface_change_type_def run_simps link_alloc_def trace_simps answeredI)
qed

lemma demo_alloc: "en_alloc (demo_env ch) = (\<lambda>t. True)"
  by (simp add: demo_env_def)

lemma demo_link: "en_link_by_name (demo_env ch) t n = (if n = ''eth0'' then Some 2 else None)"
  "en_link_name (demo_env ch) l = ''eth0''" "en_link_type (demo_env ch) l = Some ''dummy''"
  by (simp_all add: demo_env_def)

lemma demo_extract: "interface_extract_name (demo_env ch) c 256 = (0, ''eth0'')"
  by (simp add: interface_extract_name_def demo_env_def)

theorem interface_type_change_witness:
  "\<exists>w'. interface_change_type (demo_env (\<lambda>x. [])) (demo_change SR_OP_MODIFIED ''iana-if-type:l2vlan'' '''') demo_world = Ret (0, w')
    \<and> requests w' = [(Link_change 2 [L_name ''eth0'', L_type (Some ''vlan'')] 0, 0)]"
proof -
  let ?c = "demo_change SR_OP_MODIFIED ''iana-if-type:l2vlan'' ''''"
  have "interface_extract_name (demo_env (\<lambda>x. [])) ?c 256 = (0, ''eth0'')"
    by (simp add: interface_extract_name_def demo_env_def)
  moreover have "en_link_by_name (demo_env (\<lambda>x. [])) (w_trace demo_world) ''eth0'' = Some 2"
    by (simp add: demo_env_def)
  moreover have "map_of type_pairs ''iana-if-type:l2vlan'' = Some ''vlan''"
    by (simp add: type_pairs_def)
  ultimately show ?thesis
    using interface_type_change [of "demo_env (\<lambda>x. [])" ?c "''eth0''" demo_world 2]
    by (auto simp: demo_runs demo_alloc)
qed

text \<open>Enabling or disabling an interface replaces the link's flags and operational state with one
  request, up for "true" and down for anything else; deleting the leaf sets the link up, the
  default, and succeeds without a request when the link is gone.  The request object is always
  given back.\<close>

theorem interface_enabled_change:
  assumes "interface_extract_name E c 256 = (0, name)"
  shows "\<exists>e w' rs. interface_change_enabled E c w = Ret (e, w') \<and> requests w' = requests w @ rs
    \<and> held_kinds {R_rtnl_link} w' = held_kinds {R_rtnl_link} w
    \<and> (case (ch_operation c, en_link_by_name E (w_trace w) name) of
         (SR_OP_DELETED, None) \<Rightarrow> rs = [] \<and> e = 0
       | (SR_OP_DELETED, Some l) \<Rightarrow>
           single_run E (\<forall>t. en_alloc E t) (Link_change l [L_name name, L_type (en_link_type E l), L_flags ''up'', L_operstate IF_OPER_UP] NLM_F_REPLACE) e rs
       | (SR_OP_MOVED, _) \<Rightarrow> rs = [] \<and> e = 0
       | (_, None) \<Rightarrow> rs = [] \<and> e = -1
       | (_, Some l) \<Rightarrow>
           single_run E (\<forall>t. en_alloc E t) (Link_change l
             (if ch_value c = ''true''
              then [L_name name, L_type (en_link_type E l), L_flags ''up'', L_unset_flags ''down'', L_operstate IF_OPER_UP]
              else [L_name name, L_type (en_link_type E l), L_flags ''down'', L_unset_flags ''up'', L_operstate IF_OPER_DOWN])
             NLM_F_REPLACE) e rs)"
  using assms
  by (cases "ch_operation c"; cases "en_link_by_name E (w_trace w) name")
    (auto simp: interface_change_enabled_def run_simps link_alloc_def trace_simps answeredI)

theorem interface_enabled_change_witness:
  "\<exists>w'. interface_change_enabled (demo_env (\<lambda>x. [])) (demo_change SR_OP_MODIFIED ''false'' '''') demo_world = Ret (0, w')
    \<and> requests w' = [(Link_change 2 [L_name ''eth0'', L_type (Some ''dummy''), L_flags ''down'', L_unset_flags ''up'', L_operstate IF_OPER_DOWN]
        NLM_F_REPLACE, 0)]"
  using interface_enabled_change [of "demo_env (\<lambda>x. [])" "demo_change SR_OP_MODIFIED ''false'' ''''" "''eth0''" demo_world]
  by (auto simp: demo_extract demo_link demo_runs demo_alloc)

text \<open>A change of the IPv4 MTU of a known interface makes one request, unless the type of the link cannot be
  set; it carries the value modulo 65536, the default 1500 when the leaf is deleted, and no MTU at all when it is
  moved, where the request is still sent.\<close>

theorem ipv4_mtu_change:
  assumes "resolves E c w name l"
  shows "\<exists>e w' rs. ipv4_change_mtu E c w = Ret (e, w') \<and> requests w' = requests w @ rs
    \<and> single_run E (callable E {} {L_type (en_link_type E l)}) (Link_change l ([L_name (en_link_name E l), L_type (en_link_type E l)]
        @ (case ch_operation c of
             SR_OP_DELETED \<Rightarrow> [L_mtu 1500]
           | SR_OP_MOVED \<Rightarrow> []
           | _ \<Rightarrow> [L_mtu (word_of_int (atoi (ch_value c) mod 65536))])) 0) e rs"
proof -
  have u: "ucast (atoi16 s) = (word_of_int (atoi s mod 65536) :: 32 word)" for s
    by (simp add: atoi16_def unsigned_of_int take_bit_eq_mod)
  note defs = ipv4_change_mtu_def resolves_def run_simps trace_simps answeredI u
  show ?thesis
  proof (cases "callable E {} {L_type (en_link_type E l)}")
    case True
    then show ?thesis
      using assms callableD(2) [OF True] by (cases "ch_operation c") (auto simp: defs)
  next
    case False
    then show ?thesis
      using assms by (cases "ch_operation c") (auto simp: defs)
  qed
qed

theorem ipv4_mtu_change_witness:
  "\<exists>w'. ipv4_change_mtu (demo_env (\<lambda>x. [])) (demo_change SR_OP_MODIFIED ''70000'' '''') demo_world = Ret (0, w')
    \<and> requests w' = [(Link_change 2 [L_name ''eth0'', L_type (Some ''dummy''), L_mtu 4464] 0, 0)]"
proof -
  have "atoi ''70000'' = 70000" by (simp add: atoi_def is_space_def is_digit_def)
  then show ?thesis
    using ipv4_mtu_change [OF demo_resolves(1) [of "\<lambda>x. []" "demo_change SR_OP_MODIFIED ''70000'' ''''" demo_world]]
    by (auto simp: demo_ready demo_runs demo_link)
qed

text \<open>C28. Disabling IPv4 on an interface never succeeds: the handler never returns 0,
  as the length of a path stays in its result, and so the whole transaction fails whenever it
  holds such a change.\<close>

theorem ipv4_disable_fails:
  assumes "en_iterate E = iterate_changes_of ch"
    and "c \<in> set (ch (cbuf PATH_MAX (xpath @ ''/ipv4/enabled'')))"
    and "ch_operation c \<in> {SR_OP_CREATED, SR_OP_MODIFIED}" "ch_value c = ''false''"
  shows "subscription_change_interfaces_interface E xpath SR_EV_CHANGE w \<noteq> Ret (0, w')"
proof
  assume "subscription_change_interfaces_interface E xpath SR_EV_CHANGE w = Ret (0, w')"
  then have "run_changes E xpath change_table w = Ret (0, w')"
    by (simp add: subscription_change_interfaces_interface_def)
  moreover have "(''ipv4/enabled'', ipv4_change_enabled) \<in> set change_table"
    by (simp add: change_table_def)
  ultimately obtain w1 w2 where "en_iterate E (cbuf PATH_MAX (xpath @ ''/'' @ ''ipv4/enabled'')) (ipv4_change_enabled E)
      (Some (change_interface_init E)) (Some change_interface_free) w1 = Ret (0, w2)"
    using run_changes_ok by blast
  then obtain v1 v2 where "ipv4_change_enabled E c v1 = Ret (0, v2)"
    using iterate_changes_ok [OF assms(1)] assms(2) by fastforce
  then show False
    using ipv4_enabled_run [of v1 c E] assms(3,4) by (simp add: post_def)
qed

definition demo_disable_changes :: "cstr \<Rightarrow> change list" where
  "demo_disable_changes path = (if path = ''/if/ipv4/enabled'' then [demo_change SR_OP_CREATED ''false'' ''''] else [])"

theorem ipv4_disable_fails_witness:
  "subscription_change_interfaces_interface (demo_env demo_disable_changes) ''/if'' SR_EV_CHANGE demo_world
     \<noteq> Ret (0, demo_world)"
proof -
  have 1: "en_iterate (demo_env demo_disable_changes) = iterate_changes_of demo_disable_changes"
    by (simp add: demo_env_def)
  have "cbuf PATH_MAX (''/if'' @ ''/ipv4/enabled'') = ''/if/ipv4/enabled''" by (subst cbuf_fits) simp_all
  then have 2: "demo_change SR_OP_CREATED ''false'' '''' \<in> set (demo_disable_changes (cbuf PATH_MAX (''/if'' @ ''/ipv4/enabled'')))"
    by (simp only: demo_disable_changes_def) simp
  show ?thesis
    by (rule ipv4_disable_fails [OF 1 2]) simp_all
qed

text \<open>C21. Whatever the handlers meet, a transaction on the interface list reports success only when
  every netlink request it made was accepted, and it makes no request after a refused one;
  an aborted transaction fails and sends nothing, so that requests made before are not undone,
  and every other event succeeds and sends nothing.\<close>

theorem subscription_stops_at_first_failure:
  assumes "iterate_law E" "subscription_change_interfaces_interface E xpath event w = Ret (e, w')"
  shows "\<exists>rs. requests w' = requests w @ rs \<and> run_ok e rs
    \<and> (event = SR_EV_ABORT \<longrightarrow> rs = [] \<and> e = SR_ERR_CALLBACK_FAILED)
    \<and> (event \<notin> {SR_EV_CHANGE, SR_EV_ABORT} \<longrightarrow> rs = [] \<and> e = 0)"
proof (cases "event = SR_EV_CHANGE")
  case True
  then have "run_changes E xpath change_table w = Ret (e, w')"
    using assms(2) by (simp add: subscription_change_interfaces_interface_def)
  from run_changes_run [OF assms(1) change_table_handlers this] True show ?thesis by auto
next
  case False
  then show ?thesis
    using assms(2) by (auto simp: subscription_change_interfaces_interface_def split: if_splits)
qed

text \<open>A transaction that creates an interface and disables another one, which the kernel refuses: the change of
  the MTU that comes after it is not carried out.\<close>

definition demo_three_changes :: "cstr \<Rightarrow> change list" where
  "demo_three_changes path =
    (if path = ''/if/name'' then [demo_change SR_OP_CREATED ''eth1'' '''']
     else if path = ''/if/enabled'' then [demo_change SR_OP_MODIFIED ''false'' ''true'']
     else if path = ''/if/ipv4/mtu'' then [demo_change SR_OP_MODIFIED ''1400'' ''1500'']
     else [])"

definition demo_refusing :: env where
  "demo_refusing = (demo_env demo_three_changes)
     \<lparr>en_request := (\<lambda>t r. case r of Link_change _ _ _ \<Rightarrow> -5 | _ \<Rightarrow> 0)\<rparr>"

lemma demo_refusing_init: "fst (change_interface_init demo_refusing w) = 0"
  by (simp add: change_interface_init_def demo_refusing_def demo_env_def run_simps)

lemma demo_refusing_step:
  assumes "demo_three_changes (cbuf PATH_MAX (xpath @ ''/'' @ leaf)) = cs"
    "iterate_list (h demo_refusing) cs (snd (change_interface_init demo_refusing w)) = Ret (e, w1)"
  shows "run_changes demo_refusing xpath ((leaf, h) # hs) w =
    (if e \<noteq> 0 then Ret (SR_ERR_CALLBACK_FAILED, change_interface_free w1)
     else run_changes demo_refusing xpath hs (change_interface_free w1))"
proof -
  have "en_iterate demo_refusing = iterate_changes_of demo_three_changes" by (simp add: demo_refusing_def demo_env_def)
  then show ?thesis
    using assms demo_refusing_init [of w] by (simp add: iterate_changes_of_def safe_run_def case_prod_beta)
qed

lemma demo_refusing_name:
  "\<exists>w'. interface_change_name demo_refusing (demo_change SR_OP_CREATED ''eth1'' '''') w = Ret (0, w')
     \<and> requests w' = requests w @ [(Link_add [L_name ''eth1'', L_type (Some ''dummy'')] NLM_F_CREATE, 0)]"
  by (simp add: interface_change_name_def demo_refusing_def demo_env_def run_simps link_alloc_def trace_simps)

lemma demo_refusing_enabled:
  "\<exists>w'. interface_change_enabled demo_refusing (demo_change SR_OP_MODIFIED ''false'' ''true'') w = Ret (-1, w')
     \<and> requests w' = requests w @
       [(Link_change 2 [L_name ''eth0'', L_type (Some ''dummy''), L_flags ''down'', L_unset_flags ''up'', L_operstate IF_OPER_DOWN]
          NLM_F_REPLACE, -5)]"
  by (simp add: interface_change_enabled_def interface_extract_name_def demo_refusing_def demo_env_def run_simps link_alloc_def trace_simps)

theorem subscription_stops_at_first_failure_witness:
  "\<exists>w'. subscription_change_interfaces_interface demo_refusing ''/if'' SR_EV_CHANGE demo_world = Ret (SR_ERR_CALLBACK_FAILED, w')
     \<and> requests w' =
       [(Link_add [L_name ''eth1'', L_type (Some ''dummy'')] NLM_F_CREATE, 0),
        (Link_change 2 [L_name ''eth0'', L_type (Some ''dummy''), L_flags ''down'', L_unset_flags ''up'', L_operstate IF_OPER_DOWN]
          NLM_F_REPLACE, -5)]
     \<and> run_ok SR_ERR_CALLBACK_FAILED (requests w')"
proof -
  note paths = demo_three_changes_def cbuf_def
  let ?N = "\<lambda>w. change_interface_free (snd (change_interface_init demo_refusing w))"
  let ?i = "\<lambda>w. snd (change_interface_init demo_refusing w)"
  have r: "requests (?i w) = requests w" "requests (change_interface_free w) = requests w" for w
    by (simp_all add: init_requests free_requests)
  have skip: "run_changes demo_refusing ''/if'' ((leaf, h) # hs) w = run_changes demo_refusing ''/if'' hs (?N w)"
    if "leaf \<in> {''description'', ''type''}" for leaf h hs w
    using that by (subst demo_refusing_step [of _ _ "[]" h w 0 "?i w"]) (auto simp: paths)
  obtain w1 where w1: "interface_change_name demo_refusing (demo_change SR_OP_CREATED ''eth1'' '''') (?i demo_world) = Ret (0, w1)"
    "requests w1 = [(Link_add [L_name ''eth1'', L_type (Some ''dummy'')] NLM_F_CREATE, 0)]"
    using demo_refusing_name [of "?i demo_world"] by (auto simp: r)
  let ?w = "?i (?N (?N (change_interface_free w1)))"
  obtain w2 where w2: "interface_change_enabled demo_refusing (demo_change SR_OP_MODIFIED ''false'' ''true'') ?w = Ret (-1, w2)"
    "requests w2 =
       [(Link_add [L_name ''eth1'', L_type (Some ''dummy'')] NLM_F_CREATE, 0),
        (Link_change 2 [L_name ''eth0'', L_type (Some ''dummy''), L_flags ''down'', L_unset_flags ''up'', L_operstate IF_OPER_DOWN]
          NLM_F_REPLACE, -5)]"
    using demo_refusing_enabled [of ?w] by (auto simp: r w1(2))
  have name: "run_changes demo_refusing ''/if'' ((''name'', interface_change_name) # hs) demo_world
      = run_changes demo_refusing ''/if'' hs (change_interface_free w1)" for hs
    by (subst demo_refusing_step [of _ _ "[demo_change SR_OP_CREATED ''eth1'' '''']" interface_change_name demo_world 0 w1])
      (simp_all add: paths w1(1))
  have enabled: "run_changes demo_refusing ''/if'' ((''enabled'', interface_change_enabled) # hs) (?N (?N (change_interface_free w1)))
      = Ret (SR_ERR_CALLBACK_FAILED, change_interface_free w2)" for hs
    by (subst demo_refusing_step [of _ _ "[demo_change SR_OP_MODIFIED ''false'' ''true'']" interface_change_enabled _ "-1" w2])
      (simp_all add: paths w2(1))
  obtain w' where w': "subscription_change_interfaces_interface demo_refusing ''/if'' SR_EV_CHANGE demo_world = Ret (SR_ERR_CALLBACK_FAILED, w')"
    "requests w' =
       [(Link_add [L_name ''eth1'', L_type (Some ''dummy'')] NLM_F_CREATE, 0),
        (Link_change 2 [L_name ''eth0'', L_type (Some ''dummy''), L_flags ''down'', L_unset_flags ''up'', L_operstate IF_OPER_DOWN]
          NLM_F_REPLACE, -5)]"
    using w2(2) by (simp add: subscription_change_interfaces_interface_def change_table_def name skip enabled r del: run_changes.simps)
  have "iterate_law demo_refusing"
    by (rule iterate_law_changes_of [of _ demo_three_changes]) (simp add: demo_refusing_def demo_env_def)
  from subscription_stops_at_first_failure [OF this w'(1)] have "run_ok SR_ERR_CALLBACK_FAILED (requests w')" by auto
  with w' show ?thesis by blast
qed

end
