(* ===== verification/LyTree.thy ===== *)
theory LyTree
  imports Prelude
begin

text \<open>
  The constructors of \<^verbatim>\<open>plugin/ly_tree.c\<close>.  A constructor is the call of
  libyang it makes; the calls made so far are a log, and a created node is named by the position of
  its call.  A node argument is \<^verbatim>\<open>NULL\<close> (\<^verbatim>\<open>Root\<close>), the node the caller was given (\<^verbatim>\<open>Parent\<close>), or
  a created one.  What a call returns is a parameter, a function of the log and the call.
\<close>

datatype ly_ref = Root | Parent | Created nat

datatype ly_call =
    Create_container ly_ref cstr
  | Create_list ly_ref cstr cstr cptr
  | Create_leaf ly_ref cstr cptr
  | Append_leaf_list ly_ref cstr cptr

type_synonym ly_log = "ly_call list"

type_synonym ly_env = "ly_log \<Rightarrow> ly_call \<Rightarrow> int"

definition ly_do :: "ly_env \<Rightarrow> ly_call \<Rightarrow> ly_log \<Rightarrow> int \<times> ly_log" where
  "ly_do Y c log = (Y log c, log @ [c])"

definition tree_interfaces :: ly_call where
  "tree_interfaces = Create_container Root ''/ietf-interfaces:interfaces''"

definition tree_interface :: "ly_ref \<Rightarrow> cptr \<Rightarrow> ly_call" where
  "tree_interface interfaces_node v = Create_list interfaces_node ''interface'' ''name'' v"

definition tree_ipv6 :: "ly_ref \<Rightarrow> ly_call" where
  "tree_ipv6 interface_node = Create_container interface_node ''ietf-ip:ipv6''"

definition tree_ipv6_neighbor :: "ly_ref \<Rightarrow> cptr \<Rightarrow> ly_call" where
  "tree_ipv6_neighbor ipv6_node v = Create_list ipv6_node ''neighbor'' ''ip'' v"

definition tree_ipv6_neighbor_state :: "ly_ref \<Rightarrow> cptr \<Rightarrow> ly_call" where
  "tree_ipv6_neighbor_state neighbor_node v = Create_leaf neighbor_node ''state'' v"

definition tree_ipv6_neighbor_is_router :: "ly_ref \<Rightarrow> cptr \<Rightarrow> ly_call" where
  "tree_ipv6_neighbor_is_router neighbor_node v = Create_leaf neighbor_node ''is-router'' v"

definition tree_ipv6_neighbor_origin :: "ly_ref \<Rightarrow> cptr \<Rightarrow> ly_call" where
  "tree_ipv6_neighbor_origin neighbor_node v = Create_leaf neighbor_node ''origin'' v"

definition tree_ipv6_neighbor_link_layer_address :: "ly_ref \<Rightarrow> cptr \<Rightarrow> ly_call" where
  "tree_ipv6_neighbor_link_layer_address neighbor_node v = Create_leaf neighbor_node ''link-layer-address'' v"

definition tree_ipv6_address :: "ly_ref \<Rightarrow> cptr \<Rightarrow> ly_call" where
  "tree_ipv6_address ipv6_node v = Create_list ipv6_node ''address'' ''ip'' v"

definition tree_ipv6_address_status :: "ly_ref \<Rightarrow> cptr \<Rightarrow> ly_call" where
  "tree_ipv6_address_status address_node v = Create_leaf address_node ''status'' v"

definition tree_ipv6_address_origin :: "ly_ref \<Rightarrow> cptr \<Rightarrow> ly_call" where
  "tree_ipv6_address_origin address_node v = Create_leaf address_node ''origin'' v"

definition tree_ipv6_address_prefix_length :: "ly_ref \<Rightarrow> cptr \<Rightarrow> ly_call" where
  "tree_ipv6_address_prefix_length address_node v = Create_leaf address_node ''prefix-length'' v"

definition tree_ipv6_mtu :: "ly_ref \<Rightarrow> cptr \<Rightarrow> ly_call" where
  "tree_ipv6_mtu ipv6_node v = Create_leaf ipv6_node ''mtu'' v"

definition tree_ipv6_forwarding :: "ly_ref \<Rightarrow> cptr \<Rightarrow> ly_call" where
  "tree_ipv6_forwarding ipv6_node v = Create_leaf ipv6_node ''forwarding'' v"

definition tree_ipv6_enabled :: "ly_ref \<Rightarrow> cptr \<Rightarrow> ly_call" where
  "tree_ipv6_enabled ipv6_node v = Create_leaf ipv6_node ''enabled'' v"

definition tree_ipv4 :: "ly_ref \<Rightarrow> ly_call" where
  "tree_ipv4 interface_node = Create_container interface_node ''ietf-ip:ipv4''"

definition tree_ipv4_neighbor :: "ly_ref \<Rightarrow> cptr \<Rightarrow> ly_call" where
  "tree_ipv4_neighbor ipv4_node v = Create_list ipv4_node ''neighbor'' ''ip'' v"

definition tree_ipv4_neighbor_origin :: "ly_ref \<Rightarrow> cptr \<Rightarrow> ly_call" where
  "tree_ipv4_neighbor_origin neighbor_node v = Create_leaf neighbor_node ''origin'' v"

definition tree_ipv4_neighbor_link_layer_address :: "ly_ref \<Rightarrow> cptr \<Rightarrow> ly_call" where
  "tree_ipv4_neighbor_link_layer_address neighbor_node v = Create_leaf neighbor_node ''link-layer-address'' v"

definition tree_ipv4_address :: "ly_ref \<Rightarrow> cptr \<Rightarrow> ly_call" where
  "tree_ipv4_address ipv4_node v = Create_list ipv4_node ''address'' ''ip'' v"

definition tree_ipv4_address_origin :: "ly_ref \<Rightarrow> cptr \<Rightarrow> ly_call" where
  "tree_ipv4_address_origin address_node v = Create_leaf address_node ''origin'' v"

definition tree_ipv4_address_netmask :: "ly_ref \<Rightarrow> cptr \<Rightarrow> ly_call" where
  "tree_ipv4_address_netmask address_node v = Create_leaf address_node ''netmask'' v"

definition tree_ipv4_address_prefix_length :: "ly_ref \<Rightarrow> cptr \<Rightarrow> ly_call" where
  "tree_ipv4_address_prefix_length address_node v = Create_leaf address_node ''prefix-length'' v"

definition tree_ipv4_mtu :: "ly_ref \<Rightarrow> cptr \<Rightarrow> ly_call" where
  "tree_ipv4_mtu ipv4_node v = Create_leaf ipv4_node ''mtu'' v"

definition tree_ipv4_forwarding :: "ly_ref \<Rightarrow> cptr \<Rightarrow> ly_call" where
  "tree_ipv4_forwarding ipv4_node v = Create_leaf ipv4_node ''forwarding'' v"

definition tree_ipv4_enabled :: "ly_ref \<Rightarrow> cptr \<Rightarrow> ly_call" where
  "tree_ipv4_enabled ipv4_node v = Create_leaf ipv4_node ''enabled'' v"

definition tree_statistics :: "ly_ref \<Rightarrow> ly_call" where
  "tree_statistics interface_node = Create_container interface_node ''statistics''"

definition tree_statistics_out_errors :: "ly_ref \<Rightarrow> cptr \<Rightarrow> ly_call" where
  "tree_statistics_out_errors statistics_node v = Create_leaf statistics_node ''out-errors'' v"

definition tree_statistics_out_discards :: "ly_ref \<Rightarrow> cptr \<Rightarrow> ly_call" where
  "tree_statistics_out_discards statistics_node v = Create_leaf statistics_node ''out-discards'' v"

definition tree_statistics_out_multicast_pkts :: "ly_ref \<Rightarrow> cptr \<Rightarrow> ly_call" where
  "tree_statistics_out_multicast_pkts statistics_node v = Create_leaf statistics_node ''out-multicast-pkts'' v"

definition tree_statistics_out_broadcast_pkts :: "ly_ref \<Rightarrow> cptr \<Rightarrow> ly_call" where
  "tree_statistics_out_broadcast_pkts statistics_node v = Create_leaf statistics_node ''out-broadcast-pkts'' v"

definition tree_statistics_out_unicast_pkts :: "ly_ref \<Rightarrow> cptr \<Rightarrow> ly_call" where
  "tree_statistics_out_unicast_pkts statistics_node v = Create_leaf statistics_node ''out-unicast-pkts'' v"

definition tree_statistics_out_octets :: "ly_ref \<Rightarrow> cptr \<Rightarrow> ly_call" where
  "tree_statistics_out_octets statistics_node v = Create_leaf statistics_node ''out-octets'' v"

definition tree_statistics_in_unknown_protos :: "ly_ref \<Rightarrow> cptr \<Rightarrow> ly_call" where
  "tree_statistics_in_unknown_protos statistics_node v = Create_leaf statistics_node ''in-unknown-protos'' v"

definition tree_statistics_in_errors :: "ly_ref \<Rightarrow> cptr \<Rightarrow> ly_call" where
  "tree_statistics_in_errors statistics_node v = Create_leaf statistics_node ''in-errors'' v"

definition tree_statistics_in_discards :: "ly_ref \<Rightarrow> cptr \<Rightarrow> ly_call" where
  "tree_statistics_in_discards statistics_node v = Create_leaf statistics_node ''in-discards'' v"

definition tree_statistics_in_multicast_pkts :: "ly_ref \<Rightarrow> cptr \<Rightarrow> ly_call" where
  "tree_statistics_in_multicast_pkts statistics_node v = Create_leaf statistics_node ''in-multicast-pkts'' v"

definition tree_statistics_in_broadcast_pkts :: "ly_ref \<Rightarrow> cptr \<Rightarrow> ly_call" where
  "tree_statistics_in_broadcast_pkts statistics_node v = Create_leaf statistics_node ''in-broadcast-pkts'' v"

definition tree_statistics_in_unicast_pkts :: "ly_ref \<Rightarrow> cptr \<Rightarrow> ly_call" where
  "tree_statistics_in_unicast_pkts statistics_node v = Create_leaf statistics_node ''in-unicast-pkts'' v"

definition tree_statistics_in_octets :: "ly_ref \<Rightarrow> cptr \<Rightarrow> ly_call" where
  "tree_statistics_in_octets statistics_node v = Create_leaf statistics_node ''in-octets'' v"

definition tree_statistics_discontinuity_time :: "ly_ref \<Rightarrow> cptr \<Rightarrow> ly_call" where
  "tree_statistics_discontinuity_time statistics_node v = Create_leaf statistics_node ''discontinuity-time'' v"

definition tree_speed :: "ly_ref \<Rightarrow> cptr \<Rightarrow> ly_call" where
  "tree_speed interface_node v = Create_leaf interface_node ''speed'' v"

definition tree_lower_layer_if :: "ly_ref \<Rightarrow> cptr \<Rightarrow> ly_call" where
  "tree_lower_layer_if interface_node v = Append_leaf_list interface_node ''lower-layer-if'' v"

definition tree_higher_layer_if :: "ly_ref \<Rightarrow> cptr \<Rightarrow> ly_call" where
  "tree_higher_layer_if interface_node v = Append_leaf_list interface_node ''higher-layer-if'' v"

definition tree_phys_address :: "ly_ref \<Rightarrow> cptr \<Rightarrow> ly_call" where
  "tree_phys_address interface_node v = Create_leaf interface_node ''phys-address'' v"

definition tree_if_index :: "ly_ref \<Rightarrow> cptr \<Rightarrow> ly_call" where
  "tree_if_index interface_node v = Create_leaf interface_node ''if-index'' v"

definition tree_last_change :: "ly_ref \<Rightarrow> cptr \<Rightarrow> ly_call" where
  "tree_last_change interface_node v = Create_leaf interface_node ''last-change'' v"

definition tree_oper_status :: "ly_ref \<Rightarrow> cptr \<Rightarrow> ly_call" where
  "tree_oper_status interface_node v = Create_leaf interface_node ''oper-status'' v"

definition tree_admin_status :: "ly_ref \<Rightarrow> cptr \<Rightarrow> ly_call" where
  "tree_admin_status interface_node v = Create_leaf interface_node ''admin-status'' v"

definition tree_enabled :: "ly_ref \<Rightarrow> cptr \<Rightarrow> ly_call" where
  "tree_enabled interface_node v = Create_leaf interface_node ''enabled'' v"

definition tree_type :: "ly_ref \<Rightarrow> cptr \<Rightarrow> ly_call" where
  "tree_type interface_node v = Create_leaf interface_node ''type'' v"

text \<open>Constructors no modelled code calls.\<close>

definition tree_ipv6_autoconf :: "ly_ref \<Rightarrow> ly_call" where
  "tree_ipv6_autoconf ipv6_node = Create_container ipv6_node ''autoconf''"

definition tree_ipv6_autoconf_temporary_preferred_lifetime :: "ly_ref \<Rightarrow> cptr \<Rightarrow> ly_call" where
  "tree_ipv6_autoconf_temporary_preferred_lifetime autoconf_node v = Create_leaf autoconf_node ''temporary-preferred-lifetime'' v"

definition tree_ipv6_autoconf_temporary_valid_lifetime :: "ly_ref \<Rightarrow> cptr \<Rightarrow> ly_call" where
  "tree_ipv6_autoconf_temporary_valid_lifetime autoconf_node v = Create_leaf autoconf_node ''temporary-valid-lifetime'' v"

definition tree_ipv6_autoconf_create_temporary_addresses :: "ly_ref \<Rightarrow> cptr \<Rightarrow> ly_call" where
  "tree_ipv6_autoconf_create_temporary_addresses autoconf_node v = Create_leaf autoconf_node ''create-temporary-addresses'' v"

definition tree_ipv6_autoconf_create_global_addresses :: "ly_ref \<Rightarrow> cptr \<Rightarrow> ly_call" where
  "tree_ipv6_autoconf_create_global_addresses autoconf_node v = Create_leaf autoconf_node ''create-global-addresses'' v"

definition tree_ipv6_dup_addr_detect_transmits :: "ly_ref \<Rightarrow> cptr \<Rightarrow> ly_call" where
  "tree_ipv6_dup_addr_detect_transmits ipv6_node v = Create_leaf ipv6_node ''dup-addr-detect-transmits'' v"

definition tree_ipv6_neighbor_ip :: "ly_ref \<Rightarrow> cptr \<Rightarrow> ly_call" where
  "tree_ipv6_neighbor_ip neighbor_node v = Create_leaf neighbor_node ''ip'' v"

definition tree_ipv6_address_ip :: "ly_ref \<Rightarrow> cptr \<Rightarrow> ly_call" where
  "tree_ipv6_address_ip address_node v = Create_leaf address_node ''ip'' v"

definition tree_ipv4_neighbor_ip :: "ly_ref \<Rightarrow> cptr \<Rightarrow> ly_call" where
  "tree_ipv4_neighbor_ip neighbor_node v = Create_leaf neighbor_node ''ip'' v"

definition tree_ipv4_address_ip :: "ly_ref \<Rightarrow> cptr \<Rightarrow> ly_call" where
  "tree_ipv4_address_ip address_node v = Create_leaf address_node ''ip'' v"

definition tree_parent_interface :: "ly_ref \<Rightarrow> cptr \<Rightarrow> ly_call" where
  "tree_parent_interface interface_node v = Create_leaf interface_node ''parent-interface'' v"

definition tree_forwarding_mode :: "ly_ref \<Rightarrow> cptr \<Rightarrow> ly_call" where
  "tree_forwarding_mode interface_node v = Create_leaf interface_node ''forwarding-mode'' v"

definition tree_max_frame_size :: "ly_ref \<Rightarrow> cptr \<Rightarrow> ly_call" where
  "tree_max_frame_size interface_node v = Create_leaf interface_node ''max-frame-size'' v"

definition tree_loopback :: "ly_ref \<Rightarrow> cptr \<Rightarrow> ly_call" where
  "tree_loopback interface_node v = Create_leaf interface_node ''loopback'' v"

definition tree_encapsulation :: "ly_ref \<Rightarrow> ly_call" where
  "tree_encapsulation interface_node = Create_container interface_node ''encapsulation''"

definition tree_encapsulation_dot1q_vlan :: "ly_ref \<Rightarrow> ly_call" where
  "tree_encapsulation_dot1q_vlan encapsulation_node = Create_container encapsulation_node ''dot1q-vlan''"

definition tree_encapsulation_dot1q_vlan_second_tag :: "ly_ref \<Rightarrow> ly_call" where
  "tree_encapsulation_dot1q_vlan_second_tag dot1q_vlan_node = Create_container dot1q_vlan_node ''second-tag''"

definition tree_encapsulation_dot1q_vlan_second_tag_vlan_id :: "ly_ref \<Rightarrow> cptr \<Rightarrow> ly_call" where
  "tree_encapsulation_dot1q_vlan_second_tag_vlan_id second_tag_node v = Create_leaf second_tag_node ''vlan-id'' v"

definition tree_encapsulation_dot1q_vlan_second_tag_tag_type :: "ly_ref \<Rightarrow> cptr \<Rightarrow> ly_call" where
  "tree_encapsulation_dot1q_vlan_second_tag_tag_type second_tag_node v = Create_leaf second_tag_node ''tag-type'' v"

definition tree_encapsulation_dot1q_vlan_outer_tag :: "ly_ref \<Rightarrow> ly_call" where
  "tree_encapsulation_dot1q_vlan_outer_tag dot1q_vlan_node = Create_container dot1q_vlan_node ''outer-tag''"

definition tree_encapsulation_dot1q_vlan_outer_tag_vlan_id :: "ly_ref \<Rightarrow> cptr \<Rightarrow> ly_call" where
  "tree_encapsulation_dot1q_vlan_outer_tag_vlan_id outer_tag_node v = Create_leaf outer_tag_node ''vlan-id'' v"

definition tree_encapsulation_dot1q_vlan_outer_tag_tag_type :: "ly_ref \<Rightarrow> cptr \<Rightarrow> ly_call" where
  "tree_encapsulation_dot1q_vlan_outer_tag_tag_type outer_tag_node v = Create_leaf outer_tag_node ''tag-type'' v"

definition tree_dampening :: "ly_ref \<Rightarrow> ly_call" where
  "tree_dampening interface_node = Create_container interface_node ''dampening''"

definition tree_dampening_time_remaining :: "ly_ref \<Rightarrow> cptr \<Rightarrow> ly_call" where
  "tree_dampening_time_remaining dampening_node v = Create_leaf dampening_node ''time-remaining'' v"

definition tree_dampening_suppressed :: "ly_ref \<Rightarrow> cptr \<Rightarrow> ly_call" where
  "tree_dampening_suppressed dampening_node v = Create_leaf dampening_node ''suppressed'' v"

definition tree_dampening_penalty :: "ly_ref \<Rightarrow> cptr \<Rightarrow> ly_call" where
  "tree_dampening_penalty dampening_node v = Create_leaf dampening_node ''penalty'' v"

definition tree_dampening_max_suppress_time :: "ly_ref \<Rightarrow> cptr \<Rightarrow> ly_call" where
  "tree_dampening_max_suppress_time dampening_node v = Create_leaf dampening_node ''max-suppress-time'' v"

definition tree_dampening_suppress :: "ly_ref \<Rightarrow> cptr \<Rightarrow> ly_call" where
  "tree_dampening_suppress dampening_node v = Create_leaf dampening_node ''suppress'' v"

definition tree_dampening_reuse :: "ly_ref \<Rightarrow> cptr \<Rightarrow> ly_call" where
  "tree_dampening_reuse dampening_node v = Create_leaf dampening_node ''reuse'' v"

definition tree_dampening_half_life :: "ly_ref \<Rightarrow> cptr \<Rightarrow> ly_call" where
  "tree_dampening_half_life dampening_node v = Create_leaf dampening_node ''half-life'' v"

definition tree_carrier_delay :: "ly_ref \<Rightarrow> ly_call" where
  "tree_carrier_delay interface_node = Create_container interface_node ''carrier-delay''"

definition tree_carrier_delay_timer_running :: "ly_ref \<Rightarrow> cptr \<Rightarrow> ly_call" where
  "tree_carrier_delay_timer_running carrier_delay_node v = Create_leaf carrier_delay_node ''timer-running'' v"

definition tree_carrier_delay_carrier_transitions :: "ly_ref \<Rightarrow> cptr \<Rightarrow> ly_call" where
  "tree_carrier_delay_carrier_transitions carrier_delay_node v = Create_leaf carrier_delay_node ''carrier-transitions'' v"

definition tree_carrier_delay_up :: "ly_ref \<Rightarrow> cptr \<Rightarrow> ly_call" where
  "tree_carrier_delay_up carrier_delay_node v = Create_leaf carrier_delay_node ''up'' v"

definition tree_carrier_delay_down :: "ly_ref \<Rightarrow> cptr \<Rightarrow> ly_call" where
  "tree_carrier_delay_down carrier_delay_node v = Create_leaf carrier_delay_node ''down'' v"

definition tree_statistics_in_discard_unknown_encaps :: "ly_ref \<Rightarrow> cptr \<Rightarrow> ly_call" where
  "tree_statistics_in_discard_unknown_encaps statistics_node v = Create_leaf statistics_node ''in-discard-unknown-encaps'' v"

definition tree_link_up_down_trap_enable :: "ly_ref \<Rightarrow> cptr \<Rightarrow> ly_call" where
  "tree_link_up_down_trap_enable interface_node v = Create_leaf interface_node ''link-up-down-trap-enable'' v"

definition tree_description :: "ly_ref \<Rightarrow> cptr \<Rightarrow> ly_call" where
  "tree_description interface_node v = Create_leaf interface_node ''description'' v"

definition tree_name :: "ly_ref \<Rightarrow> cptr \<Rightarrow> ly_call" where
  "tree_name interface_node v = Create_leaf interface_node ''name'' v"

lemmas tree_defs [simp] = tree_interfaces_def tree_interface_def tree_ipv6_def tree_ipv6_neighbor_def
  tree_ipv6_neighbor_state_def tree_ipv6_neighbor_is_router_def tree_ipv6_neighbor_origin_def
  tree_ipv6_neighbor_link_layer_address_def tree_ipv6_address_def tree_ipv6_address_status_def
  tree_ipv6_address_origin_def tree_ipv6_address_prefix_length_def tree_ipv6_mtu_def tree_ipv6_forwarding_def
  tree_ipv6_enabled_def tree_ipv4_def tree_ipv4_neighbor_def tree_ipv4_neighbor_origin_def tree_ipv4_neighbor_link_layer_address_def
  tree_ipv4_address_def tree_ipv4_address_origin_def tree_ipv4_address_netmask_def tree_ipv4_address_prefix_length_def
  tree_ipv4_mtu_def tree_ipv4_forwarding_def tree_ipv4_enabled_def tree_statistics_def tree_statistics_out_errors_def
  tree_statistics_out_discards_def tree_statistics_out_multicast_pkts_def tree_statistics_out_broadcast_pkts_def
  tree_statistics_out_unicast_pkts_def tree_statistics_out_octets_def tree_statistics_in_unknown_protos_def
  tree_statistics_in_errors_def tree_statistics_in_discards_def tree_statistics_in_multicast_pkts_def
  tree_statistics_in_broadcast_pkts_def tree_statistics_in_unicast_pkts_def tree_statistics_in_octets_def
  tree_statistics_discontinuity_time_def tree_speed_def tree_lower_layer_if_def tree_higher_layer_if_def
  tree_phys_address_def tree_if_index_def tree_last_change_def tree_oper_status_def tree_admin_status_def
  tree_enabled_def tree_type_def

end
