(* ===== verification/LogTree.thy ===== *)
theory LogTree
  imports LyTree
begin

text \<open>
  The tree that a log of creation calls makes, for calls of any kind: \<^verbatim>\<open>R\<close> is the node that a call creates its
  node in, \<^verbatim>\<open>N\<close> the name of the new node.  The lemmas find the children of a node when the log is put
  together from plans, lists of calls that depend on the position where they start.
\<close>

section \<open>Children and plans\<close>

text \<open>The positions of the calls, of those from position \<^verbatim>\<open>b\<close> on, that create a child \<^verbatim>\<open>s\<close> of \<^verbatim>\<open>p\<close>.\<close>

fun kids_of :: "('c \<Rightarrow> ly_ref) \<Rightarrow> ('c \<Rightarrow> cstr) \<Rightarrow> ly_ref \<Rightarrow> cstr \<Rightarrow> nat \<Rightarrow> 'c list \<Rightarrow> nat list" where
  "kids_of R N p s b [] = []"
| "kids_of R N p s b (c # cs) = (if R c = p \<and> N c = s then b # kids_of R N p s (Suc b) cs else kids_of R N p s (Suc b) cs)"

fun first :: "'a list \<Rightarrow> 'a option" where
  "first [] = None"
| "first (x # xs) = Some x"

text \<open>One plan after the other.\<close>

fun plan_many :: "(nat \<Rightarrow> 'a \<Rightarrow> 'c list) \<Rightarrow> nat \<Rightarrow> 'a list \<Rightarrow> 'c list" where
  "plan_many p b [] = []"
| "plan_many p b (x # xs) = p b x @ plan_many p (b + length (p b x)) xs"

section \<open>Lemmas: where the calls of a plan sit in the log\<close>

lemma kids_append [simp]: "kids_of R N p s b (xs @ ys) = kids_of R N p s b xs @ kids_of R N p s (b + length xs) ys"
  by (induction xs arbitrary: b) auto

lemma kids_none: "p \<notin> R ` set cs \<Longrightarrow> kids_of R N p s b cs = []"
  by (induction cs arbitrary: b) auto

definition within :: "nat \<Rightarrow> nat \<Rightarrow> ly_ref set" where
  "within b n = Created ` {b..<b + n}"

lemma within_Created [simp]: "Created i \<in> within b n \<longleftrightarrow> b \<le> i \<and> i < b + n" "Parent \<notin> within b n"
  by (auto simp: within_def)

lemma within_mono: "b \<le> b' \<Longrightarrow> b' + n' \<le> b + n \<Longrightarrow> within b' n' \<subseteq> within b n"
  by (auto simp: within_def)

text \<open>Every call is made on the given node or on one of the calls' own nodes.\<close>

definition enclosed_of :: "('c \<Rightarrow> ly_ref) \<Rightarrow> ly_ref \<Rightarrow> nat \<Rightarrow> 'c list \<Rightarrow> bool" where
  "enclosed_of R p b cs = (R ` set cs \<subseteq> insert p (within b (length cs)))"

lemma enclosed_kids:
  assumes "enclosed_of R p b cs" "Created i \<noteq> p" "i < b \<or> b + length cs \<le> i"
  shows "kids_of R N (Created i) s b' cs = []"
proof (rule kids_none)
  have "Created i \<notin> insert p (within b (length cs))" using assms(2,3) by auto
  then show "Created i \<notin> R ` set cs" using assms(1) unfolding enclosed_of_def by blast
qed

lemma kids_disjoint:
  assumes "R ` set cs \<inter> within b n = {}" "b \<le> i" "i < b + n"
  shows "kids_of R N (Created i) s b' cs = []"
proof (rule kids_none)
  have "Created i \<in> within b n" using assms(2,3) by simp
  then show "Created i \<notin> R ` set cs" using assms(1) by blast
qed

lemma enclosed_append: "enclosed_of R p b xs \<Longrightarrow> enclosed_of R p (b + length xs) ys \<Longrightarrow> enclosed_of R p b (xs @ ys)"
  using within_mono [of b b "length xs" "length (xs @ ys)"] within_mono [of b "b + length xs" "length ys" "length (xs @ ys)"]
  by (fastforce simp: enclosed_of_def)

lemma enclosed_many: "(\<And>b x. enclosed_of R p b (f b x)) \<Longrightarrow> enclosed_of R p b (plan_many f b xs)"
  by (induction xs arbitrary: b) (auto simp: enclosed_append, simp add: enclosed_of_def)

text \<open>A part of the log that holds every child of every node it creates.\<close>

definition sits_of :: "('c \<Rightarrow> ly_ref) \<Rightarrow> ('c \<Rightarrow> cstr) \<Rightarrow> 'c list \<Rightarrow> nat \<Rightarrow> 'c list \<Rightarrow> bool" where
  "sits_of R N log b cs = (b + length cs \<le> length log \<and> take (length cs) (drop b log) = cs
     \<and> (\<forall>i s. b \<le> i \<longrightarrow> i < b + length cs \<longrightarrow> kids_of R N (Created i) s 0 log = kids_of R N (Created i) s b cs))"

lemma sits_all: "sits_of R N log 0 log"
  by (simp add: sits_of_def)

lemma sits_nth: "sits_of R N log b cs \<Longrightarrow> i < length cs \<Longrightarrow> b + i < length log \<and> log ! (b + i) = cs ! i"
  by (auto simp: sits_of_def dest: arg_cong [where f = "\<lambda>l. l ! i"])

lemma sits_kids: "sits_of R N log b cs \<Longrightarrow> b \<le> i \<Longrightarrow> i < b + length cs \<Longrightarrow> kids_of R N (Created i) s 0 log = kids_of R N (Created i) s b cs"
  by (simp add: sits_of_def)

lemma sits_append:
  assumes "sits_of R N log b (xs @ ys)"
  shows "R ` set ys \<inter> within b (length xs) = {} \<Longrightarrow> sits_of R N log b xs"
    and "R ` set xs \<inter> within (b + length xs) (length ys) = {} \<Longrightarrow> sits_of R N log (b + length xs) ys"
proof -
  have len: "b + (length xs + length ys) \<le> length log" and tk: "take (length xs + length ys) (drop b log) = xs @ ys"
    and k: "\<And>i s. b \<le> i \<Longrightarrow> i < b + (length xs + length ys) \<Longrightarrow>
      kids_of R N (Created i) s 0 log = kids_of R N (Created i) s b xs @ kids_of R N (Created i) s (b + length xs) ys"
    using assms by (auto simp: sits_of_def)
  have "take (length xs) (drop b log) = take (length xs) (take (length xs + length ys) (drop b log))" by simp
  also have "\<dots> = xs" by (simp add: tk)
  finally have t1: "take (length xs) (drop b log) = xs" .
  have "take (length ys) (drop (b + length xs) log) = drop (length xs) (take (length xs + length ys) (drop b log))"
    by (simp add: drop_take add.commute)
  also have "\<dots> = ys" by (simp add: tk)
  finally have t2: "take (length ys) (drop (b + length xs) log) = ys" .
  show "sits_of R N log b xs" if "R ` set ys \<inter> within b (length xs) = {}"
    using len t1 k kids_disjoint [OF that] by (simp add: sits_of_def)
  show "sits_of R N log (b + length xs) ys" if "R ` set xs \<inter> within (b + length xs) (length ys) = {}"
    using len t2 k kids_disjoint [OF that] by (simp add: sits_of_def)
qed

fun starts :: "(nat \<Rightarrow> 'a \<Rightarrow> 'c list) \<Rightarrow> nat \<Rightarrow> 'a list \<Rightarrow> nat list" where
  "starts f b [] = []"
| "starts f b (x # xs) = b # starts f (b + length (f b x)) xs"

lemma length_starts [simp]: "length (starts f b xs) = length xs"
  by (induction xs arbitrary: b) auto

lemma length_many: "(\<And>b x. f b x \<noteq> []) \<Longrightarrow> length xs \<le> length (plan_many f b xs)"
proof (induction xs arbitrary: b)
  case (Cons x xs)
  have "0 < length (f b x)" using Cons.prems by simp
  then show ?case using Cons.IH [OF Cons.prems, of "b + length (f b x)"] by (simp del: length_greater_0_conv)
qed simp

text \<open>The children of a node in a run of plans: one per plan, where each plan has the one at its start.\<close>

lemma kids_many:
  assumes "\<And>b' x. b \<le> b' \<Longrightarrow> kids_of R N p s b' (f b' x) = (if s = nm then [b'] else [])"
  shows "kids_of R N p s b (plan_many f b xs) = (if s = nm then starts f b xs else [])"
  using assms
proof (induction xs arbitrary: b)
  case (Cons x xs)
  have "kids_of R N p s (b + length (f b x)) (plan_many f (b + length (f b x)) xs)
      = (if s = nm then starts f (b + length (f b x)) xs else [])"
    using Cons.prems by (intro Cons.IH) simp
  then show ?case using Cons.prems [of b x] by simp
qed simp

lemma many_sits:
  assumes "sits_of R N log b (plan_many f b xs)" "\<And>b x. enclosed_of R p b (f b x)" "\<And>i. p = Created i \<Longrightarrow> i < b"
    and "\<And>b' x. b \<le> b' \<Longrightarrow> x \<in> set xs \<Longrightarrow> sits_of R N log b' (f b' x) \<Longrightarrow> P (nd b') x"
  shows "list_all2 P (map nd (starts f b xs)) xs"
  using assms(1,3,4)
proof (induction xs arbitrary: b)
  case (Cons x xs)
  let ?b = "b + length (f b x)"
  have p: "p \<notin> within b' n" if "b \<le> b'" for b' n
    using Cons.prems(2) that by (cases p) (auto simp: within_def)
  have rest: "enclosed_of R p ?b (plan_many f ?b xs)" by (rule enclosed_many) (rule assms(2))
  have "sits_of R N log b (f b x @ plan_many f ?b xs)" using Cons.prems(1) by simp
  moreover have "R ` set (plan_many f ?b xs) \<inter> within b (length (f b x)) = {}"
    using rest p [of b "length (f b x)"] by (fastforce simp: enclosed_of_def within_def)
  moreover have "R ` set (f b x) \<inter> within ?b (length (plan_many f ?b xs)) = {}"
    using assms(2) [of b x] p [of ?b "length (plan_many f ?b xs)"] by (fastforce simp: enclosed_of_def within_def)
  ultimately have "sits_of R N log b (f b x)" "sits_of R N log ?b (plan_many f ?b xs)" by (auto dest: sits_append)
  moreover have "list_all2 P (map nd (starts f ?b xs)) xs"
    using calculation(2) Cons.prems(2,3) by (intro Cons.IH) (fastforce intro: trans_le_add1)+
  ultimately show ?case using Cons.prems(3) [of b x] by simp
qed simp

lemma enclosed_Nil: "enclosed_of R p b []"
  by (simp add: enclosed_of_def)

lemma enclosed_node:
  assumes "R c = p" "enclosed_of R (Created b) (Suc b) cs"
  shows "enclosed_of R p b (c # cs)"
  using assms within_mono [of b "Suc b" "length cs" "Suc (length cs)"] unfolding enclosed_of_def by fastforce

lemma enclosed_leaf:
  assumes "R c = p" "enclosed_of R p (Suc b) cs"
  shows "enclosed_of R p b (c # cs)"
  using enclosed_append [of R p b "[c]" cs] assms by (simp add: enclosed_of_def)

lemma enclosed_append': "enclosed_of R p b xs \<Longrightarrow> enclosed_of R p b' ys \<Longrightarrow> b' = b + length xs \<Longrightarrow> enclosed_of R p b (xs @ ys)"
  by (simp add: enclosed_append)

end
