(* ===== verification/IfLy.thy ===== *)
theory IfLy
  imports IfData LogTree
begin

text \<open>
  Conversions between the interface hash and YANG data, \<^verbatim>\<open>interfaces_interface_hash_from_ly\<close> and
  \<^verbatim>\<open>interfaces_interface_hash_to_ly\<close> of \<^verbatim>\<open>data/interfaces/interface.c\<close>, with the one-line
  constructors of \<^verbatim>\<open>plugin/ly_tree.c\<close>.  The tree that is read is a parameter: the accessors of
  libyang and srpc on its nodes.  The tree that is written is the log of the creation calls, a
  created node being named by the position of its call; what the calls return is a parameter.
\<close>

section \<open>Reading\<close>

record 'n ly_reader =
  lr_child_leaf :: "'n \<Rightarrow> cstr \<Rightarrow> 'n option"
  lr_child_container :: "'n \<Rightarrow> cstr \<Rightarrow> 'n option"
  lr_child_list :: "'n \<Rightarrow> cstr \<Rightarrow> 'n option"
  lr_list_next :: "'n \<Rightarrow> 'n option"
  lr_value :: "'n \<Rightarrow> cstr option"

text \<open>At a jump to \<^verbatim>\<open>error_out\<close>: the elements under construction, which the cleanup releases.\<close>

type_synonym 'a ly_result = "((interface \<times> v4_address option \<times> v6_address option) + 'a) outcome"

definition sbind :: "'a ly_result \<Rightarrow> ('a \<Rightarrow> 'b ly_result) \<Rightarrow> 'b ly_result" where
  "sbind m f = obind m (\<lambda>r. case r of Inl x \<Rightarrow> Ret (Inl x) | Inr y \<Rightarrow> f y)"

lemma sbind_simps [simp]:
  "sbind (Ret (Inr y)) f = f y" "sbind (Ret (Inl x)) f = Ret (Inl x)"
  "sbind Undef f = Undef" "sbind Abort f = Abort"
  by (simp_all add: sbind_def)

text \<open>\<^verbatim>\<open>strcmp(lyd_get_value(node), "true") == 0\<close> and \<^verbatim>\<open>atoi(lyd_get_value(node))\<close>: undefined
  on a node without a value.\<close>

definition is_true :: "'n ly_reader \<Rightarrow> 'n \<Rightarrow> 8 word ly_result" where
  "is_true R n = (case lr_value R n of None \<Rightarrow> Undef | Some s \<Rightarrow> Ret (Inr (if s = ''true'' then 1 else 0)))"

definition with_node :: "'n option \<Rightarrow> ('n \<Rightarrow> 'a \<Rightarrow> 'a ly_result) \<Rightarrow> 'a \<Rightarrow> 'a ly_result" where
  "with_node n f x = (case n of None \<Rightarrow> Ret (Inr x) | Some m \<Rightarrow> f m x)"

text \<open>The loop over the IPv4 addresses; running out of fuel is no result.\<close>

fun from_ly_v4 :: "'n ly_reader \<Rightarrow> nat \<Rightarrow> 'n option \<Rightarrow> interface \<Rightarrow> interface ly_result" where
  "from_ly_v4 R fuel None el = Ret (Inr el)"
| "from_ly_v4 R 0 (Some n) el = Undef"
| "from_ly_v4 R (Suc fuel) (Some n) el =
    (let new = ipv4_address_element_new in
     case lr_child_leaf R n ''ip'' of
       None \<Rightarrow> Ret (Inl (el, Some new, None))
     | Some ip \<Rightarrow>
       obind (ipv4_address_element_set_ip new (lr_value R ip)) (\<lambda>(e, new1).
         if e \<noteq> 0 then Ret (Inl (el, Some new1, None)) else
         sbind (case lr_child_leaf R n ''prefix-length'' of
             Some p \<Rightarrow>
               (case lr_value R p of
                  None \<Rightarrow> Ret (Inl (el, Some new1, None))
                | Some s \<Rightarrow>
                  let (e, new2) = ipv4_address_element_set_prefix_length new1 (atoi8 s)
                  in if e \<noteq> 0 then Ret (Inl (el, Some new2, None)) else Ret (Inr new2))
           | None \<Rightarrow>
               (case lr_child_leaf R n ''netmask'' of
                  Some m \<Rightarrow>
                    (case lr_value R m of
                       None \<Rightarrow> Ret (Inl (el, Some new1, None))
                     | Some s \<Rightarrow>
                       obind (ipv4_address_element_set_netmask new1 (Some s)) (\<lambda>(e, new2).
                         if e \<noteq> 0 then Ret (Inl (el, Some new2, None)) else Ret (Inr new2)))
                | None \<Rightarrow> Ret (Inl (el, Some new1, None))))
           (\<lambda>new2. from_ly_v4 R fuel (lr_list_next R n)
              (el\<lparr>if_ipv4 := (if_ipv4 el)\<lparr>i4_address := new2 # i4_address (if_ipv4 el)\<rparr>\<rparr>))))"

fun from_ly_v6 :: "'n ly_reader \<Rightarrow> nat \<Rightarrow> 'n option \<Rightarrow> interface \<Rightarrow> interface ly_result" where
  "from_ly_v6 R fuel None el = Ret (Inr el)"
| "from_ly_v6 R 0 (Some n) el = Undef"
| "from_ly_v6 R (Suc fuel) (Some n) el =
    (let new = ipv6_address_element_new in
     case lr_child_leaf R n ''ip'' of
       None \<Rightarrow> Ret (Inl (el, None, Some new))
     | Some ip \<Rightarrow>
     (case lr_child_leaf R n ''prefix-length'' of
       None \<Rightarrow> Ret (Inl (el, None, Some new))
     | Some p \<Rightarrow>
       obind (ipv6_address_element_set_ip new (lr_value R ip)) (\<lambda>(e, new1).
         if e \<noteq> 0 then Ret (Inl (el, None, Some new1)) else
         case lr_value R p of
           None \<Rightarrow> Ret (Inl (el, None, Some new1))
         | Some s \<Rightarrow>
           let (e, new2) = ipv6_address_element_set_prefix_length new1 (atoi8 s)
           in if e \<noteq> 0 then Ret (Inl (el, None, Some new2))
              else from_ly_v6 R fuel (lr_list_next R n)
                (el\<lparr>if_ipv6 := (if_ipv6 el)\<lparr>i6_address := new2 # i6_address (if_ipv6 el)\<rparr>\<rparr>))))"

text \<open>The node variables that live across the iterations of the outer loop.\<close>

record 'n ly_locals =
  ll_enabled :: "'n option"
  ll_forwarding :: "'n option"
  ll_mtu :: "'n option"
  ll_address :: "'n option"
  ll_address6 :: "'n option"

definition ly_locals_init :: "'n ly_locals" where
  "ly_locals_init = \<lparr> ll_enabled = None, ll_forwarding = None, ll_mtu = None, ll_address = None, ll_address6 = None \<rparr>"

text \<open>The containers' nodes are looked up again only when the interface has the container.  The
  \<^verbatim>\<open>enabled\<close>, \<^verbatim>\<open>forwarding\<close> and \<^verbatim>\<open>mtu\<close> nodes of IPv6 are fetched but never used.\<close>

definition fetch_nodes :: "'n ly_reader \<Rightarrow> 'n \<Rightarrow> 'n ly_locals \<Rightarrow> 'n ly_locals" where
  "fetch_nodes R n v =
    (let v1 = (case lr_child_container R n ''ipv4'' of
                 None \<Rightarrow> v
               | Some c \<Rightarrow> v\<lparr>ll_enabled := lr_child_leaf R c ''enabled'', ll_forwarding := lr_child_leaf R c ''forwarding'',
                             ll_mtu := lr_child_leaf R c ''mtu'', ll_address := lr_child_list R c ''address''\<rparr>)
     in case lr_child_container R n ''ipv6'' of
          None \<Rightarrow> v1
        | Some c \<Rightarrow> v1\<lparr>ll_address6 := lr_child_list R c ''address''\<rparr>)"

text \<open>One iteration of the outer loop, up to the insertion.\<close>

definition from_ly_element :: "'n ly_reader \<Rightarrow> nat \<Rightarrow> 'n \<Rightarrow> 'n ly_locals \<Rightarrow> (interface \<times> 'n ly_locals) ly_result" where
  "from_ly_element R fuel n v =
    (let new = hash_element_new in
     case lr_child_leaf R n ''name'' of None \<Rightarrow> Ret (Inl (new, None, None)) | Some name \<Rightarrow>
     case lr_child_leaf R n ''type'' of None \<Rightarrow> Ret (Inl (new, None, None)) | Some ty \<Rightarrow>
     let enabled = lr_child_leaf R n ''enabled'';
         v2 = fetch_nodes R n v;
         (e1, new1) = hash_element_set_name new (lr_value R name)
     in if e1 \<noteq> 0 then Ret (Inl (new1, None, None)) else
     let (e2, new2) = hash_element_set_type new1 (lr_value R ty)
     in if e2 \<noteq> 0 then Ret (Inl (new2, None, None)) else
     sbind (with_node enabled (\<lambda>m el. sbind (is_true R m) (\<lambda>b. Ret (Inr (snd (hash_element_set_enabled el b))))) new2) (\<lambda>new3.
     sbind (with_node (ll_enabled v2) (\<lambda>m el. sbind (is_true R m) (\<lambda>b.
         Ret (Inr (el\<lparr>if_ipv4 := snd (ipv4_set_enabled (if_ipv4 el) b)\<rparr>)))) new3) (\<lambda>new4.
     sbind (with_node (ll_forwarding v2) (\<lambda>m el. sbind (is_true R m) (\<lambda>b.
         Ret (Inr (el\<lparr>if_ipv4 := snd (ipv4_set_forwarding (if_ipv4 el) b)\<rparr>)))) new4) (\<lambda>new5.
     sbind (with_node (ll_mtu v2) (\<lambda>m el.
         case lr_value R m of
           None \<Rightarrow> Undef
         | Some s \<Rightarrow> Ret (Inr (el\<lparr>if_ipv4 := snd (ipv4_set_mtu (if_ipv4 el) (atoi16 s))\<rparr>))) new5) (\<lambda>new6.
     let new7 = new6\<lparr>if_ipv4 := (if_ipv4 new6)\<lparr>i4_address := [], i4_neighbor := []\<rparr>,
                     if_ipv6 := (if_ipv6 new6)\<lparr>i6_address := [], i6_neighbor := []\<rparr>\<rparr>
     in sbind (from_ly_v4 R fuel (ll_address v2) new7) (\<lambda>new8.
        sbind (from_ly_v6 R fuel (ll_address6 v2) new8) (\<lambda>new9.
          Ret (Inr (new9, v2\<lparr>ll_address := None, ll_address6 := None\<rparr>)))))))))"

text \<open>The result of the insertion is ignored: a second element of the same name is dropped.\<close>

fun from_ly_loop :: "'n ly_reader \<Rightarrow> nat \<Rightarrow> nat \<Rightarrow> 'n option \<Rightarrow> 'n ly_locals \<Rightarrow> interface_hash \<Rightarrow>
    (int \<times> interface_hash) outcome" where
  "from_ly_loop R k fuel None v hash = Ret (0, hash)"
| "from_ly_loop R k 0 (Some n) v hash = Undef"
| "from_ly_loop R k (Suc fuel) (Some n) v hash =
    obind (from_ly_element R k n v) (\<lambda>r. case r of
      Inl (el, v4, v6) \<Rightarrow>
        obind (hash_element_free el) (\<lambda>_.
        obind (case v4 of None \<Rightarrow> Ret [] | Some a \<Rightarrow> ipv4_address_element_free a) (\<lambda>_.
        obind (case v6 of None \<Rightarrow> Ret [] | Some a \<Rightarrow> ipv6_address_element_free a) (\<lambda>_.
          Ret (-1, hash))))
    | Inr (el, v') \<Rightarrow>
        from_ly_loop R k fuel (lr_list_next R n) v' (snd (hash_add_element hash el)))"

definition hash_from_ly :: "'n ly_reader \<Rightarrow> nat \<Rightarrow> nat \<Rightarrow> interface_hash \<Rightarrow> 'n option \<Rightarrow> (int \<times> interface_hash) outcome" where
  "hash_from_ly R k fuel if_hash interface_list_node =
    (if if_hash \<noteq> [] then Abort
     else from_ly_loop R k fuel interface_list_node ly_locals_init if_hash)"

section \<open>Writing\<close>

text \<open>The node a call creates, named by the position of the call.\<close>

definition safe_create :: "ly_env \<Rightarrow> ly_call \<Rightarrow> (ly_log \<Rightarrow> 'r) \<Rightarrow> (ly_ref \<Rightarrow> ly_log \<Rightarrow> 'r) \<Rightarrow> ly_log \<Rightarrow> 'r" where
  "safe_create Y c label k log =
    (case ly_do Y c log of (e, log') \<Rightarrow> if e \<noteq> 0 then label log' else k (Created (length log)) log')"

definition bool_str :: "8 word \<Rightarrow> cstr" where
  "bool_str b = (if b \<noteq> 0 then ''true'' else ''false'')"

text \<open>The body of each of the four inner loops; a string field is passed as the pointer it is, and the
  union read against its tag is a pointer to nothing in particular.  The label is \<^verbatim>\<open>error_out\<close>, with result -1.\<close>

definition to_ly_v4_address :: "ly_env \<Rightarrow> ly_ref \<Rightarrow> v4_address \<Rightarrow> ly_log \<Rightarrow> int \<times> ly_log" where
  "to_ly_v4_address Y c a =
    (let fail = (\<lambda>log. (-1, log)) in
     safe_create Y (tree_ipv4_address c (v4_ip a)) fail (\<lambda>n.
       case v4_subnet_type a of
         subnet_none \<Rightarrow> (\<lambda>log. (0, log))
       | subnet_prefix_length \<Rightarrow>
           safe_call (ly_do Y (tree_ipv4_address_prefix_length n
             (case v4_subnet a of Sub_byte b \<Rightarrow> Ptr (dec (unat b)) | _ \<Rightarrow> Dangling))) fail (\<lambda>log. (0, log))
       | subnet_netmask \<Rightarrow>
           safe_call (ly_do Y (tree_ipv4_address_netmask n
             (case v4_subnet a of Sub_ptr s \<Rightarrow> Ptr s | Sub_byte b \<Rightarrow> (if b = 0 then Null else Dangling) | Sub_wild \<Rightarrow> Dangling))) fail (\<lambda>log. (0, log))))"

definition to_ly_v6_address :: "ly_env \<Rightarrow> ly_ref \<Rightarrow> v6_address \<Rightarrow> ly_log \<Rightarrow> int \<times> ly_log" where
  "to_ly_v6_address Y c a =
    (let fail = (\<lambda>log. (-1, log)) in
     safe_create Y (tree_ipv6_address c (v6_ip a)) fail (\<lambda>n.
       safe_call (ly_do Y (tree_ipv6_address_prefix_length n (Ptr (dec (unat (v6_prefix_length a)))))) fail (\<lambda>log. (0, log))))"

text \<open>The IPv4 and the IPv6 loop differ in the constructors.\<close>

definition to_ly_neighbor :: "ly_env \<Rightarrow> (cptr \<Rightarrow> ly_call) \<Rightarrow> (ly_ref \<Rightarrow> cptr \<Rightarrow> ly_call) \<Rightarrow> neighbor \<Rightarrow> ly_log \<Rightarrow> int \<times> ly_log" where
  "to_ly_neighbor Y mk_neighbor mk_link_layer_address a =
    (let fail = (\<lambda>log. (-1, log)) in
     safe_create Y (mk_neighbor (ne_ip a)) fail (\<lambda>n.
       safe_call (ly_do Y (mk_link_layer_address n (ne_link_layer_address a))) fail (\<lambda>log. (0, log))))"

definition to_ly_element :: "ly_env \<Rightarrow> interface \<Rightarrow> ly_log \<Rightarrow> int \<times> ly_log" where
  "to_ly_element Y el =
    (let fail = (\<lambda>log. (-1, log)); i4 = if_ipv4 el; i6 = if_ipv6 el in
     safe_create Y (tree_interface Parent (opt_ptr (if_name el))) fail (\<lambda>n.
     safe_call (ly_do Y (tree_enabled n (Ptr (bool_str (if_enabled el))))) fail (
     safe_call (ly_do Y (tree_type n (opt_ptr (if_type el)))) fail (
     safe_create Y (tree_ipv4 n) fail (\<lambda>c4.
     safe_call (ly_do Y (tree_ipv4_enabled c4 (Ptr (bool_str (i4_enabled i4))))) fail (
     safe_call (ly_do Y (tree_ipv4_forwarding c4 (Ptr (bool_str (i4_forwarding i4))))) fail (
     safe_call (\<lambda>log. if i4_mtu i4 \<noteq> 0 then ly_do Y (tree_ipv4_mtu c4 (Ptr (dec (unat (i4_mtu i4))))) log else (0, log)) fail (
     safe_call (until_fail (to_ly_v4_address Y c4) (i4_address i4)) fail (
     safe_call (until_fail (to_ly_neighbor Y (tree_ipv4_neighbor c4) tree_ipv4_neighbor_link_layer_address) (i4_neighbor i4)) fail (
     safe_create Y (tree_ipv6 n) fail (\<lambda>c6.
     safe_call (ly_do Y (tree_ipv6_enabled c6 (Ptr (bool_str (i6_enabled i6))))) fail (
     safe_call (ly_do Y (tree_ipv6_forwarding c6 (Ptr (bool_str (i6_forwarding i6))))) fail (
     safe_call (\<lambda>log. if i6_mtu i6 \<noteq> 0 then ly_do Y (tree_ipv6_mtu c6 (Ptr (dec (unat (i6_mtu i6))))) log else (0, log)) fail (
     safe_call (until_fail (to_ly_v6_address Y c6) (i6_address i6)) fail (
     safe_call (until_fail (to_ly_neighbor Y (tree_ipv6_neighbor c6) tree_ipv6_neighbor_link_layer_address) (i6_neighbor i6)) fail (
     (\<lambda>log. (0, log))))))))))))))))))"

definition hash_to_ly :: "ly_env \<Rightarrow> interface_hash \<Rightarrow> ly_log \<Rightarrow> int \<times> ly_log" where
  "hash_to_ly Y if_hash log = until_fail (to_ly_element Y) if_hash log"

section \<open>Lemmas: reading\<close>

text \<open>A chain of siblings of a list, as \<^verbatim>\<open>srpc_ly_tree_get_list_next\<close> walks it.\<close>

inductive chain :: "'n ly_reader \<Rightarrow> 'n option \<Rightarrow> 'n list \<Rightarrow> bool" for R where
  chain_end: "chain R None []"
| chain_next: "chain R (lr_list_next R n) ns \<Longrightarrow> chain R (Some n) (n # ns)"

inductive_cases chain_ConsE: "chain R m (n # ns)"
inductive_cases chain_NilE: "chain R m []"
inductive_simps chain_simps: "chain R m []" "chain R m (n # ns)"

text \<open>A tree node shows a data element: its leaves hold the text that the writer gives them.\<close>

definition leaf_is :: "'n ly_reader \<Rightarrow> 'n \<Rightarrow> cstr \<Rightarrow> cstr \<Rightarrow> bool" where
  "leaf_is R n name v = (\<exists>m. lr_child_leaf R n name = Some m \<and> lr_value R m = Some v)"

definition v4_shows :: "'n ly_reader \<Rightarrow> 'n \<Rightarrow> v4_address \<Rightarrow> bool" where
  "v4_shows R n a = ((\<exists>s. v4_ip a = Ptr s \<and> leaf_is R n ''ip'' s) \<and>
    ((\<exists>b. v4_subnet_type a = subnet_prefix_length \<and> v4_subnet a = Sub_byte b \<and> leaf_is R n ''prefix-length'' (dec (unat b)))
     \<or> (\<exists>m. v4_subnet_type a = subnet_netmask \<and> v4_subnet a = Sub_ptr m
           \<and> lr_child_leaf R n ''prefix-length'' = None \<and> leaf_is R n ''netmask'' m)))"

definition v6_shows :: "'n ly_reader \<Rightarrow> 'n \<Rightarrow> v6_address \<Rightarrow> bool" where
  "v6_shows R n a = ((\<exists>s. v6_ip a = Ptr s \<and> leaf_is R n ''ip'' s)
     \<and> leaf_is R n ''prefix-length'' (dec (unat (v6_prefix_length a))))"

definition ipv4_shows :: "'n ly_reader \<Rightarrow> 'n \<Rightarrow> nat \<Rightarrow> ipv4 \<Rightarrow> bool" where
  "ipv4_shows R c k i = (leaf_is R c ''enabled'' (bool_str (i4_enabled i))
     \<and> leaf_is R c ''forwarding'' (bool_str (i4_forwarding i))
     \<and> (if i4_mtu i = 0 then lr_child_leaf R c ''mtu'' = None else leaf_is R c ''mtu'' (dec (unat (i4_mtu i))))
     \<and> (\<exists>ns. chain R (lr_child_list R c ''address'') ns \<and> length ns \<le> k \<and> list_all2 (v4_shows R) ns (i4_address i)))"

definition ipv6_shows :: "'n ly_reader \<Rightarrow> 'n \<Rightarrow> nat \<Rightarrow> ipv6 \<Rightarrow> bool" where
  "ipv6_shows R c k i = (\<exists>ns. chain R (lr_child_list R c ''address'') ns \<and> length ns \<le> k
     \<and> list_all2 (v6_shows R) ns (i6_address i))"

definition node_shows :: "'n ly_reader \<Rightarrow> nat \<Rightarrow> 'n \<Rightarrow> interface \<Rightarrow> bool" where
  "node_shows R k n el = (
     (\<exists>s. if_name el = Some s \<and> leaf_is R n ''name'' s) \<and> (\<exists>s. if_type el = Some s \<and> leaf_is R n ''type'' s)
     \<and> leaf_is R n ''enabled'' (bool_str (if_enabled el))
     \<and> (\<exists>c. lr_child_container R n ''ipv4'' = Some c \<and> ipv4_shows R c k (if_ipv4 el))
     \<and> (\<exists>c. lr_child_container R n ''ipv6'' = Some c \<and> ipv6_shows R c k (if_ipv6 el)))"

text \<open>What comes back: the flags as 0 or 1, the address lists reversed, and nothing of the rest.\<close>

definition flag :: "8 word \<Rightarrow> 8 word" where
  "flag b = (if b \<noteq> 0 then 1 else 0)"

definition ly_normal_form :: "interface \<Rightarrow> interface" where
  "ly_normal_form el = hash_element_new\<lparr>if_name := if_name el, if_type := if_type el, if_enabled := flag (if_enabled el),
     if_ipv4 := zero_ipv4\<lparr>i4_enabled := flag (i4_enabled (if_ipv4 el)), i4_forwarding := flag (i4_forwarding (if_ipv4 el)),
       i4_mtu := i4_mtu (if_ipv4 el), i4_address := rev (i4_address (if_ipv4 el))\<rparr>,
     if_ipv6 := zero_ipv6\<lparr>i6_address := rev (i6_address (if_ipv6 el))\<rparr>\<rparr>"

lemma from_ly_v4_reads:
  "chain R m ns \<Longrightarrow> length ns \<le> k \<Longrightarrow> list_all2 (v4_shows R) ns as \<Longrightarrow>
    from_ly_v4 R k m el = Ret (Inr (el\<lparr>if_ipv4 := (if_ipv4 el)\<lparr>i4_address := rev as @ i4_address (if_ipv4 el)\<rparr>\<rparr>))"
proof (induction arbitrary: k as el rule: chain.induct)
  case chain_end
  then show ?case by simp
next
  case (chain_next n ns)
  then obtain k' a as' where k: "k = Suc k'" "as = a # as'" and a: "v4_shows R n a"
    and r: "length ns \<le> k'" "list_all2 (v4_shows R) ns as'"
    by (cases k) (auto simp: list_all2_Cons1)
  note IH = chain_next.IH [OF r]
  show ?case
    using a unfolding k
    by (cases a) (auto simp: v4_shows_def leaf_is_def ipv4_address_element_new_def ipv4_address_element_set_ip_def
        ipv4_address_element_set_prefix_length_def ipv4_address_element_set_netmask_def IH Let_def)
qed

lemma from_ly_v6_reads:
  "chain R m ns \<Longrightarrow> length ns \<le> k \<Longrightarrow> list_all2 (v6_shows R) ns as \<Longrightarrow>
    from_ly_v6 R k m el = Ret (Inr (el\<lparr>if_ipv6 := (if_ipv6 el)\<lparr>i6_address := rev as @ i6_address (if_ipv6 el)\<rparr>\<rparr>))"
proof (induction arbitrary: k as el rule: chain.induct)
  case chain_end
  then show ?case by simp
next
  case (chain_next n ns)
  then obtain k' a as' where k: "k = Suc k'" "as = a # as'" and a: "v6_shows R n a"
    and r: "length ns \<le> k'" "list_all2 (v6_shows R) ns as'"
    by (cases k) (auto simp: list_all2_Cons1)
  note IH = chain_next.IH [OF r]
  show ?case
    using a unfolding k
    by (cases a) (auto simp: v6_shows_def leaf_is_def ipv6_address_element_new_def ipv6_address_element_set_ip_def
        ipv6_address_element_set_prefix_length_def IH Let_def)
qed

lemma is_true_bool_str: "lr_value R m = Some (bool_str b) \<Longrightarrow> is_true R m = Ret (Inr (flag b))"
  by (simp add: is_true_def bool_str_def flag_def)

lemma from_ly_element_reads:
  assumes "node_shows R k n el"
  shows "from_ly_element R k n v = Ret (Inr (ly_normal_form el, (fetch_nodes R n v)\<lparr>ll_address := None, ll_address6 := None\<rparr>))"
proof -
  obtain s ty c4 c6 where name: "if_name el = Some s" "leaf_is R n ''name'' s" and ty: "if_type el = Some ty" "leaf_is R n ''type'' ty"
    and c4: "lr_child_container R n ''ipv4'' = Some c4" "ipv4_shows R c4 k (if_ipv4 el)"
    and c6: "lr_child_container R n ''ipv6'' = Some c6" "ipv6_shows R c6 k (if_ipv6 el)"
    using assms by (auto simp: node_shows_def)
  obtain ns4 ns6 where ns4: "chain R (lr_child_list R c4 ''address'') ns4" "length ns4 \<le> k" "list_all2 (v4_shows R) ns4 (i4_address (if_ipv4 el))"
    and ns6: "chain R (lr_child_list R c6 ''address'') ns6" "length ns6 \<le> k" "list_all2 (v6_shows R) ns6 (i6_address (if_ipv6 el))"
    using c4 c6 by (auto simp: ipv4_shows_def ipv6_shows_def)
  have en: "leaf_is R n ''enabled'' (bool_str (if_enabled el))" using assms by (simp add: node_shows_def)
  show ?thesis
    using name ty c4 c6 en
    by (cases "i4_mtu (if_ipv4 el) = 0")
      (auto simp: from_ly_element_def fetch_nodes_def ipv4_shows_def leaf_is_def is_true_bool_str with_node_def Let_def
        hash_element_set_name_def hash_element_set_type_def hash_element_set_enabled_def hash_element_new_def
        ipv4_set_enabled_def ipv4_set_forwarding_def ipv4_set_mtu_def ly_normal_form_def zero_ipv4_def zero_ipv6_def
        from_ly_v4_reads [OF ns4] from_ly_v6_reads [OF ns6])
qed

lemma ly_normal_form_name [simp]: "if_name (ly_normal_form el) = if_name el"
  by (simp add: ly_normal_form_def)

lemma from_ly_loop_reads:
  "chain R m ns \<Longrightarrow> length ns \<le> fuel \<Longrightarrow> list_all2 (node_shows R k) ns els \<Longrightarrow>
    distinct (map if_name (hash @ els)) \<Longrightarrow>
    from_ly_loop R k fuel m v hash = Ret (0, hash @ map ly_normal_form els)"
proof (induction arbitrary: fuel els v hash rule: chain.induct)
  case chain_end
  then show ?case by simp
next
  case (chain_next n ns)
  then obtain fuel' el els' where f: "fuel = Suc fuel'" "els = el # els'" and el: "node_shows R k n el"
    and r: "length ns \<le> fuel'" "list_all2 (node_shows R k) ns els'"
    by (cases fuel) (auto simp: list_all2_Cons1)
  obtain v' where v': "from_ly_element R k n v = Ret (Inr (ly_normal_form el, v'))"
    using from_ly_element_reads [OF el] by simp
  have add: "hash_add_element hash (ly_normal_form el) = (0, hash @ [ly_normal_form el])"
  proof -
    have "hash_find if_name (if_name el) hash = None"
      using chain_next.prems(3) f by (auto simp: hash_find_None_iff)
    then show ?thesis by (simp add: hash_add_element_def hash_add_def)
  qed
  have "distinct (map if_name ((hash @ [ly_normal_form el]) @ els'))"
    using chain_next.prems(3) f by auto
  from chain_next.IH [OF r this, of v'] show ?case
    by (simp add: f v' add)
qed

text \<open>Nothing of the IPv6 leaves survives, whatever the tree.\<close>

definition v6_leaves_zero :: "interface \<Rightarrow> bool" where
  "v6_leaves_zero el = (i6_mtu (if_ipv6 el) = 0 \<and> i6_enabled (if_ipv6 el) = 0 \<and> i6_forwarding (if_ipv6 el) = 0)"

lemma v6_leaves_zero_simps [simp]:
  "v6_leaves_zero (el\<lparr>if_ipv4 := i\<rparr>) = v6_leaves_zero el"
  "v6_leaves_zero (el\<lparr>if_ipv6 := (if_ipv6 el)\<lparr>i6_address := as\<rparr>\<rparr>) = v6_leaves_zero el"
  "v6_leaves_zero (el\<lparr>if_ipv4 := i, if_ipv6 := (if_ipv6 el)\<lparr>i6_address := as, i6_neighbor := ns\<rparr>\<rparr>) = v6_leaves_zero el"
  "v6_leaves_zero (el\<lparr>if_name := s\<rparr>) = v6_leaves_zero el"
  "v6_leaves_zero (el\<lparr>if_type := s\<rparr>) = v6_leaves_zero el"
  "v6_leaves_zero (el\<lparr>if_enabled := b\<rparr>) = v6_leaves_zero el"
  "v6_leaves_zero hash_element_new"
  by (simp_all add: v6_leaves_zero_def hash_element_new_def zero_ipv6_def)

definition keeps_zero :: "interface ly_result \<Rightarrow> bool" where
  "keeps_zero m = (\<forall>el. m = Ret (Inr el) \<longrightarrow> v6_leaves_zero el)"

lemma keeps_zero_basic [intro]:
  "v6_leaves_zero el \<Longrightarrow> keeps_zero (Ret (Inr el))" "keeps_zero (Ret (Inl x))" "keeps_zero Undef"
  by (simp_all add: keeps_zero_def)

lemma keeps_zero_obind: "(\<And>x. m = Ret x \<Longrightarrow> keeps_zero (f x)) \<Longrightarrow> keeps_zero (obind m f)"
  by (cases m) (auto simp: keeps_zero_def)

lemma keeps_zero_sbind: "(\<And>x. m = Ret (Inr x) \<Longrightarrow> keeps_zero (f x)) \<Longrightarrow> keeps_zero (sbind m f)"
  by (cases m) (auto simp: keeps_zero_def sbind_def split: sum.splits)

lemma keeps_zero_with_node:
  "v6_leaves_zero el \<Longrightarrow> (\<And>n. keeps_zero (f n el)) \<Longrightarrow> keeps_zero (with_node m f el)"
  by (auto simp: with_node_def split: option.splits)

lemma from_ly_v4_zero: "v6_leaves_zero el \<Longrightarrow> keeps_zero (from_ly_v4 R k m el)"
proof (induction k arbitrary: m el)
  case 0
  then show ?case by (cases m) auto
next
  case (Suc k)
  show ?case
  proof (cases m)
    case (Some n)
    have IH: "keeps_zero (from_ly_v4 R k (lr_list_next R n)
        (el\<lparr>if_ipv4 := (if_ipv4 el)\<lparr>i4_address := x # i4_address (if_ipv4 el)\<rparr>\<rparr>))" for x
      using Suc.prems by (intro Suc.IH) simp
    show ?thesis
      using IH by (auto simp: Some Let_def split: option.split prod.split
          intro!: keeps_zero_obind keeps_zero_sbind)
  qed (use Suc.prems in auto)
qed

lemma from_ly_v6_zero: "v6_leaves_zero el \<Longrightarrow> keeps_zero (from_ly_v6 R k m el)"
proof (induction k arbitrary: m el)
  case 0
  then show ?case by (cases m) auto
next
  case (Suc k)
  show ?case
  proof (cases m)
    case (Some n)
    have IH: "keeps_zero (from_ly_v6 R k (lr_list_next R n)
        (el\<lparr>if_ipv6 := (if_ipv6 el)\<lparr>i6_address := x # i6_address (if_ipv6 el)\<rparr>\<rparr>))" for x
      using Suc.prems by (intro Suc.IH) simp
    show ?thesis
      using IH by (auto simp: Some Let_def split: option.split prod.split intro!: keeps_zero_obind)
  qed (use Suc.prems in auto)
qed

definition yields :: "('a \<Rightarrow> bool) \<Rightarrow> 'a ly_result \<Rightarrow> bool" where
  "yields P m = (\<forall>y. m = Ret (Inr y) \<longrightarrow> P y)"

lemma yields_basic [intro]: "P y \<Longrightarrow> yields P (Ret (Inr y))" "yields P (Ret (Inl x))" "yields P Undef"
  by (simp_all add: yields_def)

lemma yields_sbind:
  "keeps_zero m \<Longrightarrow> (\<And>x. v6_leaves_zero x \<Longrightarrow> yields P (f x)) \<Longrightarrow> yields P (sbind m f)"
  by (cases m) (auto simp: yields_def keeps_zero_def sbind_def split: sum.splits)

lemma yields_option:
  "yields P x \<Longrightarrow> (\<And>a. yields P (f a)) \<Longrightarrow> yields P (case t of None \<Rightarrow> x | Some a \<Rightarrow> f a)"
  by (cases t) auto

lemma keeps_zero_option:
  "keeps_zero x \<Longrightarrow> (\<And>a. keeps_zero (f a)) \<Longrightarrow> keeps_zero (case t of None \<Rightarrow> x | Some a \<Rightarrow> f a)"
  by (cases t) auto

lemma setters_zero [simp]:
  "fst (hash_element_set_name el s) = 0" "fst (hash_element_set_type el s) = 0"
  "v6_leaves_zero (snd (hash_element_set_name el s)) = v6_leaves_zero el"
  "v6_leaves_zero (snd (hash_element_set_type el s)) = v6_leaves_zero el"
  "v6_leaves_zero (snd (hash_element_set_enabled el b)) = v6_leaves_zero el"
  by (auto simp: hash_element_set_name_def hash_element_set_type_def hash_element_set_enabled_def Let_def
      split: option.split)

lemma yields_if: "(b \<Longrightarrow> yields P x) \<Longrightarrow> (\<not> b \<Longrightarrow> yields P y) \<Longrightarrow> yields P (if b then x else y)"
  by simp

lemma from_ly_element_zero: "yields (\<lambda>y. v6_leaves_zero (fst y)) (from_ly_element R k n v)"
  unfolding from_ly_element_def Let_def split_beta setters_zero
  by (intro yields_option yields_basic yields_if yields_sbind keeps_zero_with_node keeps_zero_sbind
      keeps_zero_option keeps_zero_basic from_ly_v4_zero from_ly_v6_zero; simp)

lemma from_ly_loop_zero:
  "from_ly_loop R k fuel m v hash = Ret (e, hash') \<Longrightarrow> \<forall>el\<in>set hash. v6_leaves_zero el \<Longrightarrow>
    \<forall>el\<in>set hash'. v6_leaves_zero el"
proof (induction fuel arbitrary: m v hash)
  case 0
  then show ?case by (cases m) auto
next
  case (Suc fuel)
  show ?case
  proof (cases m)
    case None
    then show ?thesis using Suc.prems by simp
  next
    case (Some n)
    show ?thesis
    proof (cases "\<exists>el v'. from_ly_element R k n v = Ret (Inr (el, v'))")
      case True
      then obtain el v' where el: "from_ly_element R k n v = Ret (Inr (el, v'))" by blast
      then have "v6_leaves_zero el" using from_ly_element_zero [of R k n v] by (simp add: yields_def)
      then have "\<forall>x\<in>set (snd (hash_add_element hash el)). v6_leaves_zero x"
        using Suc.prems(2) by (auto simp: hash_add_element_def hash_add_def split: option.splits)
      then show ?thesis using Suc.prems(1) Suc.IH Some el by simp
    next
      case False
      then have "hash' = hash"
        using Suc.prems(1) Some
        by (cases "from_ly_element R k n v") (auto simp: obind_eq_Ret split: sum.splits)
      then show ?thesis using Suc.prems(2) by simp
    qed
  qed
qed

section \<open>Lemmas: writing\<close>

text \<open>The calls of a complete conversion, in order; a run of calls stops at the first that fails.\<close>

fun run_calls :: "ly_env \<Rightarrow> ly_call list \<Rightarrow> ly_log \<Rightarrow> int \<times> ly_log" where
  "run_calls Y [] log = (0, log)"
| "run_calls Y (c # cs) log = (if Y log c \<noteq> 0 then (-1, log @ [c]) else run_calls Y cs (log @ [c]))"

definition plan_v4_address :: "ly_ref \<Rightarrow> nat \<Rightarrow> v4_address \<Rightarrow> ly_call list" where
  "plan_v4_address c b a = Create_list c ''address'' ''ip'' (v4_ip a) #
    (case v4_subnet_type a of
       subnet_none \<Rightarrow> []
     | subnet_prefix_length \<Rightarrow> [Create_leaf (Created b) ''prefix-length''
         (case v4_subnet a of Sub_byte n \<Rightarrow> Ptr (dec (unat n)) | _ \<Rightarrow> Dangling)]
     | subnet_netmask \<Rightarrow> [Create_leaf (Created b) ''netmask''
         (case v4_subnet a of Sub_ptr s \<Rightarrow> Ptr s | Sub_byte n \<Rightarrow> (if n = 0 then Null else Dangling) | Sub_wild \<Rightarrow> Dangling)])"

definition plan_v6_address :: "ly_ref \<Rightarrow> nat \<Rightarrow> v6_address \<Rightarrow> ly_call list" where
  "plan_v6_address c b a = [Create_list c ''address'' ''ip'' (v6_ip a),
    Create_leaf (Created b) ''prefix-length'' (Ptr (dec (unat (v6_prefix_length a))))]"

definition plan_neighbor :: "ly_ref \<Rightarrow> nat \<Rightarrow> neighbor \<Rightarrow> ly_call list" where
  "plan_neighbor c b a = [Create_list c ''neighbor'' ''ip'' (ne_ip a),
    Create_leaf (Created b) ''link-layer-address'' (ne_link_layer_address a)]"

definition plan_ipv4 :: "nat \<Rightarrow> nat \<Rightarrow> ipv4 \<Rightarrow> ly_call list" where
  "plan_ipv4 n b i =
    (let c = Created b;
         head = [Create_container (Created n) ''ietf-ip:ipv4'',
           Create_leaf c ''enabled'' (Ptr (bool_str (i4_enabled i))),
           Create_leaf c ''forwarding'' (Ptr (bool_str (i4_forwarding i)))]
           @ (if i4_mtu i \<noteq> 0 then [Create_leaf c ''mtu'' (Ptr (dec (unat (i4_mtu i))))] else []);
         addrs = plan_many (plan_v4_address c) (b + length head) (i4_address i)
     in head @ addrs @ plan_many (plan_neighbor c) (b + length head + length addrs) (i4_neighbor i))"

definition plan_ipv6 :: "nat \<Rightarrow> nat \<Rightarrow> ipv6 \<Rightarrow> ly_call list" where
  "plan_ipv6 n b i =
    (let c = Created b;
         head = [Create_container (Created n) ''ietf-ip:ipv6'',
           Create_leaf c ''enabled'' (Ptr (bool_str (i6_enabled i))),
           Create_leaf c ''forwarding'' (Ptr (bool_str (i6_forwarding i)))]
           @ (if i6_mtu i \<noteq> 0 then [Create_leaf c ''mtu'' (Ptr (dec (unat (i6_mtu i))))] else []);
         addrs = plan_many (plan_v6_address c) (b + length head) (i6_address i)
     in head @ addrs @ plan_many (plan_neighbor c) (b + length head + length addrs) (i6_neighbor i))"

definition plan_interface :: "nat \<Rightarrow> interface \<Rightarrow> ly_call list" where
  "plan_interface b el =
    (let head = [Create_list Parent ''interface'' ''name'' (opt_ptr (if_name el)),
           Create_leaf (Created b) ''enabled'' (Ptr (bool_str (if_enabled el))),
           Create_leaf (Created b) ''type'' (opt_ptr (if_type el))];
         v4 = plan_ipv4 b (b + 3) (if_ipv4 el)
     in head @ v4 @ plan_ipv6 b (b + 3 + length v4) (if_ipv6 el))"

lemma run_calls_append:
  "run_calls Y (xs @ ys) log = (case run_calls Y xs log of (e, l) \<Rightarrow> if e \<noteq> 0 then (e, l) else run_calls Y ys l)"
  by (induction xs arbitrary: log) auto

lemma run_calls_ok: "run_calls Y xs log = (0, l) \<Longrightarrow> l = log @ xs"
proof (induction xs arbitrary: log)
  case (Cons x xs)
  then show ?case using Cons.IH [of "log @ [x]"] by (auto split: if_splits)
qed simp

lemma run_calls_code: "fst (run_calls Y xs log) \<in> {0, -1}"
  by (induction xs arbitrary: log) auto

text \<open>The code executes a plan: what it does from a log is the run of the plan at that position.\<close>

definition executes :: "ly_env \<Rightarrow> (ly_log \<Rightarrow> int \<times> ly_log) \<Rightarrow> (nat \<Rightarrow> ly_call list) \<Rightarrow> bool" where
  "executes Y f p = (\<forall>log. f log = run_calls Y (p (length log)) log)"

lemma executes_many:
  assumes "\<And>x. executes Y (f x) (\<lambda>b. p b x)"
  shows "executes Y (until_fail f xs) (\<lambda>b. plan_many p b xs)"
  unfolding executes_def
proof
  fix log
  show "until_fail f xs log = run_calls Y (plan_many p (length log) xs) log"
  proof (induction xs arbitrary: log)
    case (Cons x xs)
    obtain e l where fx: "run_calls Y (p (length log) x) log = (e, l)" by fastforce
    moreover from this have "e = 0 \<Longrightarrow> l = log @ p (length log) x" using run_calls_ok by blast
    ultimately show ?case
      using assms [of x] Cons.IH [of l] by (auto simp: executes_def run_calls_append)
  qed simp
qed

text \<open>Plans in sequence, the second at the position where the first ends, and one rule per macro call
  of the code.\<close>

definition pseq :: "(nat \<Rightarrow> ly_call list) \<Rightarrow> (nat \<Rightarrow> ly_call list) \<Rightarrow> nat \<Rightarrow> ly_call list" where
  "pseq p q b = p b @ q (b + length (p b))"

definition pone :: "ly_call \<Rightarrow> nat \<Rightarrow> ly_call list" where
  "pone c b = [c]"

lemma pseq_simps [simp]: "pseq (pone c) q b = c # q (Suc b)" "pseq (\<lambda>b. []) q = q" "pseq p (\<lambda>b. []) = p"
  by (auto simp: pseq_def pone_def)

lemma executes_create:
  assumes "\<And>b. executes Y (k (Created b)) (p b)"
  shows "executes Y (safe_create Y c (\<lambda>log. (-1, log)) k) (\<lambda>b. c # p b (Suc b))"
  using assms by (simp add: safe_create_def ly_do_def executes_def)

lemma executes_call:
  assumes "executes Y f p" "executes Y k q"
  shows "executes Y (safe_call f (\<lambda>log. (-1, log)) k) (pseq p q)"
  unfolding executes_def pseq_def
proof
  fix log
  obtain e l where f: "run_calls Y (p (length log)) log = (e, l)" by fastforce
  have "e = 0 \<or> e = -1" using run_calls_code [of Y "p (length log)" log] f by auto
  moreover have "e = 0 \<Longrightarrow> l = log @ p (length log)" using f run_calls_ok by blast
  ultimately show "safe_call f (\<lambda>log. (-1, log)) k log = run_calls Y (p (length log) @ q (length log + length (p (length log)))) log"
    using assms f by (auto simp: safe_call_def executes_def run_calls_append)
qed

lemma executes_leaf:
  assumes "executes Y k q"
  shows "executes Y (safe_call (ly_do Y c) (\<lambda>log. (-1, log)) k) (pseq (pone c) q)"
  using assms by (simp add: safe_call_def ly_do_def executes_def)

lemma executes_cond:
  assumes "executes Y k q"
  shows "executes Y (safe_call (\<lambda>log. if P then ly_do Y c log else (0, log)) (\<lambda>log. (-1, log)) k)
    (pseq (if P then pone c else (\<lambda>b. [])) q)"
  using assms by (simp add: safe_call_def ly_do_def executes_def)

lemma executes_done: "executes Y (\<lambda>log. (0, log)) (\<lambda>b. [])"
  by (simp add: executes_def)

lemma executes_cong: "executes Y f p \<Longrightarrow> (\<And>b. p b = q b) \<Longrightarrow> executes Y f q"
  by (simp add: executes_def)

lemma executes_v4_address: "executes Y (to_ly_v4_address Y c a) (\<lambda>b. plan_v4_address c b a)"
  unfolding to_ly_v4_address_def Let_def
  by (cases "v4_subnet_type a"; simp; rule executes_cong, (rule executes_create executes_leaf executes_done)+,
      simp add: plan_v4_address_def pone_def)

lemma executes_v6_address: "executes Y (to_ly_v6_address Y c a) (\<lambda>b. plan_v6_address c b a)"
  unfolding to_ly_v6_address_def Let_def
  by (rule executes_cong, (rule executes_create executes_leaf executes_done)+, simp add: plan_v6_address_def pone_def)

lemma executes_neighbor:
  "executes Y (to_ly_neighbor Y (tree_ipv4_neighbor c) tree_ipv4_neighbor_link_layer_address a) (\<lambda>b. plan_neighbor c b a)"
  "executes Y (to_ly_neighbor Y (tree_ipv6_neighbor c) tree_ipv6_neighbor_link_layer_address a) (\<lambda>b. plan_neighbor c b a)"
  unfolding to_ly_neighbor_def Let_def
  by (rule executes_cong, (rule executes_create executes_leaf executes_done)+, simp add: plan_neighbor_def pone_def)+

lemma plan_ipv4_seq:
  "plan_ipv4 n b i @ r (b + length (plan_ipv4 n b i)) = Create_container (Created n) ''ietf-ip:ipv4'' #
    pseq (pone (Create_leaf (Created b) ''enabled'' (Ptr (bool_str (i4_enabled i)))))
    (pseq (pone (Create_leaf (Created b) ''forwarding'' (Ptr (bool_str (i4_forwarding i)))))
    (pseq (if i4_mtu i \<noteq> 0 then pone (Create_leaf (Created b) ''mtu'' (Ptr (dec (unat (i4_mtu i))))) else (\<lambda>b. []))
    (pseq (\<lambda>b'. plan_many (plan_v4_address (Created b)) b' (i4_address i))
    (pseq (\<lambda>b'. plan_many (plan_neighbor (Created b)) b' (i4_neighbor i)) r)))) (Suc b)"
  by (cases "i4_mtu i = 0") (simp_all add: plan_ipv4_def Let_def pseq_def pone_def ac_simps)

lemma plan_ipv6_seq:
  "plan_ipv6 n b i = Create_container (Created n) ''ietf-ip:ipv6'' #
    pseq (pone (Create_leaf (Created b) ''enabled'' (Ptr (bool_str (i6_enabled i)))))
    (pseq (pone (Create_leaf (Created b) ''forwarding'' (Ptr (bool_str (i6_forwarding i)))))
    (pseq (if i6_mtu i \<noteq> 0 then pone (Create_leaf (Created b) ''mtu'' (Ptr (dec (unat (i6_mtu i))))) else (\<lambda>b. []))
    (pseq (\<lambda>b'. plan_many (plan_v6_address (Created b)) b' (i6_address i))
    (\<lambda>b'. plan_many (plan_neighbor (Created b)) b' (i6_neighbor i))))) (Suc b)"
  by (cases "i6_mtu i = 0") (simp_all add: plan_ipv6_def Let_def pseq_def pone_def ac_simps)

lemma plan_interface_seq:
  "plan_interface b el = Create_list Parent ''interface'' ''name'' (opt_ptr (if_name el)) #
     Create_leaf (Created b) ''enabled'' (Ptr (bool_str (if_enabled el))) #
     Create_leaf (Created b) ''type'' (opt_ptr (if_type el)) #
     plan_ipv4 b (Suc (Suc (Suc b))) (if_ipv4 el) @
     plan_ipv6 b (Suc (Suc (Suc b)) + length (plan_ipv4 b (Suc (Suc (Suc b))) (if_ipv4 el))) (if_ipv6 el)"
  by (simp add: plan_interface_def Let_def numeral_3_eq_3)

lemma executes_element: "executes Y (to_ly_element Y el) (\<lambda>b. plan_interface b el)"
  unfolding to_ly_element_def Let_def
  by (rule executes_cong, (rule executes_create executes_leaf executes_cond executes_call executes_many
        executes_v4_address executes_v6_address executes_neighbor executes_done)+,
      unfold tree_defs, simp only: plan_interface_seq plan_ipv4_seq [where r = "\<lambda>b'. plan_ipv6 _ b' (if_ipv6 el)"],
      simp add: plan_ipv6_seq)

lemma executes_hash: "executes Y (hash_to_ly Y h) (\<lambda>b. plan_many plan_interface b h)"
  using executes_many [of Y "to_ly_element Y" plan_interface h] executes_element
  by (simp add: hash_to_ly_def [abs_def])

section \<open>Properties\<close>

text \<open>A concrete tree for the witnesses: a node with its name, value and children; a list entry is read
  together with the siblings behind it.\<close>

datatype ynode = Ynode cstr "cstr option" "ynode list"

fun find_child :: "cstr \<Rightarrow> ynode list \<Rightarrow> (ynode \<times> ynode list) option" where
  "find_child s [] = None"
| "find_child s (Ynode nm v cs # ns) = (if nm = s then Some (Ynode nm v cs, ns) else find_child s ns)"

fun yn_child :: "ynode \<times> ynode list \<Rightarrow> cstr \<Rightarrow> (ynode \<times> ynode list) option" where
  "yn_child (Ynode nm v cs, sibs) s = find_child s cs"

fun yn_next :: "ynode \<times> ynode list \<Rightarrow> (ynode \<times> ynode list) option" where
  "yn_next (Ynode nm v cs, sibs) = find_child nm sibs"

fun yn_value :: "ynode \<times> ynode list \<Rightarrow> cstr option" where
  "yn_value (Ynode nm v cs, sibs) = v"

definition tree_reader :: "(ynode \<times> ynode list) ly_reader" where
  "tree_reader = \<lparr> lr_child_leaf = yn_child, lr_child_container = yn_child, lr_child_list = yn_child,
     lr_list_next = yn_next, lr_value = yn_value \<rparr>"

definition yleaf :: "cstr \<Rightarrow> cstr \<Rightarrow> ynode" where "yleaf n v = Ynode n (Some v) []"

definition demo_eth0 :: ynode where
  "demo_eth0 = Ynode ''interface'' None [yleaf ''name'' ''eth0'', yleaf ''type'' ''iana-if-type:ethernetCsmacd'',
     yleaf ''enabled'' ''true'',
     Ynode ''ipv4'' None [yleaf ''enabled'' ''true'', yleaf ''forwarding'' ''false'', yleaf ''mtu'' ''90'',
       Ynode ''address'' None [yleaf ''ip'' ''10.0.0.1'', yleaf ''prefix-length'' ''8''],
       Ynode ''address'' None [yleaf ''ip'' ''10.0.0.2'', yleaf ''netmask'' ''255.0.0.0'']],
     Ynode ''ipv6'' None [yleaf ''mtu'' ''90'', Ynode ''address'' None [yleaf ''ip'' ''::1'', yleaf ''prefix-length'' ''7'']]]"

definition demo_lo :: ynode where
  "demo_lo = Ynode ''interface'' None [yleaf ''name'' ''lo'', yleaf ''type'' ''iana-if-type:softwareLoopback'']"

definition demo_eth0_data :: interface where
  "demo_eth0_data = hash_element_new\<lparr>if_name := Some ''eth0'', if_type := Some ''iana-if-type:ethernetCsmacd'', if_enabled := 1,
     if_ipv4 := zero_ipv4\<lparr>i4_enabled := 1, i4_mtu := 90, i4_address :=
       [\<lparr> v4_ip = Ptr ''10.0.0.1'', v4_subnet = Sub_byte 8, v4_subnet_type = subnet_prefix_length \<rparr>,
        \<lparr> v4_ip = Ptr ''10.0.0.2'', v4_subnet = Sub_ptr ''255.0.0.0'', v4_subnet_type = subnet_netmask \<rparr>]\<rparr>,
     if_ipv6 := zero_ipv6\<lparr>i6_mtu := 90, i6_address := [\<lparr> v6_ip = Ptr ''::1'', v6_prefix_length = 7 \<rparr>]\<rparr>\<rparr>"

lemmas demo_defs = tree_reader_def yleaf_def demo_eth0_def demo_lo_def demo_eth0_data_def

lemma dec_small: "dec 90 = ''90''" "dec 8 = ''8''" "dec 7 = ''7''"
  by code_simp+

lemma chain_Some: "chain R (Some n) ns \<longleftrightarrow> (\<exists>ns'. ns = n # ns' \<and> chain R (lr_list_next R n) ns')"
  by (cases ns) (auto simp: chain_simps)

lemma chain_None: "chain R None ns \<longleftrightarrow> ns = []"
  by (cases ns) (auto simp: chain_simps)

lemma demo_eth0_shows: "node_shows tree_reader 2 (demo_eth0, ns) demo_eth0_data"
  by (simp add: node_shows_def ipv4_shows_def ipv6_shows_def v4_shows_def v6_shows_def leaf_is_def demo_defs
      zero_ipv4_def zero_ipv6_def hash_element_new_def bool_str_def chain_Some chain_None dec_small)

lemma demo_eth0_read: "hash_from_ly tree_reader 2 1 [] (Some (demo_eth0, [])) = Ret (0, [ly_normal_form demo_eth0_data])"
  using from_ly_loop_reads [of tree_reader "Some (demo_eth0, [])" "[(demo_eth0, [])]" 1 2 "[demo_eth0_data]" "[]"]
  by (simp add: hash_from_ly_def demo_eth0_shows chain_Some chain_None) (simp add: demo_defs chain_Some chain_None)

text \<open>Reading YANG data: when the list of interfaces is finite, every entry shows an interface (a
  name, a type, the flags and addresses as the writer prints them) and the names differ, the
  conversion succeeds and the hash holds, in the order of the list, exactly the name, the type, the
  flags normalised to 0 and 1, the IPv4 MTU, and the addresses with the text of their prefix
  length or netmask, in reverse order, of every interface; every other field is that of a new element.\<close>

theorem hash_from_ly_reads:
  assumes "chain R n ns" "length ns \<le> fuel" "list_all2 (node_shows R k) ns els" "distinct (map if_name els)"
  shows "hash_from_ly R k fuel [] n = Ret (0, map ly_normal_form els)"
  using from_ly_loop_reads [OF assms(1-3), of "[]"] assms(4) by (simp add: hash_from_ly_def)

theorem hash_from_ly_reads_witness:
  "hash_from_ly tree_reader 2 1 [] (Some (demo_eth0, [])) = Ret (0, [ly_normal_form demo_eth0_data])"
  by (rule hash_from_ly_reads [of _ _ "[(demo_eth0, [])]" _ _ "[demo_eth0_data]", simplified])
    (simp_all add: demo_eth0_shows chain_Some, simp add: demo_defs chain_None)

text \<open>Whatever the tree holds, no interface that was read has an IPv6 MTU, an IPv6 enabled flag or
  an IPv6 forwarding flag: the three nodes are fetched and never used, so the IPv6 settings of the
  startup data cannot reach the system.\<close>

theorem hash_from_ly_drops_ipv6_leaves:
  assumes "hash_from_ly R k fuel h n = Ret (e, hash)" "el \<in> set hash"
  shows "i6_mtu (if_ipv6 el) = 0 \<and> i6_enabled (if_ipv6 el) = 0 \<and> i6_forwarding (if_ipv6 el) = 0"
proof -
  have "from_ly_loop R k fuel n ly_locals_init [] = Ret (e, hash)"
    using assms(1) by (simp add: hash_from_ly_def split: if_splits)
  from from_ly_loop_zero [OF this] assms(2) show ?thesis by (auto simp: v6_leaves_zero_def)
qed

theorem hash_from_ly_drops_ipv6_leaves_witness:
  "i6_mtu (if_ipv6 demo_eth0_data) = 90 \<and>
   hash_from_ly tree_reader 2 1 [] (Some (demo_eth0, [])) = Ret (0, [ly_normal_form demo_eth0_data]) \<and>
   i6_mtu (if_ipv6 (ly_normal_form demo_eth0_data)) = 0"
  using hash_from_ly_drops_ipv6_leaves [OF demo_eth0_read] demo_eth0_read by (simp add: demo_eth0_data_def)

text \<open>C35. Of two interfaces, the second without an ipv4 container receives the IPv4 enabled
  and forwarding flags and the MTU of the first: the variables of the nodes are not reset between the
  interfaces.\<close>

theorem hash_from_ly_stale_ipv4:
  assumes "node_shows R k n1 el1" "lr_list_next R n1 = Some n2" "lr_list_next R n2 = None"
    and "leaf_is R n2 ''name'' s" "leaf_is R n2 ''type'' ty" "if_name el1 \<noteq> Some s"
    and "lr_child_leaf R n2 ''enabled'' = None" "lr_child_container R n2 ''ipv4'' = None" "lr_child_container R n2 ''ipv6'' = None"
  shows "hash_from_ly R k 2 [] (Some n1) = Ret (0, [ly_normal_form el1,
    hash_element_new\<lparr>if_name := Some s, if_type := Some ty, if_ipv4 := (if_ipv4 (ly_normal_form el1))\<lparr>i4_address := []\<rparr>\<rparr>])"
proof -
  obtain c4 where c4: "lr_child_container R n1 ''ipv4'' = Some c4" "ipv4_shows R c4 k (if_ipv4 el1)"
    using assms(1) by (auto simp: node_shows_def)
  let ?v = "(fetch_nodes R n1 ly_locals_init)\<lparr>ll_address := None, ll_address6 := None\<rparr>"
  have "\<exists>v'. from_ly_element R k n2 ?v = Ret (Inr (hash_element_new\<lparr>if_name := Some s, if_type := Some ty,
      if_ipv4 := (if_ipv4 (ly_normal_form el1))\<lparr>i4_address := []\<rparr>\<rparr>, v'))"
    using assms c4
    by (cases "i4_mtu (if_ipv4 el1) = 0"; cases "lr_child_container R n1 ''ipv6''")
      (auto simp: from_ly_element_def fetch_nodes_def ipv4_shows_def leaf_is_def is_true_bool_str with_node_def Let_def
        hash_element_set_name_def hash_element_set_type_def hash_element_new_def ly_locals_init_def
        ipv4_set_enabled_def ipv4_set_forwarding_def ipv4_set_mtu_def ly_normal_form_def zero_ipv4_def zero_ipv6_def)
  then show ?thesis
    using assms(2,3,6)
    by (auto simp: hash_from_ly_def numeral_2_eq_2 from_ly_element_reads [OF assms(1)] hash_add_element_def hash_add_def
        hash_find_def ly_normal_form_def)
qed

theorem hash_from_ly_stale_ipv4_witness:
  "hash_from_ly tree_reader 2 2 [] (Some (demo_eth0, [demo_lo])) = Ret (0, [ly_normal_form demo_eth0_data,
    hash_element_new\<lparr>if_name := Some ''lo'', if_type := Some ''iana-if-type:softwareLoopback'',
      if_ipv4 := zero_ipv4\<lparr>i4_enabled := 1, i4_mtu := 90\<rparr>\<rparr>])"
  by (subst hash_from_ly_stale_ipv4 [OF demo_eth0_shows, of _ "(demo_lo, [])" "''lo''" "''iana-if-type:softwareLoopback''"])
    (simp_all add: demo_defs leaf_is_def ly_normal_form_def zero_ipv4_def flag_def)

text \<open>C34. Writing YANG data: the conversion makes, in order, exactly the creation calls of the plan of
  the hash (per interface the list entry, enabled, type, the ipv4 container with its flags, a
  non-zero MTU, each address with the leaf of its subnet, each neighbor, and the same for ipv6),
  every call on the node its parent's call created, stops at the first that fails with result -1,
  and returns 0 when none fails.\<close>

theorem hash_to_ly_plan:
  "hash_to_ly Y h log = run_calls Y (plan_many plan_interface (length log) h) log"
  using executes_hash by (simp add: executes_def)

end
