(* ===== verification/IfStore.thy ===== *)
theory IfStore
  imports IfLinkChange IfLy
begin

text \<open>
  Applying the stored configuration at start-up: \<^verbatim>\<open>api/interfaces/store.c\<close>, the check before it
  (\<^verbatim>\<open>api/interfaces/check.c\<close>), and \<^verbatim>\<open>running/store.c\<close> and \<^verbatim>\<open>startup/store.c\<close>, which read the
  datastore.  It acts in the world of the change handlers.  The loops carry the local variables
  that live across their iterations, the library type and the prefix length; \<^verbatim>\<open>None\<close> is a
  variable that holds \<^verbatim>\<open>NULL\<close> or was not written yet.
\<close>

section \<open>Addresses\<close>

text \<open>The code after \<^verbatim>\<open>nl_addr_parse\<close>: the prefix length is set, the address attached and the request
  sent; both objects are given back only when that succeeded.\<close>

definition store_address :: "env \<Rightarrow> link \<Rightarrow> family \<Rightarrow> cstr \<Rightarrow> 8 word \<Rightarrow> res \<Rightarrow> res option
    \<Rightarrow> (world \<Rightarrow> (int \<times> world) outcome) \<Rightarrow> (world \<Rightarrow> (int \<times> world) outcome) \<Rightarrow> world \<Rightarrow> (int \<times> world) outcome" where
  "store_address E new_link f ip n link_addr local_addr label k =
    (let addr = With_prefixlen (Parsed ip f) n in
     safe_call (set_attr E (A_local addr)) label (
     safe_call (do_request E (Addr_add [A_local addr, A_ifindex (en_link_ifindex E new_link)] 0)) label (
       (\<lambda>w. k (release link_addr (release_opt local_addr w))))))"

text \<open>The switch over the subnet type.  A union that does not hold what the tag says, and a variable not
  yet written, have no value.\<close>

definition store_prefix :: "env \<Rightarrow> v4_address \<Rightarrow> 8 word option \<Rightarrow> 8 word option" where
  "store_prefix E a prefix_length =
    (case v4_subnet_type a of
       subnet_none \<Rightarrow> prefix_length
     | subnet_prefix_length \<Rightarrow> (case v4_subnet a of Sub_byte b \<Rightarrow> Some b | _ \<Rightarrow> None)
     | subnet_netmask \<Rightarrow>
         (case v4_subnet a of
            Sub_ptr m \<Rightarrow>
              (case ipv4_address_netmask2prefix (en_pton E) m 0 of (e, p) \<Rightarrow> if e \<noteq> 0 then prefix_length else Some p)
          | _ \<Rightarrow> None))"

fun store_ipv4 :: "env \<Rightarrow> link \<Rightarrow> (world \<Rightarrow> (int \<times> world) outcome) \<Rightarrow> (8 word option \<Rightarrow> world \<Rightarrow> (int \<times> world) outcome)
    \<Rightarrow> v4_address list \<Rightarrow> 8 word option \<Rightarrow> world \<Rightarrow> (int \<times> world) outcome" where
  "store_ipv4 E new_link label k [] prefix_length w = k prefix_length w"
| "store_ipv4 E new_link label k (a # as) prefix_length w =
    (case v4_ip a of
       Ptr ip \<Rightarrow>
         (let (link_addr, w1) = acquire R_rtnl_addr w in
          safe_out (nl_addr_parse E ip AF_INET) label (\<lambda>local_addr w2.
            let prefix' = store_prefix E a prefix_length in
            case prefix' of
              None \<Rightarrow> Undef
            | Some n \<Rightarrow> store_address E new_link AF_INET ip n link_addr local_addr label
                (\<lambda>w. store_ipv4 E new_link label k as prefix' w) w2) w1)
     | _ \<Rightarrow> Undef)"

fun store_ipv6 :: "env \<Rightarrow> link \<Rightarrow> (world \<Rightarrow> (int \<times> world) outcome) \<Rightarrow> (world \<Rightarrow> (int \<times> world) outcome)
    \<Rightarrow> v6_address list \<Rightarrow> world \<Rightarrow> (int \<times> world) outcome" where
  "store_ipv6 E new_link label k [] w = k w"
| "store_ipv6 E new_link label k (a # as) w =
    (case v6_ip a of
       Ptr ip \<Rightarrow>
         (let (link_addr, w1) = acquire R_rtnl_addr w in
          safe_out (nl_addr_parse E ip AF_INET6) label (\<lambda>local_addr w2.
            store_address E new_link AF_INET6 ip (v6_prefix_length a) link_addr local_addr label
              (\<lambda>w. store_ipv6 E new_link label k as w) w2) w1)
     | _ \<Rightarrow> Undef)"

section \<open>Interfaces\<close>

text \<open>The chain of string comparisons: any other type leaves the variable as it was.\<close>

definition store_type :: "cstr \<Rightarrow> cstr option \<Rightarrow> cstr option" where
  "store_type ty if_type_libnl =
    (if ty = ''iana-if-type:ethernetCsmacd'' then Some ''veth''
     else if ty = ''iana-if-type:softwareLoopback'' then Some ''vcan''
     else if ty = ''iana-if-type:l2vlan'' then Some ''vlan''
     else if ty = ''iana-if-type:other'' then Some ''dummy''
     else if_type_libnl)"

definition store_mtu :: "interface \<Rightarrow> 32 word" where
  "store_mtu i = (let m4 = ucast (i4_mtu (if_ipv4 i)); m6 = i6_mtu (if_ipv6 i) in if m4 < m6 then m4 else m6)"

definition store_link_attrs :: "interface \<Rightarrow> cstr \<Rightarrow> cstr option \<Rightarrow> rt_object" where
  "store_link_attrs i name if_type_libnl =
    [L_type if_type_libnl, L_name name,
     (if if_enabled i \<noteq> 0 then L_flags ''up'' else L_unset_flags ''up''),
     L_operstate (if if_enabled i \<noteq> 0 then IF_OPER_UP else IF_OPER_DOWN)]
     @ (if store_mtu i \<noteq> 0 then [L_mtu (store_mtu i)] else [])"

text \<open>The allocated link is dropped when the variable gets the link of the refilled cache.\<close>

fun store_links :: "env \<Rightarrow> (world \<Rightarrow> (int \<times> world) outcome) \<Rightarrow> (world \<Rightarrow> (int \<times> world) outcome)
    \<Rightarrow> interface list \<Rightarrow> cstr option \<Rightarrow> 8 word option \<Rightarrow> world \<Rightarrow> (int \<times> world) outcome" where
  "store_links E label k [] if_type_libnl prefix_length w = k w"
| "store_links E label k (i # is) if_type_libnl prefix_length w =
    safe_ptr (\<lambda>w. (if en_alloc E (w_trace w) then Some () else None, w)) label (\<lambda>_ w1.
      case acquire R_rtnl_link w1 of (new_link_obj, w2) \<Rightarrow>
      case (if_type i, if_name i) of
        (Some ty, Some name) \<Rightarrow>
          (let libnl = store_type ty if_type_libnl in
           safe_call (set_attr E (L_type libnl)) label (
           safe_call (do_request E (Link_add (store_link_attrs i name libnl) NLM_F_CREATE)) label (
           safe_call (\<lambda>w. (en_init E (w_trace w) ''nl_cache_refill'', w)) label (
           safe_ptr (link_get_by_name E name) label (\<lambda>new_link.
             store_ipv4 E new_link label (\<lambda>prefix'.
             store_ipv6 E new_link label (\<lambda>w.
             store_links E label k is libnl prefix' w)
               (i6_address (if_ipv6 i))) (i4_address (if_ipv4 i)) prefix_length)))) w2)
      | _ \<Rightarrow> Undef) w"

definition store_interface :: "env \<Rightarrow> interface_hash \<Rightarrow> world \<Rightarrow> (int \<times> world) outcome" where
  "store_interface E if_hash w0 =
    (let out = (\<lambda>sk error w. Ret (error, release_opt sk w)); error_out = (\<lambda>sk. out sk (-1)) in
     safe_ptr (\<lambda>w. if en_alloc E (w_trace w) then (case acquire R_socket w of (r, w1) \<Rightarrow> (Some r, w1)) else (None, w))
       (error_out None) (\<lambda>sk.
     safe_call (\<lambda>w. (en_init E (w_trace w) ''nl_connect'', w)) (error_out (Some sk)) (
     safe_call (\<lambda>w. (en_init E (w_trace w) ''rtnl_link_alloc_cache'', w)) (error_out (Some sk)) (\<lambda>w.
       store_links E (error_out (Some sk)) (out (Some sk) 0) if_hash None None (snd (acquire R_cache w))))) w0)"

section \<open>Storing a datastore\<close>

datatype check_status = check_none | check_error | check_non_existant | check_equal | check_partial

text \<open>The comparison with the system is commented out: the loop does nothing.\<close>

definition check_interface :: "interface_hash \<Rightarrow> check_status" where
  "check_interface if_hash = check_non_existant"

text \<open>\<^verbatim>\<open>interfaces_running_store_interface\<close> and \<^verbatim>\<open>interfaces_startup_store_interface\<close> are the same code
  but for a debug print.\<close>

definition store_interface_cb :: "env \<Rightarrow> 'n ly_reader \<Rightarrow> nat \<Rightarrow> 'n \<Rightarrow> world \<Rightarrow> (int \<times> world) outcome" where
  "store_interface_cb E R fuel parent_container w =
    (case lr_child_list R parent_container ''interface'' of
       None \<Rightarrow> Ret (-1, w)
     | Some node \<Rightarrow>
       obind (hash_from_ly R fuel fuel hash_new (Some node)) (\<lambda>(e, if_hash).
       let out = (\<lambda>error w'. obind (if if_hash \<noteq> [] then hash_free if_hash else Ret ([], [])) (\<lambda>_. Ret (error, w'))) in
       if e \<noteq> 0 then out (-1) w else
       case check_interface if_hash of
         check_none \<Rightarrow> out (-1) w
       | check_error \<Rightarrow> out (-1) w
       | check_non_existant \<Rightarrow> obind (store_interface E if_hash w) (\<lambda>(e2, w1). if e2 \<noteq> 0 then out (-1) w1 else out 0 w1)
       | check_equal \<Rightarrow> out 0 w
       | check_partial \<Rightarrow> out (-1) w))"

text \<open>\<^verbatim>\<open>sr_get_subtree\<close> gives an error code and the tree.\<close>

definition datastore_store :: "env \<Rightarrow> 'n ly_reader \<Rightarrow> nat \<Rightarrow> int \<times> 'n \<Rightarrow> world \<Rightarrow> (int \<times> world) outcome" where
  "datastore_store E R fuel subtree w =
    (if fst subtree \<noteq> 0 then Ret (-1, w) else
     obind (store_interface_cb E R fuel (snd subtree) w) (\<lambda>(e, w1). Ret (if e \<noteq> 0 then -1 else 0, w1)))"

definition running_store :: "env \<Rightarrow> 'n ly_reader \<Rightarrow> nat \<Rightarrow> int \<times> 'n \<Rightarrow> world \<Rightarrow> (int \<times> world) outcome" where
  "running_store E R fuel subtree w = datastore_store E R fuel subtree w"

definition startup_store :: "env \<Rightarrow> 'n ly_reader \<Rightarrow> nat \<Rightarrow> int \<times> 'n \<Rightarrow> world \<Rightarrow> (int \<times> world) outcome" where
  "startup_store E R fuel subtree w = datastore_store E R fuel subtree w"

section \<open>Lemmas\<close>

text \<open>Through every loop: a predicate of the world that acquisitions, releases and accepted requests
  preserve holds at the continuation, and at the label up to one refused request.\<close>

definition grown :: "(request \<Rightarrow> bool) \<Rightarrow> world \<Rightarrow> world \<Rightarrow> bool" where
  "grown R w0 w = (\<exists>rs. requests w = requests w0 @ rs \<and> (\<forall>(r, rc)\<in>set rs. rc = 0 \<and> R r))"

definition stopped :: "(request \<Rightarrow> bool) \<Rightarrow> world \<Rightarrow> world \<Rightarrow> bool" where
  "stopped R w0 w = (\<exists>rs. requests w = requests w0 @ rs \<and> run_ok (-1) rs \<and> (\<forall>(r, rc)\<in>set rs. R r))"

lemma grown_refl: "grown R w w"
  by (simp add: grown_def)

lemma grown_trace [simp]:
  "grown R w0 (emit (Acquire x) w) = grown R w0 w" "grown R w0 (release x w) = grown R w0 w"
  "grown R w0 (release_opt y w) = grown R w0 w"
  by (cases y; simp add: grown_def trace_simps)+

lemma grown_request: "grown R w0 w \<Longrightarrow> R r \<Longrightarrow> grown R w0 (emit (Request r 0) w)"
  by (auto simp: grown_def trace_simps)

lemma grown_stopped: "grown R w0 w \<Longrightarrow> stopped R w0 w"
  by (force simp: grown_def stopped_def run_ok_def dest: in_set_butlastD)

lemma stopped_request: "grown R w0 w \<Longrightarrow> R r \<Longrightarrow> stopped R w0 (emit (Request r rc) w)"
  by (force simp: grown_def stopped_def trace_simps run_ok_def)

lemma stopped_trace [simp]:
  "stopped R w0 (release x w) = stopped R w0 w" "stopped R w0 (release_opt y w) = stopped R w0 w"
  by (cases y; simp add: stopped_def trace_simps)+

locale store_walk =
  fixes R :: "request \<Rightarrow> bool" and w0 :: world and P :: "int \<Rightarrow> world \<Rightarrow> bool"
    and label :: "world \<Rightarrow> (int \<times> world) outcome"
  assumes address_allowed: "R (Addr_add as n)"
    and at_label: "stopped R w0 w \<Longrightarrow> post P (label w)"
begin

lemma store_address_post:
  assumes "grown R w0 w" "\<And>w. grown R w0 w \<Longrightarrow> post P (k w)"
  shows "post P (store_address E l f ip n x y label k w)"
  using assms(1) unfolding store_address_def Let_def
  by (intro post_intros at_label assms(2))
    (auto dest!: set_attrD do_requestD intro!: stopped_request grown_request address_allowed intro: grown_stopped)

lemma store_ipv4_post:
  "grown R w0 w \<Longrightarrow> (\<And>p w. grown R w0 w \<Longrightarrow> post P (k p w)) \<Longrightarrow> post P (store_ipv4 E l label k as p w)"
proof (induction as arbitrary: p w)
  case (Cons a as)
  show ?case
    using Cons.prems Cons.IH
    by (cases "v4_ip a") (auto simp: acquire_def Let_def intro!: post_intros store_address_post at_label
        dest!: nl_addr_parseD intro: grown_stopped)
qed simp

lemma store_ipv6_post:
  "grown R w0 w \<Longrightarrow> (\<And>w. grown R w0 w \<Longrightarrow> post P (k w)) \<Longrightarrow> post P (store_ipv6 E l label k as w)"
proof (induction as arbitrary: w)
  case (Cons a as)
  show ?case
    using Cons.prems Cons.IH
    by (cases "v6_ip a") (auto simp: acquire_def Let_def intro!: post_intros store_address_post at_label
        dest!: nl_addr_parseD intro: grown_stopped)
qed simp

lemma store_links_post:
  assumes "grown R w0 w" "\<And>w. grown R w0 w \<Longrightarrow> post P (k w)"
    and "\<And>i name t. i \<in> set is \<Longrightarrow> R (Link_add (store_link_attrs i name t) NLM_F_CREATE)"
  shows "post P (store_links E label k is t p w)"
  using assms
proof (induction "is" arbitrary: t p w)
  case (Cons i "is")
  have R: "R (Link_add (store_link_attrs i name t) NLM_F_CREATE)" for name t using Cons.prems(3) by simp
  have rest: "grown R w0 w \<Longrightarrow> post P (store_links E label k is t p w)" for t p w
    using Cons.prems by (intro Cons.IH) auto
  show ?case
  proof (cases "if_type i")
    case (Some ty)
    then show ?thesis
      using Cons.prems(1)
      by (cases "if_name i") (auto simp: Let_def acquire_def split: if_splits intro!: post_intros store_ipv4_post store_ipv6_post rest at_label R
          stopped_request grown_request dest!: set_attrD do_requestD link_get_by_nameD intro: grown_stopped)
  next
    case None
    then show ?thesis
      using Cons.prems(1) by (auto simp: acquire_def split: if_splits intro!: post_intros at_label intro: grown_stopped)
  qed
qed simp

end

text \<open>The two walks: no condition on the requests, and no request that sets an MTU.\<close>

definition sets_mtu :: "request \<Rightarrow> bool" where
  "sets_mtu r = (case r of
      Link_add as n \<Rightarrow> (\<exists>m. L_mtu m \<in> set as)
    | Link_change l as n \<Rightarrow> (\<exists>m. L_mtu m \<in> set as)
    | _ \<Rightarrow> False)"

definition run_from :: "(request \<Rightarrow> bool) \<Rightarrow> world \<Rightarrow> int \<Rightarrow> world \<Rightarrow> bool" where
  "run_from R w0 e w = (\<exists>rs. requests w = requests w0 @ rs \<and> run_ok e rs \<and> (\<forall>(r, rc)\<in>set rs. R r))"

lemma run_from_grown: "grown R w0 w \<Longrightarrow> run_from R w0 0 w"
  by (force simp: grown_def run_from_def run_ok_def dest: in_set_butlastD)

lemma run_from_stopped: "stopped R w0 w \<Longrightarrow> run_from R w0 (-1) w"
  by (auto simp: stopped_def run_from_def)

interpretation any_walk: store_walk "\<lambda>_. True" w0 "run_from (\<lambda>_. True) w0" "\<lambda>w. Ret (-1, release_opt sk w)" for w0 sk
  by unfold_locales (auto intro!: post_intros run_from_stopped)

interpretation mtu_walk: store_walk "\<lambda>r. \<not> sets_mtu r" w0 "run_from (\<lambda>r. \<not> sets_mtu r) w0" "\<lambda>w. Ret (-1, release_opt sk w)" for w0 sk
  by unfold_locales (auto simp: sets_mtu_def intro!: post_intros run_from_stopped)

text \<open>A complete run.\<close>

definition accepting :: "env \<Rightarrow> (cstr \<Rightarrow> link) \<Rightarrow> bool" where
  "accepting E L = ((\<forall>t. en_alloc E t) \<and> (\<forall>t s. en_init E t s = 0) \<and> (\<forall>t s f. en_parse E t s f = 0)
     \<and> (\<forall>t a. en_set E t a = 0) \<and> (\<forall>t r. en_request E t r = 0) \<and> (\<forall>t n. en_link_by_name E t n = Some (L n)))"

definition v4_storable :: "env \<Rightarrow> v4_address \<Rightarrow> bool" where
  "v4_storable E a = ((\<exists>ip. v4_ip a = Ptr ip) \<and> (\<exists>n. \<forall>p. store_prefix E a p = Some n))"

definition storable :: "env \<Rightarrow> interface \<Rightarrow> bool" where
  "storable E i = (if_name i \<noteq> None \<and> (\<exists>ty. if_type i = Some ty \<and> store_type ty None \<noteq> None)
     \<and> (\<forall>a\<in>set (i4_address (if_ipv4 i)). v4_storable E a) \<and> (\<forall>a\<in>set (i6_address (if_ipv6 i)). \<exists>ip. v6_ip a = Ptr ip))"

definition address_request :: "env \<Rightarrow> link \<Rightarrow> family \<Rightarrow> cstr \<Rightarrow> 8 word \<Rightarrow> request" where
  "address_request E l f ip n = Addr_add [A_local (With_prefixlen (Parsed ip f) n), A_ifindex (en_link_ifindex E l)] 0"

definition store_plan :: "env \<Rightarrow> (cstr \<Rightarrow> link) \<Rightarrow> interface \<Rightarrow> request list" where
  "store_plan E L i =
    (let name = the (if_name i); l = L name
     in Link_add (store_link_attrs i name (store_type (the (if_type i)) None)) NLM_F_CREATE
        # map (\<lambda>a. address_request E l AF_INET (the (ptr_opt (v4_ip a))) (the (store_prefix E a None))) (i4_address (if_ipv4 i))
        @ map (\<lambda>a. address_request E l AF_INET6 (the (ptr_opt (v6_ip a))) (v6_prefix_length a)) (i6_address (if_ipv6 i)))"

definition ok_runs :: "request list \<Rightarrow> (request \<times> int) list" where
  "ok_runs rs = map (\<lambda>r. (r, 0)) rs"

lemma ok_runs_simps [simp]: "ok_runs [] = []" "ok_runs (r # rs) = (r, 0) # ok_runs rs" "ok_runs (rs @ qs) = ok_runs rs @ ok_runs qs"
  by (simp_all add: ok_runs_def)

lemma store_address_ok:
  assumes "accepting E L"
  shows "\<exists>w'. store_address E l f ip n (R_rtnl_addr, a) (Some (R_nl_addr, b)) label k w = k w'
    \<and> requests w' = requests w @ [(address_request E l f ip n, 0)]
    \<and> held w' = remove1 (R_rtnl_addr, a) (remove1 (R_nl_addr, b) (held w))"
  using assms by (auto simp: store_address_def accepting_def run_simps trace_simps address_request_def)

lemma store_ipv4_ok:
  assumes "accepting E L"
  shows "\<forall>a\<in>set as. v4_storable E a \<Longrightarrow>
    \<exists>p' w'. store_ipv4 E l label k as p w = k p' w' \<and> held w' = held w \<and>
      requests w' = requests w @ ok_runs (map (\<lambda>a. address_request E l AF_INET (the (ptr_opt (v4_ip a))) (the (store_prefix E a None))) as)"
proof (induction as arbitrary: p w)
  case (Cons a as)
  then obtain ip n where a: "v4_ip a = Ptr ip" "\<And>p. store_prefix E a p = Some n" by (auto simp: v4_storable_def)
  let ?w2 = "emit (Acquire (R_nl_addr, Suc (length (w_trace w)))) (emit (Acquire (R_rtnl_addr, length (w_trace w))) w)"
  obtain w' where w': "store_address E l AF_INET ip n (R_rtnl_addr, length (w_trace w)) (Some (R_nl_addr, Suc (length (w_trace w))))
        label (store_ipv4 E l label k as (Some n)) ?w2 = store_ipv4 E l label k as (Some n) w'"
      "requests w' = requests ?w2 @ [(address_request E l AF_INET ip n, 0)]"
      "held w' = remove1 (R_rtnl_addr, length (w_trace w)) (remove1 (R_nl_addr, Suc (length (w_trace w))) (held ?w2))"
    using store_address_ok [OF assms] by blast
  have "store_ipv4 E l label k (a # as) p w = store_ipv4 E l label k as (Some n) w'"
    using assms w'(1) by (simp add: a accepting_def run_simps trace_simps)
  moreover have "requests w' = requests w @ [(address_request E l AF_INET ip n, 0)]" "held w' = held w"
    using w'(2,3) by (simp_all add: trace_simps)
  ultimately show ?case using Cons.IH [of "Some n" w'] Cons.prems by (auto simp: a)
qed auto

lemma store_ipv6_ok:
  assumes "accepting E L"
  shows "\<forall>a\<in>set as. \<exists>ip. v6_ip a = Ptr ip \<Longrightarrow>
    \<exists>w'. store_ipv6 E l label k as w = k w' \<and> held w' = held w \<and>
      requests w' = requests w @ ok_runs (map (\<lambda>a. address_request E l AF_INET6 (the (ptr_opt (v6_ip a))) (v6_prefix_length a)) as)"
proof (induction as arbitrary: w)
  case (Cons a as)
  then obtain ip where a: "v6_ip a = Ptr ip" by auto
  let ?w2 = "emit (Acquire (R_nl_addr, Suc (length (w_trace w)))) (emit (Acquire (R_rtnl_addr, length (w_trace w))) w)"
  obtain w' where w': "store_address E l AF_INET6 ip (v6_prefix_length a) (R_rtnl_addr, length (w_trace w)) (Some (R_nl_addr, Suc (length (w_trace w))))
        label (store_ipv6 E l label k as) ?w2 = store_ipv6 E l label k as w'"
      "requests w' = requests ?w2 @ [(address_request E l AF_INET6 ip (v6_prefix_length a), 0)]"
      "held w' = remove1 (R_rtnl_addr, length (w_trace w)) (remove1 (R_nl_addr, Suc (length (w_trace w))) (held ?w2))"
    using store_address_ok [OF assms] by blast
  have "store_ipv6 E l label k (a # as) w = store_ipv6 E l label k as w'"
    using assms w'(1) by (simp add: a accepting_def run_simps trace_simps)
  moreover have "requests w' = requests w @ [(address_request E l AF_INET6 ip (v6_prefix_length a), 0)]" "held w' = held w"
    using w'(2,3) by (simp_all add: trace_simps)
  ultimately show ?case using Cons.IH [of w'] Cons.prems by (auto simp: a)
qed auto

lemma store_type_None: "store_type ty None \<noteq> None \<Longrightarrow> store_type ty t = store_type ty None"
  by (auto simp: store_type_def split: if_splits)

lemma concat_replicate_snoc: "concat (replicate n xs) @ xs = xs @ concat (replicate n xs)"
  by (induction n) auto

lemma store_links_ok:
  assumes "accepting E L"
  shows "\<forall>i\<in>set is. storable E i \<Longrightarrow>
    \<exists>w' ids. store_links E label k is t p w = k w' \<and> requests w' = requests w @ ok_runs (concat (map (store_plan E L) is))
      \<and> held w' = ids @ held w \<and> map fst ids = concat (replicate (length is) [R_link_ref, R_rtnl_link])"
proof (induction "is" arbitrary: t p w)
  case (Cons i "is")
  then obtain ty name where i: "if_type i = Some ty" "if_name i = Some name" "store_type ty None \<noteq> None"
    and as: "\<forall>a\<in>set (i4_address (if_ipv4 i)). v4_storable E a" "\<forall>a\<in>set (i6_address (if_ipv6 i)). \<exists>ip. v6_ip a = Ptr ip"
    by (auto simp: storable_def)
  let ?lk = "Link_add (store_link_attrs i name (store_type ty None)) NLM_F_CREATE"
  let ?w1 = "emit (Request ?lk 0) (emit (Acquire (R_rtnl_link, length (w_trace w))) w)"
  let ?w2 = "emit (Acquire (R_link_ref, length (w_trace ?w1))) ?w1"
  let ?k6 = "\<lambda>p. store_links E label k is (store_type ty None) p"
  let ?k4 = "\<lambda>p. store_ipv6 E (L name) label (?k6 p) (i6_address (if_ipv6 i))"
  obtain p3 w3 where w3: "store_ipv4 E (L name) label ?k4 (i4_address (if_ipv4 i)) p ?w2 = ?k4 p3 w3" "held w3 = held ?w2"
    "requests w3 = requests ?w2 @ ok_runs (map (\<lambda>a. address_request E (L name) AF_INET (the (ptr_opt (v4_ip a))) (the (store_prefix E a None))) (i4_address (if_ipv4 i)))"
    using store_ipv4_ok [OF assms as(1), where k = ?k4 and w = ?w2 and l = "L name" and label = label and p = p] by blast
  obtain w4 where w4: "?k4 p3 w3 = ?k6 p3 w4" "held w4 = held w3"
    "requests w4 = requests w3 @ ok_runs (map (\<lambda>a. address_request E (L name) AF_INET6 (the (ptr_opt (v6_ip a))) (v6_prefix_length a)) (i6_address (if_ipv6 i)))"
    using store_ipv6_ok [OF assms as(2)] by blast
  obtain w' ids where w': "?k6 p3 w4 = k w'" "requests w' = requests w4 @ ok_runs (concat (map (store_plan E L) is))"
    "held w' = ids @ held w4" "map fst ids = concat (replicate (length is) [R_link_ref, R_rtnl_link])"
    using Cons.IH [of "store_type ty None" p3 w4] Cons.prems by auto
  have "store_links E label k (i # is) t p w = store_ipv4 E (L name) label ?k4 (i4_address (if_ipv4 i)) p ?w2"
    using assms by (simp add: i store_type_None [OF i(3), of t] accepting_def run_simps trace_simps)
  then have run: "store_links E label k (i # is) t p w = k w'" using w3(1) w4(1) w'(1) by simp
  have "requests w' = requests w @ ok_runs (concat (map (store_plan E L) (i # is)))"
    using w3(3) w4(3) w'(2) by (simp add: trace_simps store_plan_def i Let_def)
  moreover have "held w' = (ids @ [(R_link_ref, length (w_trace ?w1)), (R_rtnl_link, length (w_trace w))]) @ held w"
    using w3(2) w4(2) w'(3) by (simp add: trace_simps)
  moreover have "map fst (ids @ [(R_link_ref, length (w_trace ?w1)), (R_rtnl_link, length (w_trace w))])
      = concat (replicate (length (i # is)) [R_link_ref, R_rtnl_link])"
    using w'(4) concat_replicate_snoc [of "length is" "[R_link_ref, R_rtnl_link]"] by simp
  ultimately show ?case using run by blast
qed auto

text \<open>The whole function, up to the release of its socket.\<close>

lemma store_interface_run:
  assumes "accepting E L" "\<forall>i\<in>set h. storable E i"
  shows "\<exists>w1 ids. store_interface E h w = Ret (0, release (R_socket, length (w_trace w)) w1)
    \<and> requests w1 = requests w @ ok_runs (concat (map (store_plan E L) h))
    \<and> held w1 = ids @ (R_cache, Suc (length (w_trace w))) # (R_socket, length (w_trace w)) # held w
    \<and> map fst ids = concat (replicate (length h) [R_link_ref, R_rtnl_link])"
proof -
  let ?sk = "(R_socket, length (w_trace w))"
  let ?w1 = "snd (acquire R_cache (emit (Acquire ?sk) w))"
  obtain w' ids where w': "store_links E (\<lambda>w. Ret (-1, release_opt (Some ?sk) w)) (\<lambda>w. Ret (0, release_opt (Some ?sk) w)) h None None ?w1
      = Ret (0, release_opt (Some ?sk) w')" "requests w' = requests ?w1 @ ok_runs (concat (map (store_plan E L) h))"
    "held w' = ids @ held ?w1" "map fst ids = concat (replicate (length h) [R_link_ref, R_rtnl_link])"
    using store_links_ok [OF assms] by blast
  have "store_interface E h w = Ret (0, release ?sk w')"
    using assms(1) w'(1) by (simp add: store_interface_def accepting_def run_simps trace_simps)
  then show ?thesis using w'(2-4) by (intro exI [of _ w'] exI [of _ ids]) (simp add: trace_simps acquire_def Let_def)
qed

section \<open>Properties\<close>

text \<open>C29. When the system accepts everything and every interface has a name, a supported type and
  well-formed addresses, storing succeeds and sends exactly, per interface in order, the link with
  its attributes, its IPv4 addresses and its IPv6 addresses with their prefix lengths (a netmask
  counted to one); it leaves two link objects per interface and the link cache unreleased, and
  nothing else.\<close>

theorem store_interface_plan:
  assumes "accepting E L" "\<forall>i\<in>set h. storable E i"
  shows "\<exists>w' ids. store_interface E h w = Ret (0, w')
    \<and> requests w' = requests w @ ok_runs (concat (map (store_plan E L) h))
    \<and> held w' = ids @ held w \<and> map fst ids = concat (replicate (length h) [R_link_ref, R_rtnl_link]) @ [R_cache]"
proof -
  let ?sk = "(R_socket, length (w_trace w))" and ?cache = "(R_cache, Suc (length (w_trace w)))"
  obtain w1 ids where w1: "store_interface E h w = Ret (0, release ?sk w1)"
    "requests w1 = requests w @ ok_runs (concat (map (store_plan E L) h))" "held w1 = ids @ ?cache # ?sk # held w"
    "map fst ids = concat (replicate (length h) [R_link_ref, R_rtnl_link])"
    using store_interface_run [OF assms, of w] by blast
  have sk: "?sk \<notin> set ids"
  proof
    assume "?sk \<in> set ids"
    then have "R_socket \<in> set (map fst ids)" by force
    then show False by (auto simp: w1(4) split: if_splits)
  qed
  have "held (release ?sk w1) = (ids @ [?cache]) @ held w" "requests (release ?sk w1) = requests w1"
    using w1(3) sk by (simp_all add: trace_simps remove1_append)
  moreover have "map fst (ids @ [?cache]) = concat (replicate (length h) [R_link_ref, R_rtnl_link]) @ [R_cache]"
    using w1(4) by simp
  ultimately show ?thesis using w1(1,2) by metis
qed

definition demo_stored :: interface where
  "demo_stored = hash_element_new\<lparr>if_name := Some ''eth0'', if_type := Some ''iana-if-type:other'', if_enabled := 1,
     if_ipv4 := zero_ipv4\<lparr>i4_address :=
       [\<lparr> v4_ip = Ptr ''10.0.0.1'', v4_subnet = Sub_byte 8, v4_subnet_type = subnet_prefix_length \<rparr>,
        \<lparr> v4_ip = Ptr ''10.0.0.2'', v4_subnet = Sub_ptr ''255.255.255.0'', v4_subnet_type = subnet_netmask \<rparr>]\<rparr>,
     if_ipv6 := zero_ipv6\<lparr>i6_address := [\<lparr> v6_ip = Ptr ''::1'', v6_prefix_length = 7 \<rparr>]\<rparr>\<rparr>"

definition demo_accept :: env where
  "demo_accept = (demo_env (\<lambda>_. []))\<lparr>en_link_by_name := (\<lambda>t n. Some 2)\<rparr>"

definition demo_refuse :: env where
  "demo_refuse = (demo_env (\<lambda>_. []))\<lparr>en_request := (\<lambda>t r. -7)\<rparr>"

lemma demo_netmask: "ipv4_address_netmask2prefix (en_pton demo_accept) ''255.255.255.0'' 0 = (0, 24)"
  by (simp add: ipv4_address_netmask2prefix_def demo_accept_def demo_env_def) code_simp

lemma demo_storable: "accepting demo_accept (\<lambda>_. 2)" "storable demo_accept demo_stored"
  by (auto simp: accepting_def storable_def v4_storable_def store_prefix_def demo_netmask demo_stored_def store_type_def)
    (simp_all add: demo_accept_def demo_env_def)

theorem store_interface_plan_witness:
  "\<exists>w'. store_interface demo_accept [demo_stored] demo_world = Ret (0, w')
    \<and> requests w' = ok_runs [
        Link_add [L_type (Some ''dummy''), L_name ''eth0'', L_flags ''up'', L_operstate IF_OPER_UP] NLM_F_CREATE,
        address_request demo_accept 2 AF_INET ''10.0.0.1'' 8, address_request demo_accept 2 AF_INET ''10.0.0.2'' 24,
        address_request demo_accept 2 AF_INET6 ''::1'' 7]
    \<and> map fst (held w') = [R_link_ref, R_rtnl_link, R_cache]"
proof -
  have plan: "store_plan demo_accept (\<lambda>_. 2) demo_stored = [
        Link_add [L_type (Some ''dummy''), L_name ''eth0'', L_flags ''up'', L_operstate IF_OPER_UP] NLM_F_CREATE,
        address_request demo_accept 2 AF_INET ''10.0.0.1'' 8, address_request demo_accept 2 AF_INET ''10.0.0.2'' 24,
        address_request demo_accept 2 AF_INET6 ''::1'' 7]"
    by (simp add: store_plan_def demo_stored_def Let_def store_link_attrs_def store_type_def store_mtu_def
        store_prefix_def demo_netmask hash_element_new_def zero_ipv4_def zero_ipv6_def)
  have "held demo_world = []" by (simp add: held_def demo_world_def)
  then show ?thesis
    using store_interface_plan [OF demo_storable(1), of "[demo_stored]" demo_world] demo_storable(2)
    by (auto simp: plan)
qed

lemma demo_refused: "if_name i = Some ''eth0'' \<Longrightarrow> if_type i = Some ty \<Longrightarrow>
  \<exists>w'. store_interface demo_refuse [i] demo_world = Ret (-1, w')"
  by (simp add: store_interface_def demo_refuse_def demo_env_def run_simps trace_simps)

text \<open>Whatever the system answers, storing reports success only when every request was accepted,
  and sends nothing after a refused request.\<close>

theorem store_interface_stops:
  assumes "store_interface E h w = Ret (e, w')"
  shows "\<exists>rs. requests w' = requests w @ rs \<and> run_ok e rs"
proof -
  have "post (run_from (\<lambda>_. True) w) (store_interface E h w)"
    unfolding store_interface_def Let_def
    by (intro post_intros any_walk.store_links_post)
      (auto simp: acquire_def Let_def split: if_splits
        intro!: run_from_stopped run_from_grown grown_stopped grown_refl)
  then show ?thesis using assms by (auto simp: post_def run_from_def)
qed

theorem store_interface_stops_witness:
  "\<exists>w' rs. store_interface demo_refuse [demo_stored] demo_world = Ret (-1, w') \<and> requests w' = rs \<and> run_ok (-1) rs"
proof -
  obtain w' where w': "store_interface demo_refuse [demo_stored] demo_world = Ret (-1, w')"
    using demo_refused [of demo_stored] by (auto simp: demo_stored_def)
  from store_interface_stops [OF w'] show ?thesis using w' by simp
qed

text \<open>C31. Interfaces that were read from YANG data never have their MTU stored: the smaller of the
  two MTUs is taken, and the IPv6 one is always zero.\<close>

theorem stored_data_sets_no_mtu:
  assumes "hash_from_ly R k fuel h0 n = Ret (e0, h)" "store_interface E h w = Ret (e, w')"
  shows "\<exists>rs. requests w' = requests w @ rs \<and> (\<forall>(r, rc)\<in>set rs. \<not> sets_mtu r)"
proof -
  have "from_ly_loop R k fuel n ly_locals_init [] = Ret (e0, h)"
    using assms(1) by (simp add: hash_from_ly_def split: if_splits)
  from from_ly_loop_zero [OF this] have "\<forall>i\<in>set h. i6_mtu (if_ipv6 i) = 0" by (auto simp: v6_leaves_zero_def)
  then have no: "i \<in> set h \<Longrightarrow> \<not> sets_mtu (Link_add (store_link_attrs i name t) NLM_F_CREATE)" for i name t
    by (auto simp: sets_mtu_def store_link_attrs_def store_mtu_def Let_def word_less_def)
  have "post (run_from (\<lambda>r. \<not> sets_mtu r) w) (store_interface E h w)"
    unfolding store_interface_def Let_def
    by (intro post_intros mtu_walk.store_links_post no)
      (auto simp: acquire_def Let_def split: if_splits
        intro!: run_from_stopped run_from_grown grown_stopped grown_refl)
  then show ?thesis using assms(2) by (auto simp: post_def run_from_def)
qed

theorem stored_data_sets_no_mtu_witness:
  "\<exists>w' rs. hash_from_ly tree_reader 2 1 [] (Some (demo_eth0, [])) = Ret (0, [ly_normal_form demo_eth0_data])
    \<and> store_interface demo_refuse [ly_normal_form demo_eth0_data] demo_world = Ret (-1, w')
    \<and> requests w' = rs \<and> (\<forall>(r, rc)\<in>set rs. \<not> sets_mtu r)"
proof -
  obtain w' where w': "store_interface demo_refuse [ly_normal_form demo_eth0_data] demo_world = Ret (-1, w')"
    using demo_refused [of "ly_normal_form demo_eth0_data"] by (auto simp: ly_normal_form_def demo_eth0_data_def)
  from stored_data_sets_no_mtu [OF demo_eth0_read w'] show ?thesis using demo_eth0_read w' by auto
qed

end
