(* ===== verification/IfLoad.thy ===== *)
theory IfLoad
  imports IfLy NlEnv
begin

text \<open>
  Loading the system's interfaces into the hash: \<^verbatim>\<open>api/interfaces/load.c\<close>, the loaders below
  \<^verbatim>\<open>api/interfaces/interface\<close>, and \<^verbatim>\<open>running/load.c\<close> and \<^verbatim>\<open>startup/load.c\<close>, which
  write the hash to a datastore.  What libnl answers is the record \<^verbatim>\<open>kernel\<close>; the caches of
  addresses and neighbors are allocated again for every link and family, so their content may
  differ from call to call.  The pointers of the netlink context outlive a load, and so they are
  part of the state: an object, \<^verbatim>\<open>NULL\<close>, or an object that was freed.
\<close>

section \<open>What libnl answers\<close>

record link_obj =
  lk_name :: "cstr option"
  lk_type :: "cstr option"
  lk_operstate :: "8 word"
  lk_mtu :: "32 word"
  lk_ifindex :: int

text \<open>The strings are what \<^verbatim>\<open>nl_addr2str\<close> gives for the object's address.\<close>

record addr_obj =
  ao_ifindex :: int
  ao_family :: family
  ao_local :: "cstr option"
  ao_prefixlen :: "32 word"

record neigh_obj =
  no_ifindex :: int
  no_family :: family
  no_dst :: "cstr option"
  no_lladdr :: "cstr option"

record kernel =
  k_socket :: bool
  k_connect :: int
  k_links :: "int \<times> link_obj list"
  k_addrs :: "link_obj \<Rightarrow> family \<Rightarrow> int \<times> addr_obj list"
  k_neighs :: "link_obj \<Rightarrow> family \<Rightarrow> int \<times> neigh_obj list"

section \<open>The netlink context\<close>

datatype hptr = HNull | Live nat | Freed

record load_state =
  ls_socket :: hptr
  ls_link_cache :: hptr
  ls_addr_cache :: hptr
  ls_neigh_cache :: hptr
  ls_open :: "nat list"
  ls_next :: nat

definition alloc_obj :: "load_state \<Rightarrow> hptr \<times> load_state" where
  "alloc_obj s = (Live (ls_next s), s\<lparr>ls_open := ls_next s # ls_open s, ls_next := Suc (ls_next s)\<rparr>)"

fun free_obj :: "hptr \<Rightarrow> load_state \<Rightarrow> load_state outcome" where
  "free_obj HNull s = Ret s"
| "free_obj (Live i) s = Ret (s\<lparr>ls_open := remove1 i (ls_open s)\<rparr>)"
| "free_obj Freed s = Undef"

section \<open>Names, types and flags\<close>

definition load_name :: "interface \<Rightarrow> link_obj \<Rightarrow> int \<times> interface" where
  "load_name el lk = (case hash_element_set_name el (lk_name lk) of (e, el1) \<Rightarrow> if e \<noteq> 0 then (-1, el1) else (0, el1))"

definition load_type :: "interface \<Rightarrow> link_obj \<Rightarrow> int \<times> interface" where
  "load_type el lk =
    (case type_nl2ly (lk_type lk) of (e, ly) \<Rightarrow>
       if e \<noteq> 0 then (-1, el) else
       case hash_element_set_type el ly of (e, el1) \<Rightarrow> if e \<noteq> 0 then (-1, el1) else (0, el1))"

abbreviation IF_OPER_UNKNOWN :: "8 word" where "IF_OPER_UNKNOWN \<equiv> 0"

definition load_enabled :: "interface \<Rightarrow> link_obj \<Rightarrow> int \<times> interface" where
  "load_enabled el lk =
    (let nl_enabled = (if lk_operstate lk = IF_OPER_UP \<or> lk_operstate lk = IF_OPER_UNKNOWN then 1 else 0)
     in case hash_element_set_enabled el nl_enabled of (e, el1) \<Rightarrow> if e \<noteq> 0 then (-1, el1) else (0, el1))"

definition ipv4_load_enabled :: "ipv4 \<Rightarrow> link_obj \<Rightarrow> int \<times> ipv4" where
  "ipv4_load_enabled i lk = (case ipv4_set_enabled i 1 of (e, i1) \<Rightarrow> if e \<noteq> 0 then (-1, i1) else (0, i1))"

definition ipv4_load_forwarding :: "ipv4 \<Rightarrow> link_obj \<Rightarrow> int \<times> ipv4" where
  "ipv4_load_forwarding i lk = (0, i)"

definition ipv4_load_mtu :: "ipv4 \<Rightarrow> link_obj \<Rightarrow> int \<times> ipv4" where
  "ipv4_load_mtu i lk = (case ipv4_set_mtu i (ucast (lk_mtu lk)) of (e, i1) \<Rightarrow> if e \<noteq> 0 then (-1, i1) else (0, i1))"

definition ipv6_load_enabled :: "ipv6 \<Rightarrow> link_obj \<Rightarrow> int \<times> ipv6" where
  "ipv6_load_enabled i lk = (case ipv6_set_enabled i 1 of (e, i1) \<Rightarrow> if e \<noteq> 0 then (-1, i1) else (0, i1))"

definition ipv6_load_forwarding :: "ipv6 \<Rightarrow> link_obj \<Rightarrow> int \<times> ipv6" where
  "ipv6_load_forwarding i lk = (0, i)"

definition ipv6_load_mtu :: "ipv6 \<Rightarrow> link_obj \<Rightarrow> int \<times> ipv6" where
  "ipv6_load_mtu i lk = (case ipv6_set_mtu i (ucast (lk_mtu lk)) of (e, i1) \<Rightarrow> if e \<noteq> 0 then (-1, i1) else (0, i1))"

section \<open>Addresses and neighbors\<close>

text \<open>\<^verbatim>\<open>nl_addr2str\<close> into the 100 bytes of \<^verbatim>\<open>ip_buffer\<close>, cut at the slash.\<close>

definition ip_buffer :: "cstr \<Rightarrow> cstr" where
  "ip_buffer s = takeWhile (\<lambda>c. c \<noteq> CHR ''/'') (cbuf 100 s)"

definition fail_call :: "(int \<times> 'a) outcome \<Rightarrow> (int \<times> 'a) outcome" where
  "fail_call m = obind m (\<lambda>(e, x). Ret (if e \<noteq> 0 then -1 else 0, x))"

definition ipv4_address_load_ip :: "v4_address \<Rightarrow> addr_obj \<Rightarrow> (int \<times> v4_address) outcome" where
  "ipv4_address_load_ip el a =
    (case ao_local a of
       None \<Rightarrow> Ret (-1, el)
     | Some s \<Rightarrow> fail_call (ipv4_address_element_set_ip el (Some (ip_buffer s))))"

definition ipv4_address_load_prefix_length :: "v4_address \<Rightarrow> addr_obj \<Rightarrow> (int \<times> v4_address) outcome" where
  "ipv4_address_load_prefix_length el a =
    fail_call (Ret (ipv4_address_element_set_prefix_length el (ucast (ao_prefixlen a))))"

definition ipv6_address_load_ip :: "v6_address \<Rightarrow> addr_obj \<Rightarrow> (int \<times> v6_address) outcome" where
  "ipv6_address_load_ip el a =
    (case ao_local a of
       None \<Rightarrow> Ret (-1, el)
     | Some s \<Rightarrow> fail_call (ipv6_address_element_set_ip el (Some (ip_buffer s))))"

definition ipv6_address_load_prefix_length :: "v6_address \<Rightarrow> addr_obj \<Rightarrow> (int \<times> v6_address) outcome" where
  "ipv6_address_load_prefix_length el a =
    fail_call (Ret (ipv6_address_element_set_prefix_length el (ucast (ao_prefixlen a))))"

definition ipv4_neighbor_load_ip :: "neighbor \<Rightarrow> neigh_obj \<Rightarrow> (int \<times> neighbor) outcome" where
  "ipv4_neighbor_load_ip el n =
    (case no_dst n of
       None \<Rightarrow> Ret (-1, el)
     | Some s \<Rightarrow> fail_call (ipv4_neighbor_element_set_ip el (Some (ip_buffer s))))"

definition ipv4_neighbor_load_link_layer_address :: "neighbor \<Rightarrow> neigh_obj \<Rightarrow> (int \<times> neighbor) outcome" where
  "ipv4_neighbor_load_link_layer_address el n =
    (case no_lladdr n of
       None \<Rightarrow> Ret (-1, el)
     | Some s \<Rightarrow> fail_call (ipv4_neighbor_element_set_link_layer_address el (Some (cbuf 100 s))))"

definition ipv6_neighbor_load_ip :: "neighbor \<Rightarrow> neigh_obj \<Rightarrow> (int \<times> neighbor) outcome" where
  "ipv6_neighbor_load_ip el n =
    (case no_dst n of
       None \<Rightarrow> Ret (-1, el)
     | Some s \<Rightarrow> fail_call (ipv6_neighbor_element_set_ip el (Some (ip_buffer s))))"

definition ipv6_neighbor_load_link_layer_address :: "neighbor \<Rightarrow> neigh_obj \<Rightarrow> (int \<times> neighbor) outcome" where
  "ipv6_neighbor_load_link_layer_address el n =
    (case no_lladdr n of
       None \<Rightarrow> Ret (-1, el)
     | Some s \<Rightarrow> fail_call (ipv6_neighbor_element_set_link_layer_address el (Some (cbuf 100 s))))"

text \<open>The loop of each of the four list loaders: the objects of this link and family become
  elements, filled by two calls and prepended; on an error the unfinished element is released.
  The four copies differ in the element functions.\<close>

fun load_list :: "('o \<Rightarrow> bool) \<Rightarrow> 'e \<Rightarrow> ('e \<Rightarrow> 'o \<Rightarrow> (int \<times> 'e) outcome) \<Rightarrow> ('e \<Rightarrow> 'o \<Rightarrow> (int \<times> 'e) outcome)
    \<Rightarrow> ('e list \<Rightarrow> 'e \<Rightarrow> int \<times> 'e list) \<Rightarrow> ('e \<Rightarrow> block list outcome) \<Rightarrow> 'o list \<Rightarrow> 'e list \<Rightarrow> (int \<times> 'e list) outcome" where
  "load_list sel new ld1 ld2 add fr [] xs = Ret (0, xs)"
| "load_list sel new ld1 ld2 add fr (a # os) xs =
    (if sel a then
       obind (ld1 new a) (\<lambda>(e1, el1).
         if e1 \<noteq> 0 then obind (fr el1) (\<lambda>_. Ret (-1, xs)) else
       obind (ld2 el1 a) (\<lambda>(e2, el2).
         if e2 \<noteq> 0 then obind (fr el2) (\<lambda>_. Ret (-1, xs)) else
       case add xs el2 of (e3, xs') \<Rightarrow>
         if e3 \<noteq> 0 then obind (fr el2) (\<lambda>_. Ret (-1, xs'))
         else load_list sel new ld1 ld2 add fr os xs'))
     else load_list sel new ld1 ld2 add fr os xs)"

definition ipv4_load_address :: "kernel \<Rightarrow> link_obj \<Rightarrow> ipv4 \<Rightarrow> load_state \<Rightarrow> (int \<times> ipv4 \<times> load_state) outcome" where
  "ipv4_load_address K lk i s =
    (let i1 = i\<lparr>i4_address := []\<rparr>; (rc, os) = k_addrs K lk AF_INET
     in if rc \<noteq> 0 then Ret (-1, i1, s) else
     let (h, s1) = alloc_obj s; s2 = s1\<lparr>ls_addr_cache := h\<rparr>
     in if os = [] then Ret (-1, i1, s2) else
     obind (load_list (\<lambda>a. ao_ifindex a = lk_ifindex lk \<and> ao_family a = AF_INET) ipv4_address_element_new
         ipv4_address_load_ip ipv4_address_load_prefix_length ipv4_address_add_element ipv4_address_element_free os [])
       (\<lambda>(e, xs). Ret (e, i1\<lparr>i4_address := xs\<rparr>, s2)))"

definition ipv4_load_neighbor :: "kernel \<Rightarrow> link_obj \<Rightarrow> ipv4 \<Rightarrow> load_state \<Rightarrow> (int \<times> ipv4 \<times> load_state) outcome" where
  "ipv4_load_neighbor K lk i s =
    (let i1 = i\<lparr>i4_neighbor := []\<rparr>; (rc, os) = k_neighs K lk AF_INET
     in if rc \<noteq> 0 then Ret (-1, i1, s) else
     let (h, s1) = alloc_obj s; s2 = s1\<lparr>ls_neigh_cache := h\<rparr>
     in if os = [] then Ret (-1, i1, s2) else
     obind (load_list (\<lambda>n. no_ifindex n = lk_ifindex lk \<and> no_family n = AF_INET) neighbor_element_new
         ipv4_neighbor_load_ip ipv4_neighbor_load_link_layer_address ipv4_neighbor_add_element ipv4_neighbor_element_free os [])
       (\<lambda>(e, xs). Ret (e, i1\<lparr>i4_neighbor := xs\<rparr>, s2)))"

definition ipv6_load_address :: "kernel \<Rightarrow> link_obj \<Rightarrow> ipv6 \<Rightarrow> load_state \<Rightarrow> (int \<times> ipv6 \<times> load_state) outcome" where
  "ipv6_load_address K lk i s =
    (let i1 = i\<lparr>i6_address := []\<rparr>; (rc, os) = k_addrs K lk AF_INET6
     in if rc \<noteq> 0 then Ret (-1, i1, s) else
     let (h, s1) = alloc_obj s; s2 = s1\<lparr>ls_addr_cache := h\<rparr>
     in if os = [] then Ret (-1, i1, s2) else
     obind (load_list (\<lambda>a. ao_ifindex a = lk_ifindex lk \<and> ao_family a = AF_INET6) ipv6_address_element_new
         ipv6_address_load_ip ipv6_address_load_prefix_length ipv6_address_add_element ipv6_address_element_free os [])
       (\<lambda>(e, xs). Ret (e, i1\<lparr>i6_address := xs\<rparr>, s2)))"

definition ipv6_load_neighbor :: "kernel \<Rightarrow> link_obj \<Rightarrow> ipv6 \<Rightarrow> load_state \<Rightarrow> (int \<times> ipv6 \<times> load_state) outcome" where
  "ipv6_load_neighbor K lk i s =
    (let i1 = i\<lparr>i6_neighbor := []\<rparr>; (rc, os) = k_neighs K lk AF_INET6
     in if rc \<noteq> 0 then Ret (-1, i1, s) else
     let (h, s1) = alloc_obj s; s2 = s1\<lparr>ls_neigh_cache := h\<rparr>
     in if os = [] then Ret (-1, i1, s2) else
     obind (load_list (\<lambda>n. no_ifindex n = lk_ifindex lk \<and> no_family n = AF_INET6) neighbor_element_new
         ipv6_neighbor_load_ip ipv6_neighbor_load_link_layer_address ipv6_neighbor_add_element ipv6_neighbor_element_free os [])
       (\<lambda>(e, xs). Ret (e, i1\<lparr>i6_neighbor := xs\<rparr>, s2)))"

section \<open>All links\<close>

text \<open>A step on the element under construction and the state; the label is \<^verbatim>\<open>error_out\<close>.\<close>

type_synonym load_step = "interface \<times> load_state \<Rightarrow> (int \<times> interface \<times> load_state) outcome"

definition lstep :: "load_step \<Rightarrow> load_step \<Rightarrow> load_step" where
  "lstep f k x = obind (f x) (\<lambda>(e, x'). if e \<noteq> 0 then Ret (-1, x') else k x')"

definition on_element :: "(interface \<Rightarrow> int \<times> interface) \<Rightarrow> load_step" where
  "on_element f x = (case f (fst x) of (e, el) \<Rightarrow> Ret (e, el, snd x))"

definition on_ipv4 :: "(ipv4 \<Rightarrow> load_state \<Rightarrow> (int \<times> ipv4 \<times> load_state) outcome) \<Rightarrow> load_step" where
  "on_ipv4 f x = obind (f (if_ipv4 (fst x)) (snd x)) (\<lambda>(e, i, s). Ret (e, (fst x)\<lparr>if_ipv4 := i\<rparr>, s))"

definition on_ipv6 :: "(ipv6 \<Rightarrow> load_state \<Rightarrow> (int \<times> ipv6 \<times> load_state) outcome) \<Rightarrow> load_step" where
  "on_ipv6 f x = obind (f (if_ipv6 (fst x)) (snd x)) (\<lambda>(e, i, s). Ret (e, (fst x)\<lparr>if_ipv6 := i\<rparr>, s))"

definition load_link :: "kernel \<Rightarrow> link_obj \<Rightarrow> load_step" where
  "load_link K lk =
    lstep (on_element (\<lambda>el. load_name el lk))
    (lstep (on_element (\<lambda>el. load_type el lk))
    (lstep (on_element (\<lambda>el. load_enabled el lk))
    (lstep (on_ipv4 (\<lambda>i s. case ipv4_load_enabled i lk of (e, i1) \<Rightarrow> Ret (e, i1, s)))
    (lstep (on_ipv4 (\<lambda>i s. case ipv4_load_forwarding i lk of (e, i1) \<Rightarrow> Ret (e, i1, s)))
    (lstep (on_ipv4 (\<lambda>i s. case ipv4_load_mtu i lk of (e, i1) \<Rightarrow> Ret (e, i1, s)))
    (lstep (on_ipv6 (\<lambda>i s. case ipv6_load_enabled i lk of (e, i1) \<Rightarrow> Ret (e, i1, s)))
    (lstep (on_ipv6 (\<lambda>i s. case ipv6_load_forwarding i lk of (e, i1) \<Rightarrow> Ret (e, i1, s)))
    (lstep (on_ipv6 (\<lambda>i s. case ipv6_load_mtu i lk of (e, i1) \<Rightarrow> Ret (e, i1, s)))
    (lstep (on_ipv4 (ipv4_load_address K lk))
    (lstep (on_ipv4 (ipv4_load_neighbor K lk))
    (lstep (on_ipv6 (ipv6_load_address K lk))
    (lstep (on_ipv6 (ipv6_load_neighbor K lk))
    (\<lambda>x. Ret (0, x))))))))))))))"

fun load_links :: "kernel \<Rightarrow> link_obj list \<Rightarrow> interface_hash \<Rightarrow> load_state \<Rightarrow> (int \<times> interface_hash \<times> load_state) outcome" where
  "load_links K [] if_hash s = Ret (0, if_hash, s)"
| "load_links K (lk # lks) if_hash s =
    obind (load_link K lk (hash_element_new, s)) (\<lambda>(e, new_element, s1).
      if e \<noteq> 0 then obind (hash_element_free new_element) (\<lambda>_. Ret (-1, if_hash, s1)) else
      case hash_add_element if_hash new_element of (e2, if_hash1) \<Rightarrow>
        if e2 \<noteq> 0 then obind (hash_element_free new_element) (\<lambda>_. Ret (-1, if_hash1, s1))
        else load_links K lks if_hash1 s1)"

text \<open>The label \<^verbatim>\<open>out\<close>: the socket and the link cache are freed, and the context keeps the
  pointers.\<close>

definition load_out :: "int \<Rightarrow> interface_hash \<Rightarrow> load_state \<Rightarrow> (int \<times> interface_hash \<times> load_state) outcome" where
  "load_out e if_hash s =
    obind (free_obj (ls_socket s) s) (\<lambda>s1.
    let s2 = (if ls_socket s = HNull then s1 else s1\<lparr>ls_socket := Freed\<rparr>) in
    obind (free_obj (ls_link_cache s2) s2) (\<lambda>s3.
      Ret (e, if_hash, if ls_link_cache s2 = HNull then s3 else s3\<lparr>ls_link_cache := Freed\<rparr>)))"

definition load_interface :: "kernel \<Rightarrow> load_state \<Rightarrow> (int \<times> interface_hash \<times> load_state) outcome" where
  "load_interface K s =
    (let if_hash = hash_new in
     if \<not> k_socket K then load_out (-1) if_hash (s\<lparr>ls_socket := HNull\<rparr>) else
     let (h1, s1) = alloc_obj s; s2 = s1\<lparr>ls_socket := h1\<rparr> in
     if k_connect K \<noteq> 0 then load_out (-1) if_hash s2 else
     let (rc, links) = k_links K in
     if rc \<noteq> 0 then load_out (-1) if_hash s2 else
     let (h2, s3) = alloc_obj s2; s4 = s3\<lparr>ls_link_cache := h2\<rparr> in
     if links = [] then load_out (-1) if_hash s4 else
     obind (load_links K links if_hash s4) (\<lambda>(e, h, s5). load_out e h s5))"

section \<open>Loading a datastore\<close>

text \<open>\<^verbatim>\<open>interfaces_running_load_interface\<close> and \<^verbatim>\<open>interfaces_startup_load_interface\<close> are the same
  code: the system's interfaces become YANG data below the root node.  The log holds the creation
  calls below that node.\<close>

definition load_interface_cb :: "kernel \<Rightarrow> ly_env \<Rightarrow> load_state \<Rightarrow> ly_log \<Rightarrow> (int \<times> ly_log \<times> load_state) outcome" where
  "load_interface_cb K Y s log =
    obind (load_interface K s) (\<lambda>(e, h, s1).
      let out = (\<lambda>error log'. obind (hash_free h) (\<lambda>_. Ret (error, log', s1))) in
      if e \<noteq> 0 then out (-1) log else
      case hash_to_ly Y h log of (e2, log1) \<Rightarrow> if e2 \<noteq> 0 then out (-1) log1 else out 0 log1)"

record sr_env =
  se_connection :: bool
  se_context :: bool
  se_root :: int
  se_edit_batch :: "ly_log \<Rightarrow> int"
  se_apply :: int

datatype sr_call = Edit_batch ly_log | Apply_changes | Free_tree | Release_context

text \<open>\<^verbatim>\<open>interfaces_running_load\<close> and \<^verbatim>\<open>interfaces_startup_load\<close>, again the same code; the result
  holds the calls made on sysrepo.\<close>

definition datastore_load :: "kernel \<Rightarrow> ly_env \<Rightarrow> sr_env \<Rightarrow> load_state \<Rightarrow> (int \<times> sr_call list \<times> load_state) outcome" where
  "datastore_load K Y S s =
    (let out = (\<lambda>error root calls s'. Ret (error, calls @ (if root then [Free_tree] else []) @ [Release_context], s')) in
     if \<not> se_connection S then out (-1) False [] s else
     if \<not> se_context S then out (-1) False [] s else
     if se_root S \<noteq> 0 then out (-1) False [] s else
     obind (load_interface_cb K Y s []) (\<lambda>(e, log, s1).
       if e \<noteq> 0 then out (-1) True [] s1 else
       if se_edit_batch S log \<noteq> 0 then out (-1) True [Edit_batch log] s1 else
       if se_apply S \<noteq> 0 then out (-1) True [Edit_batch log, Apply_changes] s1 else
       out 0 True [Edit_batch log, Apply_changes] s1))"

definition running_load :: "kernel \<Rightarrow> ly_env \<Rightarrow> sr_env \<Rightarrow> load_state \<Rightarrow> (int \<times> sr_call list \<times> load_state) outcome" where
  "running_load K Y S s = datastore_load K Y S s"

definition startup_load :: "kernel \<Rightarrow> ly_env \<Rightarrow> sr_env \<Rightarrow> load_state \<Rightarrow> (int \<times> sr_call list \<times> load_state) outcome" where
  "startup_load K Y S s = datastore_load K Y S s"

section \<open>Lemmas\<close>

text \<open>What a link becomes.\<close>

definition v4_of :: "addr_obj \<Rightarrow> v4_address" where
  "v4_of a = \<lparr> v4_ip = Ptr (ip_buffer (the (ao_local a))), v4_subnet = Sub_byte (ucast (ao_prefixlen a)),
     v4_subnet_type = subnet_prefix_length \<rparr>"

definition v6_of :: "addr_obj \<Rightarrow> v6_address" where
  "v6_of a = \<lparr> v6_ip = Ptr (ip_buffer (the (ao_local a))), v6_prefix_length = ucast (ao_prefixlen a) \<rparr>"

definition neighbor_of :: "neigh_obj \<Rightarrow> neighbor" where
  "neighbor_of n = \<lparr> ne_ip = Ptr (ip_buffer (the (no_dst n))), ne_link_layer_address = Ptr (cbuf 100 (the (no_lladdr n))) \<rparr>"

definition own_addrs :: "kernel \<Rightarrow> link_obj \<Rightarrow> family \<Rightarrow> addr_obj list" where
  "own_addrs K lk f = filter (\<lambda>a. ao_ifindex a = lk_ifindex lk \<and> ao_family a = f) (snd (k_addrs K lk f))"

definition own_neighs :: "kernel \<Rightarrow> link_obj \<Rightarrow> family \<Rightarrow> neigh_obj list" where
  "own_neighs K lk f = filter (\<lambda>a. no_ifindex a = lk_ifindex lk \<and> no_family a = f) (snd (k_neighs K lk f))"

definition loaded :: "kernel \<Rightarrow> link_obj \<Rightarrow> interface" where
  "loaded K lk = hash_element_new\<lparr>if_name := lk_name lk, if_type := snd (type_nl2ly (lk_type lk)),
     if_enabled := (if lk_operstate lk \<in> {IF_OPER_UP, IF_OPER_UNKNOWN} then 1 else 0),
     if_ipv4 := zero_ipv4\<lparr>i4_enabled := 1, i4_mtu := ucast (lk_mtu lk),
       i4_address := rev (map v4_of (own_addrs K lk AF_INET)), i4_neighbor := rev (map neighbor_of (own_neighs K lk AF_INET))\<rparr>,
     if_ipv6 := zero_ipv6\<lparr>i6_enabled := 1, i6_mtu := ucast (ucast (lk_mtu lk) :: 16 word),
       i6_address := rev (map v6_of (own_addrs K lk AF_INET6)), i6_neighbor := rev (map neighbor_of (own_neighs K lk AF_INET6))\<rparr>\<rparr>"

definition lists_ok :: "kernel \<Rightarrow> link_obj \<Rightarrow> family \<Rightarrow> bool" where
  "lists_ok K lk f = (fst (k_addrs K lk f) = 0 \<and> snd (k_addrs K lk f) \<noteq> [] \<and> (\<forall>a\<in>set (own_addrs K lk f). ao_local a \<noteq> None)
     \<and> fst (k_neighs K lk f) = 0 \<and> snd (k_neighs K lk f) \<noteq> []
     \<and> (\<forall>n\<in>set (own_neighs K lk f). no_dst n \<noteq> None \<and> no_lladdr n \<noteq> None))"

definition link_ok :: "kernel \<Rightarrow> link_obj \<Rightarrow> bool" where
  "link_ok K lk = (fst (type_nl2ly (lk_type lk)) = 0 \<and> lists_ok K lk AF_INET \<and> lists_ok K lk AF_INET6)"

lemma load_list_ok:
  assumes "\<And>a. a \<in> set os \<Longrightarrow> sel a \<Longrightarrow> \<exists>el1. ld1 new a = Ret (0, el1) \<and> ld2 el1 a = Ret (0, conv a)"
    and "\<And>xs e. add xs e = (0, e # xs)"
  shows "load_list sel new ld1 ld2 add fr os xs = Ret (0, rev (map conv (filter sel os)) @ xs)"
  using assms(1)
proof (induction os arbitrary: xs)
  case (Cons a os)
  have IH: "load_list sel new ld1 ld2 add fr os ys = Ret (0, rev (map conv (filter sel os)) @ ys)" for ys
    using Cons.prems by (intro Cons.IH) simp
  show ?case
  proof (cases "sel a")
    case True
    then obtain el1 where "ld1 new a = Ret (0, el1)" "ld2 el1 a = Ret (0, conv a)"
      using Cons.prems [of a] by auto
    then show ?thesis using True IH [of "conv a # xs"] by (simp add: assms(2) [of xs "conv a"])
  qed (use IH in simp)
qed simp

lemmas loader_defs = ipv4_address_load_ip_def ipv4_address_load_prefix_length_def ipv6_address_load_ip_def
  ipv6_address_load_prefix_length_def ipv4_neighbor_load_ip_def ipv4_neighbor_load_link_layer_address_def
  ipv6_neighbor_load_ip_def ipv6_neighbor_load_link_layer_address_def fail_call_def
  ipv4_address_element_new_def ipv6_address_element_new_def neighbor_element_new_def
  ipv4_address_element_set_ip_def ipv4_address_element_set_prefix_length_def ipv6_address_element_set_ip_def
  ipv6_address_element_set_prefix_length_def ipv4_neighbor_element_set_ip_def
  ipv4_neighbor_element_set_link_layer_address_def ipv6_neighbor_element_set_ip_def
  ipv6_neighbor_element_set_link_layer_address_def ipv4_address_add_element_def ipv6_address_add_element_def
  ipv4_neighbor_add_element_def ipv6_neighbor_add_element_def set_cptr_def v4_of_def v6_of_def neighbor_of_def

text \<open>The state after a list loader: one more cache, that nobody frees.\<close>

definition with_addr_cache :: "load_state \<Rightarrow> load_state" where
  "with_addr_cache s = (snd (alloc_obj s))\<lparr>ls_addr_cache := fst (alloc_obj s)\<rparr>"

definition with_neigh_cache :: "load_state \<Rightarrow> load_state" where
  "with_neigh_cache s = (snd (alloc_obj s))\<lparr>ls_neigh_cache := fst (alloc_obj s)\<rparr>"

lemma load_lists_ok:
  assumes "lists_ok K lk AF_INET"
  shows "ipv4_load_address K lk i s = Ret (0, i\<lparr>i4_address := rev (map v4_of (own_addrs K lk AF_INET))\<rparr>, with_addr_cache s)"
    and "ipv4_load_neighbor K lk i s = Ret (0, i\<lparr>i4_neighbor := rev (map neighbor_of (own_neighs K lk AF_INET))\<rparr>, with_neigh_cache s)"
  using assms
  by (auto simp: ipv4_load_address_def ipv4_load_neighbor_def lists_ok_def Let_def split_beta alloc_obj_def
      with_addr_cache_def with_neigh_cache_def own_addrs_def own_neighs_def)
    (subst load_list_ok [where conv = v4_of], force simp: loader_defs, simp_all add: loader_defs,
     subst load_list_ok [where conv = neighbor_of], force simp: loader_defs, simp_all add: loader_defs)

lemma load_lists6_ok:
  assumes "lists_ok K lk AF_INET6"
  shows "ipv6_load_address K lk i6 s = Ret (0, i6\<lparr>i6_address := rev (map v6_of (own_addrs K lk AF_INET6))\<rparr>, with_addr_cache s)"
    and "ipv6_load_neighbor K lk i6 s = Ret (0, i6\<lparr>i6_neighbor := rev (map neighbor_of (own_neighs K lk AF_INET6))\<rparr>, with_neigh_cache s)"
  using assms
  by (auto simp: ipv6_load_address_def ipv6_load_neighbor_def lists_ok_def Let_def split_beta alloc_obj_def
      with_addr_cache_def with_neigh_cache_def own_addrs_def own_neighs_def)
    (subst load_list_ok [where conv = v6_of], force simp: loader_defs, simp_all add: loader_defs,
     subst load_list_ok [where conv = neighbor_of], force simp: loader_defs, simp_all add: loader_defs)

text \<open>The state after a link.\<close>

definition after_link :: "load_state \<Rightarrow> load_state" where
  "after_link s = with_neigh_cache (with_addr_cache (with_neigh_cache (with_addr_cache s)))"

lemma lstep_ok: "f x = Ret (0, y) \<Longrightarrow> lstep f k x = k y"
  by (cases y) (simp add: lstep_def)

lemma set_type_Some: "fst (type_nl2ly t) = 0 \<Longrightarrow> \<exists>ly. type_nl2ly t = (0, Some ly)"
  by (auto simp: type_nl2ly_def split: option.splits if_splits)

lemma load_link_ok:
  assumes "link_ok K lk"
  shows "load_link K lk (hash_element_new, s) = Ret (0, loaded K lk, after_link s)"
proof -
  obtain ly where ly: "type_nl2ly (lk_type lk) = (0, Some ly)"
    using assms set_type_Some by (auto simp: link_ok_def)
  note lists = load_lists_ok [of K lk] load_lists6_ok [of K lk]
  show ?thesis
    using assms
    by (cases "lk_name lk")
      (simp_all add: load_link_def lstep_def on_element_def on_ipv4_def on_ipv6_def lists link_ok_def ly
        load_name_def load_type_def load_enabled_def hash_element_set_name_def hash_element_set_type_def
        hash_element_set_enabled_def ipv4_load_enabled_def ipv4_load_forwarding_def ipv4_load_mtu_def
        ipv6_load_enabled_def ipv6_load_forwarding_def ipv6_load_mtu_def ipv4_set_enabled_def ipv4_set_mtu_def
        ipv6_set_enabled_def ipv6_set_mtu_def hash_element_new_def zero_ipv4_def zero_ipv6_def Let_def
        loaded_def after_link_def)
qed

lemma loaded_name [simp]: "if_name (loaded K lk) = lk_name lk"
  by (simp add: loaded_def)

lemma load_links_ok:
  assumes "\<forall>lk\<in>set lks. link_ok K lk" "distinct (map if_name hash @ map lk_name lks)"
  shows "load_links K lks hash s = Ret (0, hash @ map (loaded K) lks, (after_link ^^ length lks) s)"
  using assms
proof (induction lks arbitrary: hash s)
  case (Cons lk lks)
  have "hash_add_element hash (loaded K lk) = (0, hash @ [loaded K lk])"
    using Cons.prems(2) by (auto simp: hash_add_element_def hash_add_def hash_find_None_iff split: option.split
        dest: hash_find_SomeD)
  then show ?case
    using Cons.prems Cons.IH [of "hash @ [loaded K lk]" "after_link s"]
    by (simp add: load_link_ok funpow_swap1)
qed simp

lemma after_link_simps:
  "ls_open (after_link s) = [ls_next s + 3, ls_next s + 2, ls_next s + 1, ls_next s] @ ls_open s"
  "ls_next (after_link s) = ls_next s + 4" "ls_socket (after_link s) = ls_socket s"
  "ls_link_cache (after_link s) = ls_link_cache s"
  by (simp_all add: after_link_def with_addr_cache_def with_neigh_cache_def alloc_obj_def)

lemma after_link_open:
  "\<exists>ids. ls_open ((after_link ^^ n) s) = ids @ ls_open s \<and> length ids = 4 * n \<and> (\<forall>i\<in>set ids. ls_next s \<le> i)
    \<and> ls_next ((after_link ^^ n) s) = ls_next s + 4 * n
    \<and> ls_socket ((after_link ^^ n) s) = ls_socket s \<and> ls_link_cache ((after_link ^^ n) s) = ls_link_cache s"
proof (induction n)
  case (Suc n)
  then obtain ids where ids: "ls_open ((after_link ^^ n) s) = ids @ ls_open s" "length ids = 4 * n"
    "\<forall>i\<in>set ids. ls_next s \<le> i" "ls_next ((after_link ^^ n) s) = ls_next s + 4 * n"
    "ls_socket ((after_link ^^ n) s) = ls_socket s" "ls_link_cache ((after_link ^^ n) s) = ls_link_cache s" by blast
  let ?m = "ls_next s + 4 * n"
  show ?case
    by (rule exI [of _ "[?m + 3, ?m + 2, ?m + 1, ?m] @ ids"])
      (use ids in \<open>auto simp: after_link_simps\<close>)
qed auto


text \<open>And back: what a successful load says of the answers.\<close>

lemma lstep_0E:
  assumes "lstep f k x = Ret (0, y)"
  obtains x' where "f x = Ret (0, x')" "k x' = Ret (0, y)"
  using assms by (auto simp: lstep_def obind_eq_Ret split: if_splits prod.splits)

lemma load_list_sound:
  assumes "load_list sel new ld1 ld2 add fr os xs = Ret (0, ys)" "a \<in> set os" "sel a"
  shows "\<exists>el1 el2. ld1 new a = Ret (0, el1) \<and> ld2 el1 a = Ret (0, el2)"
  using assms
proof (induction os arbitrary: xs)
  case (Cons o' os)
  show ?case
  proof (cases "sel o'")
    case True
    then obtain el1 el2 ys' where "ld1 new o' = Ret (0, el1)" "ld2 el1 o' = Ret (0, el2)"
        "load_list sel new ld1 ld2 add fr os ys' = Ret (0, ys)"
      using Cons.prems by (auto simp: obind_eq_Ret split: if_splits prod.splits)
    then show ?thesis using Cons by auto
  next
    case False
    then show ?thesis using Cons by auto
  qed
qed simp

lemma load_lists_sound:
  "ipv4_load_address K lk i s = Ret (0, y) \<Longrightarrow> fst (k_addrs K lk AF_INET) = 0 \<and> snd (k_addrs K lk AF_INET) \<noteq> []
     \<and> (\<forall>a\<in>set (own_addrs K lk AF_INET). ao_local a \<noteq> None)"
  "ipv4_load_neighbor K lk i s = Ret (0, y) \<Longrightarrow> fst (k_neighs K lk AF_INET) = 0 \<and> snd (k_neighs K lk AF_INET) \<noteq> []
     \<and> (\<forall>n\<in>set (own_neighs K lk AF_INET). no_dst n \<noteq> None \<and> no_lladdr n \<noteq> None)"
  "ipv6_load_address K lk i6 s = Ret (0, y6) \<Longrightarrow> fst (k_addrs K lk AF_INET6) = 0 \<and> snd (k_addrs K lk AF_INET6) \<noteq> []
     \<and> (\<forall>a\<in>set (own_addrs K lk AF_INET6). ao_local a \<noteq> None)"
  "ipv6_load_neighbor K lk i6 s = Ret (0, y6) \<Longrightarrow> fst (k_neighs K lk AF_INET6) = 0 \<and> snd (k_neighs K lk AF_INET6) \<noteq> []
     \<and> (\<forall>n\<in>set (own_neighs K lk AF_INET6). no_dst n \<noteq> None \<and> no_lladdr n \<noteq> None)"
  by (auto simp: ipv4_load_address_def ipv4_load_neighbor_def ipv6_load_address_def ipv6_load_neighbor_def
      own_addrs_def own_neighs_def obind_eq_Ret Let_def split_beta loader_defs split: if_splits option.splits
      dest!: load_list_sound)

lemma on_sound:
  "on_ipv4 f x = Ret (0, x') \<Longrightarrow> \<exists>y. f (if_ipv4 (fst x)) (snd x) = Ret (0, y)"
  "on_ipv6 f6 x = Ret (0, x') \<Longrightarrow> \<exists>y. f6 (if_ipv6 (fst x)) (snd x) = Ret (0, y)"
  by (auto simp: on_ipv4_def on_ipv6_def obind_eq_Ret)

lemma load_link_sound:
  assumes "load_link K lk (hash_element_new, s) = Ret (0, y)"
  shows "link_ok K lk"
  using assms unfolding load_link_def
  by (elim lstep_0E)
    (auto simp: link_ok_def lists_ok_def on_element_def load_type_def split: prod.splits if_splits
      dest!: on_sound load_lists_sound)

lemma load_links_sound:
  assumes "load_links K lks hash s = Ret (0, h, s')" "distinct (map if_name hash)"
  shows "(\<forall>lk\<in>set lks. link_ok K lk) \<and> distinct (map if_name hash @ map lk_name lks)"
  using assms
proof (induction lks arbitrary: hash s)
  case (Cons lk lks)
  then obtain y where y: "load_link K lk (hash_element_new, s) = Ret (0, y)"
    by (auto simp: obind_eq_Ret split: if_splits)
  then have lk: "link_ok K lk" by (rule load_link_sound)
  have add: "fst (hash_add_element hash (loaded K lk)) = 0"
    and r: "load_links K lks (snd (hash_add_element hash (loaded K lk))) (after_link s) = Ret (0, h, s')"
    using Cons.prems(1) by (auto simp: load_link_ok [OF lk] obind_eq_Ret split: if_splits prod.splits)
  then have new: "lk_name lk \<notin> if_name ` set hash" "snd (hash_add_element hash (loaded K lk)) = hash @ [loaded K lk]"
    by (auto simp: hash_add_element_def hash_add_def hash_find_None_iff split: option.splits)
  have "distinct (map if_name (hash @ [loaded K lk]))" using new Cons.prems(2) by auto
  from Cons.IH [OF r [unfolded new(2)] this] show ?case using lk by auto
qed simp

text \<open>The system can be read: the socket works, there is a link, every link's type has a YANG
  counterpart, and for every link and family the caches can be read, are not empty, and the
  objects of the link have printable addresses.\<close>

definition readable :: "kernel \<Rightarrow> link_obj list \<Rightarrow> bool" where
  "readable K lks = (k_socket K \<and> k_connect K = 0 \<and> k_links K = (0, lks) \<and> lks \<noteq> [] \<and> (\<forall>lk\<in>set lks. link_ok K lk))"

text \<open>The state with the socket and the link cache of a load.\<close>

definition opened :: "load_state \<Rightarrow> load_state" where
  "opened s = s\<lparr>ls_socket := Live (ls_next s), ls_open := Suc (ls_next s) # ls_next s # ls_open s,
     ls_next := Suc (Suc (ls_next s)), ls_link_cache := Live (Suc (ls_next s))\<rparr>"

lemma load_interface_run:
  assumes "readable K lks" "distinct (map lk_name lks)"
  shows "load_interface K s = load_out 0 (map (loaded K) lks) ((after_link ^^ length lks) (opened s))"
  using load_links_ok [of lks K "[]" "opened s"] assms
  by (simp add: load_interface_def readable_def alloc_obj_def hash_new_def Let_def opened_def)

lemma free_obj_cache: "free_obj p s = Ret s1 \<Longrightarrow> ls_link_cache s1 = ls_link_cache s"
  by (cases p) auto

lemma load_out_cache: "load_out e h t = Ret (e', h', s') \<Longrightarrow> ls_link_cache t = Live i \<Longrightarrow> ls_link_cache s' = Freed"
  unfolding load_out_def by (cases "free_obj (ls_socket t) t") (auto simp: Let_def dest!: free_obj_cache split: if_splits)

lemma load_interface_success:
  assumes "load_interface K s = Ret (0, h, s')"
  obtains lks t i where "k_socket K" "k_connect K = 0" "k_links K = (0, lks)" "lks \<noteq> []" "\<forall>lk\<in>set lks. link_ok K lk"
    "distinct (map lk_name lks)" "h = map (loaded K) lks" "ls_link_cache t = Live i" "load_out 0 h t = Ret (0, h, s')"
proof -
  have out: "e = 0 \<and> h' = h" if "load_out e h' t = Ret (0, h, s')" for e h' t
    using that by (auto simp: load_out_def obind_eq_Ret Let_def)
  obtain rc lks where lks: "k_links K = (rc, lks)" by fastforce
  let ?t = "opened s"
  have base: "k_socket K" "k_connect K = 0" "rc = 0" "lks \<noteq> []"
    using assms lks by (auto simp: load_interface_def alloc_obj_def Let_def split: if_splits dest: out)
  then have "obind (load_links K lks [] ?t) (\<lambda>(e, h, s5). load_out e h s5) = Ret (0, h, s')"
    using assms lks by (simp add: load_interface_def alloc_obj_def hash_new_def Let_def opened_def)
  then obtain t' where links: "load_links K lks [] ?t = Ret (0, h, t')" "load_out 0 h t' = Ret (0, h, s')"
    by (auto simp: obind_eq_Ret dest: out)
  from load_links_sound [OF links(1)] have ok: "\<forall>lk\<in>set lks. link_ok K lk" "distinct (map lk_name lks)" by auto
  with load_links_ok [of lks K "[]" ?t] links have "h = map (loaded K) lks" "t' = (after_link ^^ length lks) ?t" by auto
  moreover have "ls_link_cache ((after_link ^^ length lks) ?t) = Live (Suc (ls_next s))"
    using after_link_open [of "length lks" ?t] by (auto simp: opened_def)
  ultimately show thesis using that base lks ok links(2) by auto
qed

text \<open>A load that reports success: the system it read and the calls on sysrepo.\<close>

lemma load_cb_plan:
  assumes "load_interface_cb K Y s [] = Ret (0, log, s')"
  shows "\<exists>lks. readable K lks \<and> distinct (map lk_name lks) \<and> log = plan_many plan_interface 0 (map (loaded K) lks)"
proof -
  obtain h t where h: "load_interface K s = Ret (0, h, t)" "hash_to_ly Y h [] = (0, log)"
    using assms by (auto simp: load_interface_cb_def Let_def obind_eq_Ret split: if_splits prod.splits)
  from h(1) obtain lks where "readable K lks" "distinct (map lk_name lks)" "h = map (loaded K) lks"
    by (rule load_interface_success) (auto simp: readable_def)
  moreover have "log = plan_many plan_interface 0 h"
    using h(2) executes_hash [of Y h] by (auto simp: executes_def dest: run_calls_ok)
  ultimately show ?thesis by blast
qed

lemma running_load_calls:
  assumes "running_load K Y S s = Ret (0, calls, s')"
  obtains lks log where "readable K lks" "distinct (map lk_name lks)" "log = plan_many plan_interface 0 (map (loaded K) lks)"
    "calls = [Edit_batch log, Apply_changes, Free_tree, Release_context]" "se_edit_batch S log = 0" "se_apply S = 0"
proof -
  obtain log where log: "load_interface_cb K Y s [] = Ret (0, log, s')" "se_edit_batch S log = 0" "se_apply S = 0"
    "calls = [Edit_batch log, Apply_changes, Free_tree, Release_context]"
    using assms by (auto simp: running_load_def datastore_load_def Let_def obind_eq_Ret split: if_splits)
  with load_cb_plan [OF log(1)] show thesis using that by blast
qed

section \<open>Properties\<close>


definition demo_link :: link_obj where
  "demo_link = \<lparr> lk_name = Some ''eth0'', lk_type = Some ''veth'', lk_operstate = IF_OPER_UP, lk_mtu = 1500, lk_ifindex = 2 \<rparr>"

definition demo_kernel :: kernel where
  "demo_kernel = \<lparr> k_socket = True, k_connect = 0, k_links = (0, [demo_link]),
     k_addrs = (\<lambda>_ f. (0, [\<lparr> ao_ifindex = 1, ao_family = f, ao_local = None, ao_prefixlen = 8 \<rparr>,
       \<lparr> ao_ifindex = 2, ao_family = AF_INET, ao_local = Some ''10.0.0.1/24'', ao_prefixlen = 24 \<rparr>])),
     k_neighs = (\<lambda>_ f. (0, [\<lparr> no_ifindex = 2, no_family = AF_INET, no_dst = Some ''10.0.0.7'', no_lladdr = Some ''aa:bb'' \<rparr>])) \<rparr>"

definition demo_state :: load_state where
  "demo_state = \<lparr> ls_socket = HNull, ls_link_cache = HNull, ls_addr_cache = HNull, ls_neigh_cache = HNull, ls_open = [], ls_next = 0 \<rparr>"

lemma demo_link_ok: "link_ok demo_kernel demo_link"
  by (simp add: link_ok_def lists_ok_def own_addrs_def own_neighs_def demo_kernel_def demo_link_def type_nl2ly_def)

lemma demo_own: "own_addrs demo_kernel demo_link AF_INET = [\<lparr> ao_ifindex = 2, ao_family = AF_INET, ao_local = Some ''10.0.0.1/24'', ao_prefixlen = 24 \<rparr>]"
  by (simp add: own_addrs_def demo_kernel_def demo_link_def)

lemma demo_readable: "readable demo_kernel [demo_link]"
  by (simp add: readable_def demo_link_ok) (simp add: demo_kernel_def)

lemma demo_run: "\<exists>s'. load_interface demo_kernel demo_state = Ret (0, [loaded demo_kernel demo_link], s')"
  by (simp add: load_interface_run [OF demo_readable] load_out_def after_link_def with_addr_cache_def
      with_neigh_cache_def alloc_obj_def opened_def)


text \<open>A load that succeeds found a readable system with different link names, and returned exactly
  its links.  In particular it fails on a system that has no neighbor entry at all, and on a link
  of a type without YANG counterpart.\<close>

theorem load_interface_sound:
  assumes "load_interface K s = Ret (0, h, s')"
  shows "\<exists>lks. readable K lks \<and> distinct (map lk_name lks) \<and> h = map (loaded K) lks"
  using assms by (rule load_interface_success) (auto simp: readable_def)

theorem load_interface_sound_witness:
  "\<exists>s' lks. load_interface demo_kernel demo_state = Ret (0, [loaded demo_kernel demo_link], s') \<and>
     readable demo_kernel lks \<and> [loaded demo_kernel demo_link] = map (loaded demo_kernel) lks"
proof -
  obtain s' where r: "load_interface demo_kernel demo_state = Ret (0, [loaded demo_kernel demo_link], s')"
    using demo_run by blast
  obtain lks where "readable demo_kernel lks" "[loaded demo_kernel demo_link] = map (loaded demo_kernel) lks"
    using load_interface_sound [OF r] by metis
  with r show ?thesis by (intro exI conjI) assumption+
qed

text \<open>C33. After a successful load, a load that cannot get a link cache of its own frees the old one
  again: the context still holds the pointer.\<close>

theorem load_interface_double_free:
  assumes "load_interface K s = Ret (0, h, s')"
    and "\<not> k_socket K' \<or> k_connect K' \<noteq> 0 \<or> fst (k_links K') \<noteq> 0"
  shows "load_interface K' s' = Undef"
proof -
  have "ls_link_cache s' = Freed"
    using assms(1) by (rule load_interface_success) (rule load_out_cache)
  then show ?thesis
    using assms(2) by (auto simp: load_interface_def load_out_def alloc_obj_def Let_def split: prod.split)
qed

theorem load_interface_double_free_witness:
  "\<exists>h s'. load_interface demo_kernel demo_state = Ret (0, h, s') \<and>
     load_interface (demo_kernel\<lparr>k_connect := -1\<rparr>) s' = Undef"
proof -
  obtain s' where "load_interface demo_kernel demo_state = Ret (0, [loaded demo_kernel demo_link], s')"
    using demo_run by blast
  from this load_interface_double_free [OF this, of "demo_kernel\<lparr>k_connect := -1\<rparr>"] show ?thesis by auto
qed

text \<open>C32. Whatever the result of loading a datastore, the context is given back once, as the last call, and the
  tree before it exactly when its root was made.  Before that there is no call, because the root was not
  made or the interfaces could not be loaded, or one edit with exactly the creation calls for
  the interfaces of a readable system; the edit is applied, once, exactly when it was accepted.  Success is
  reported exactly when both the edit and the apply succeeded.\<close>

theorem datastore_load_success:
  assumes "running_load K Y S s = Ret (e, calls, s')"
  shows "\<exists>edits. calls = edits @ (if se_connection S \<and> se_context S \<and> se_root S = 0 then [Free_tree] else []) @ [Release_context]
    \<and> (if edits = [] then e = -1 \<and> (se_connection S \<and> se_context S \<and> se_root S = 0 \<longrightarrow>
           (\<exists>e0 log. e0 \<noteq> 0 \<and> load_interface_cb K Y s [] = Ret (e0, log, s')))
       else \<exists>lks log. readable K lks \<and> log = plan_many plan_interface 0 (map (loaded K) lks)
         \<and> (if se_edit_batch S log \<noteq> 0 then edits = [Edit_batch log] \<and> e = -1
            else edits = [Edit_batch log, Apply_changes] \<and> e = (if se_apply S = 0 then 0 else -1)))"
proof (cases "se_connection S \<and> se_context S \<and> se_root S = 0")
  case False
  then show ?thesis
    using assms by (auto simp: running_load_def datastore_load_def split: if_splits)
next
  case True
  then obtain e1 log where l: "load_interface_cb K Y s [] = Ret (e1, log, s')"
    and c: "(e, calls) = (if e1 \<noteq> 0 then (-1, [Free_tree, Release_context])
      else if se_edit_batch S log \<noteq> 0 then (-1, [Edit_batch log, Free_tree, Release_context])
      else (if se_apply S = 0 then 0 else -1, [Edit_batch log, Apply_changes, Free_tree, Release_context]))"
    using assms by (auto simp: running_load_def datastore_load_def obind_eq_Ret Let_def split: if_splits)
  show ?thesis
  proof (cases "e1 = 0")
    case False
    then show ?thesis using True l c by (intro exI [of _ "[]"]) auto
  next
    case e1: True
    let ?edits = "if se_edit_batch S log \<noteq> 0 then [Edit_batch log] else [Edit_batch log, Apply_changes]"
    obtain lks where "readable K lks" "log = plan_many plan_interface 0 (map (loaded K) lks)"
      using load_cb_plan l e1 by blast
    then show ?thesis
      using True e1 c by (intro exI [of _ ?edits] conjI) (auto split: if_splits intro!: exI [of _ lks])
  qed
qed

lemma run_calls_accepting: "run_calls (\<lambda>_ _. 0) cs log = (0, log @ cs)"
  by (induction cs arbitrary: log) auto

definition demo_sr :: sr_env where
  "demo_sr = \<lparr> se_connection = True, se_context = True, se_root = 0, se_edit_batch = (\<lambda>_. 0), se_apply = 0 \<rparr>"

lemma demo_free: "\<exists>bs. hash_free [loaded demo_kernel demo_link] = Ret (bs, [])"
  by (simp add: hash_free_def hash_element_free_def loaded_def demo_own Let_def v4_of_def ipv4_address_free_def
      ipv4_address_element_free_def ipv4_neighbor_free_def ipv4_neighbor_element_free_def neighbor_of_def
      own_neighs_def own_addrs_def demo_kernel_def demo_link_def zero_ipv4_def zero_ipv6_def)

lemma demo_cb: "\<exists>s' log. load_interface_cb demo_kernel (\<lambda>_ _. 0) demo_state [] = Ret (0, log, s')"
proof -
  obtain s' where "load_interface demo_kernel demo_state = Ret (0, [loaded demo_kernel demo_link], s')"
    using demo_run by blast
  moreover obtain log where "hash_to_ly (\<lambda>_ _. 0) [loaded demo_kernel demo_link] [] = (0, log)"
    using executes_hash [of "\<lambda>_ _. 0" "[loaded demo_kernel demo_link]"] by (simp add: executes_def run_calls_accepting)
  moreover obtain bs where "hash_free [loaded demo_kernel demo_link] = Ret (bs, [])" using demo_free by blast
  ultimately show ?thesis by (simp add: load_interface_cb_def Let_def)
qed

lemma demo_load: "\<exists>s' log. running_load demo_kernel (\<lambda>_ _. 0) demo_sr demo_state
    = Ret (0, [Edit_batch log, Apply_changes, Free_tree, Release_context], s')"
  using demo_cb by (auto simp: running_load_def datastore_load_def demo_sr_def Let_def)

text \<open>The same system, with an edit that is refused.\<close>

theorem datastore_load_success_witness:
  "\<exists>calls s' log. running_load demo_kernel (\<lambda>_ _. 0) (demo_sr\<lparr>se_edit_batch := \<lambda>_. 5\<rparr>) demo_state = Ret (-1, calls, s')
     \<and> calls = [Edit_batch log, Free_tree, Release_context]
     \<and> (\<exists>lks. readable demo_kernel lks \<and> log = plan_many plan_interface 0 (map (loaded demo_kernel) lks))"
proof -
  let ?S = "demo_sr\<lparr>se_edit_batch := \<lambda>_. 5\<rparr>"
  obtain log s' where r: "running_load demo_kernel (\<lambda>_ _. 0) ?S demo_state = Ret (-1, [Edit_batch log, Free_tree, Release_context], s')"
    using demo_cb by (auto simp: running_load_def datastore_load_def demo_sr_def Let_def)
  from datastore_load_success [OF r] have "\<exists>lks. readable demo_kernel lks \<and> log = plan_many plan_interface 0 (map (loaded demo_kernel) lks)"
    by (auto simp: demo_sr_def split: if_splits)
  with r show ?thesis by blast
qed

end
