(* ===== verification/IfRound.thy ===== *)
theory IfRound
  imports IfStore IfLoad
begin

text \<open>
  Saving and restoring: the configuration that \<^verbatim>\<open>running_load\<close> writes, read again by
  \<^verbatim>\<open>startup_store\<close> (\<^verbatim>\<open>api/interfaces/load.c\<close>, \<^verbatim>\<open>api/interfaces/store.c\<close>,
  \<^verbatim>\<open>data/interfaces/interface.c\<close>).  What lies between the two is libyang and sysrepo: the tree that
  the creation calls made is the tree that the accessors read.  That is the locale
  \<^verbatim>\<open>created_tree\<close>; a reader that computes its answers from the log of the calls satisfies it.
\<close>

section \<open>The tree that the creation calls make\<close>

fun call_parent :: "ly_call \<Rightarrow> ly_ref" where
  "call_parent (Create_container p s) = p"
| "call_parent (Create_list p s k v) = p"
| "call_parent (Create_leaf p s v) = p"
| "call_parent (Append_leaf_list p s v) = p"

text \<open>A node's name is that of its schema node, without the module it may be given with.\<close>

definition local_name :: "cstr \<Rightarrow> cstr" where
  "local_name s = (case dropWhile (\<lambda>c. c \<noteq> CHR '':'') s of [] \<Rightarrow> s | c # cs \<Rightarrow> cs)"

fun call_name :: "ly_call \<Rightarrow> cstr" where
  "call_name (Create_container p s) = local_name s"
| "call_name (Create_list p s k v) = local_name s"
| "call_name (Create_leaf p s v) = local_name s"
| "call_name (Append_leaf_list p s v) = local_name s"

abbreviation kids :: "ly_ref \<Rightarrow> cstr \<Rightarrow> nat \<Rightarrow> ly_call list \<Rightarrow> nat list" where
  "kids \<equiv> kids_of call_parent call_name"

abbreviation enclosed :: "ly_ref \<Rightarrow> nat \<Rightarrow> ly_call list \<Rightarrow> bool" where
  "enclosed \<equiv> enclosed_of call_parent"

abbreviation sits :: "ly_log \<Rightarrow> nat \<Rightarrow> ly_call list \<Rightarrow> bool" where
  "sits \<equiv> sits_of call_parent call_name"

text \<open>The accessors on a tree whose nodes all come from the calls of a log that succeeded: a child is found by
  its name, the children of a list in the order of their creation, a list entry has a leaf for its key, and a
  leaf has the value it was created with.\<close>

locale created_tree =
  fixes R :: "'n ly_reader" and base :: 'n and nd :: "nat \<Rightarrow> 'n" and log :: ly_log
  assumes top_list: "lr_child_list R base s = map_option nd (first (kids Parent s 0 log))"
    and child_list: "i < length log \<Longrightarrow> lr_child_list R (nd i) s = map_option nd (first (kids (Created i) s 0 log))"
    and child_container: "i < length log \<Longrightarrow> lr_child_container R (nd i) s = map_option nd (first (kids (Created i) s 0 log))"
    and child_leaf: "i < length log \<Longrightarrow> (\<And>p n x. log ! i \<noteq> Create_list p n s x) \<Longrightarrow>
      lr_child_leaf R (nd i) s = map_option nd (first (kids (Created i) s 0 log))"
    and key_leaf: "i < length log \<Longrightarrow> log ! i = Create_list p n key (Ptr v) \<Longrightarrow> leaf_is R (nd i) key v"
    and list_next: "i < length log \<Longrightarrow> log ! i = Create_list p n key x \<Longrightarrow>
      lr_list_next R (nd i) = map_option nd (first (kids p (local_name n) (Suc i) (drop (Suc i) log)))"
    and leaf_value: "i < length log \<Longrightarrow> log ! i = Create_leaf p n (Ptr v) \<Longrightarrow> lr_value R (nd i) = Some v"

text \<open>The reader that answers from the log: the parent, the node of a call, or the key of an entry.\<close>

datatype log_node = Top | At nat | Key_of nat

definition log_child :: "ly_log \<Rightarrow> log_node \<Rightarrow> cstr \<Rightarrow> log_node option" where
  "log_child log n s =
    (case n of
       Top \<Rightarrow> map_option At (first (kids Parent s 0 log))
     | At i \<Rightarrow> map_option At (first (kids (Created i) s 0 log))
     | Key_of i \<Rightarrow> None)"

definition log_leaf :: "ly_log \<Rightarrow> log_node \<Rightarrow> cstr \<Rightarrow> log_node option" where
  "log_leaf log n s =
    (case n of
       At i \<Rightarrow> (case log ! i of
           Create_list p nm key v \<Rightarrow> if key = s then Some (Key_of i) else log_child log n s
         | _ \<Rightarrow> log_child log n s)
     | _ \<Rightarrow> log_child log n s)"

definition log_next :: "ly_log \<Rightarrow> log_node \<Rightarrow> log_node option" where
  "log_next log n =
    (case n of
       At i \<Rightarrow> (case log ! i of
           Create_list p nm key v \<Rightarrow> map_option At (first (kids p (local_name nm) (Suc i) (drop (Suc i) log)))
         | _ \<Rightarrow> None)
     | _ \<Rightarrow> None)"

definition log_value :: "ly_log \<Rightarrow> log_node \<Rightarrow> cstr option" where
  "log_value log n =
    (case n of
       Top \<Rightarrow> None
     | At i \<Rightarrow> (case log ! i of Create_leaf p nm v \<Rightarrow> ptr_opt v | Append_leaf_list p nm v \<Rightarrow> ptr_opt v | _ \<Rightarrow> None)
     | Key_of i \<Rightarrow> (case log ! i of Create_list p nm key v \<Rightarrow> ptr_opt v | _ \<Rightarrow> None))"

definition log_reader :: "ly_log \<Rightarrow> log_node ly_reader" where
  "log_reader log = \<lparr> lr_child_leaf = log_leaf log, lr_child_container = log_child log, lr_child_list = log_child log,
     lr_list_next = log_next log, lr_value = log_value log \<rparr>"

interpretation log_tree: created_tree "log_reader log" Top At log for log
  by unfold_locales
    (auto simp: log_reader_def log_child_def log_leaf_def log_next_def log_value_def leaf_is_def split: ly_call.split)

section \<open>Lemmas: the plans of the conversion\<close>

lemma enclosed_simps [simp]:
  "enclosed p b (plan_v4_address p b a)" "enclosed p b (plan_v6_address p b v)" "enclosed p b (plan_neighbor p b n)"
  by (auto simp: enclosed_of_def plan_v4_address_def plan_v6_address_def plan_neighbor_def split: subnet_type.split)

lemma local_names [simp]:
  "local_name ''interface'' = ''interface''" "local_name ''enabled'' = ''enabled''" "local_name ''type'' = ''type''"
  "local_name ''forwarding'' = ''forwarding''" "local_name ''mtu'' = ''mtu''" "local_name ''address'' = ''address''"
  "local_name ''neighbor'' = ''neighbor''" "local_name ''prefix-length'' = ''prefix-length''"
  "local_name ''netmask'' = ''netmask''" "local_name ''link-layer-address'' = ''link-layer-address''"
  "local_name ''ietf-ip:ipv4'' = ''ipv4''" "local_name ''ietf-ip:ipv6'' = ''ipv6''"
  by (simp_all add: local_name_def)

lemma kids_entries:
  "i < b \<Longrightarrow> kids (Created i) s b (plan_v4_address (Created i) b a) = (if s = ''address'' then [b] else [])"
  "i < b \<Longrightarrow> kids (Created i) s b (plan_v6_address (Created i) b v) = (if s = ''address'' then [b] else [])"
  "i < b \<Longrightarrow> kids (Created i) s b (plan_neighbor (Created i) b n) = (if s = ''neighbor'' then [b] else [])"
  by (auto simp: plan_v4_address_def plan_v6_address_def plan_neighbor_def split: subnet_type.split)

lemma kids_lists:
  "i < b \<Longrightarrow> kids (Created i) s b (plan_many (plan_v4_address (Created i)) b as)
      = (if s = ''address'' then starts (plan_v4_address (Created i)) b as else [])"
  "i < b \<Longrightarrow> kids (Created i) s b (plan_many (plan_v6_address (Created i)) b vs)
      = (if s = ''address'' then starts (plan_v6_address (Created i)) b vs else [])"
  "i < b \<Longrightarrow> kids (Created i) s b (plan_many (plan_neighbor (Created i)) b ns)
      = (if s = ''neighbor'' then starts (plan_neighbor (Created i)) b ns else [])"
  by (rule kids_many; simp add: kids_entries)+

text \<open>The two containers have the same shape: a head of leaves, the addresses, the neighbors.\<close>

definition plan_ip :: "nat \<Rightarrow> nat \<Rightarrow> cstr \<Rightarrow> cstr \<Rightarrow> cstr \<Rightarrow> cstr option \<Rightarrow> (nat \<Rightarrow> ly_call list) \<Rightarrow> neighbor list \<Rightarrow> ly_call list" where
  "plan_ip n b nm en fw mtu addrs ns =
    (let leaves = [Create_leaf (Created b) ''enabled'' (Ptr en), Create_leaf (Created b) ''forwarding'' (Ptr fw)]
           @ (case mtu of None \<Rightarrow> [] | Some v \<Rightarrow> [Create_leaf (Created b) ''mtu'' (Ptr v)]);
         as = addrs (Suc b + length leaves)
     in Create_container (Created n) nm # leaves @ as @ plan_many (plan_neighbor (Created b)) (Suc b + length leaves + length as) ns)"

definition mtu_text :: "'a :: len word \<Rightarrow> cstr option" where
  "mtu_text m = (if m = 0 then None else Some (dec (unat m)))"

lemma plan_ip_ipv4: "plan_ipv4 n b i = plan_ip n b ''ietf-ip:ipv4'' (bool_str (i4_enabled i)) (bool_str (i4_forwarding i))
    (mtu_text (i4_mtu i)) (\<lambda>b'. plan_many (plan_v4_address (Created b)) b' (i4_address i)) (i4_neighbor i)"
  by (simp add: plan_ipv4_def plan_ip_def mtu_text_def Let_def)

lemma plan_ip_ipv6: "plan_ipv6 n b i = plan_ip n b ''ietf-ip:ipv6'' (bool_str (i6_enabled i)) (bool_str (i6_forwarding i))
    (mtu_text (i6_mtu i)) (\<lambda>b'. plan_many (plan_v6_address (Created b)) b' (i6_address i)) (i6_neighbor i)"
  by (simp add: plan_ipv6_def plan_ip_def mtu_text_def Let_def)

definition addr_pos :: "nat \<Rightarrow> cstr option \<Rightarrow> nat" where
  "addr_pos b mtu = (case mtu of None \<Rightarrow> Suc (Suc (Suc b)) | Some v \<Rightarrow> Suc (Suc (Suc (Suc b))))"

lemma plan_ip_pos: "plan_ip n b nm en fw mtu addrs ns =
    Create_container (Created n) nm # Create_leaf (Created b) ''enabled'' (Ptr en) # Create_leaf (Created b) ''forwarding'' (Ptr fw)
    # (case mtu of None \<Rightarrow> [] | Some v \<Rightarrow> [Create_leaf (Created b) ''mtu'' (Ptr v)])
    @ addrs (addr_pos b mtu) @ plan_many (plan_neighbor (Created b)) (addr_pos b mtu + length (addrs (addr_pos b mtu))) ns"
  by (cases mtu) (simp_all add: plan_ip_def addr_pos_def Let_def)

lemma enclosed_ip_rest:
  assumes "\<And>b'. enclosed (Created b) b' (addrs b')"
  shows "enclosed (Created b) (Suc b) (tl (plan_ip n b nm en fw mtu addrs ns))"
  unfolding plan_ip_pos list.sel
  by (rule enclosed_leaf, simp, rule enclosed_leaf, simp, rule enclosed_append', simp add: enclosed_of_def split: option.split,
      rule enclosed_append', rule assms, rule enclosed_many, rule enclosed_simps, rule refl,
      simp add: addr_pos_def split: option.split)

lemma plan_ip_Cons: "plan_ip n b nm en fw mtu addrs ns = Create_container (Created n) nm # tl (plan_ip n b nm en fw mtu addrs ns)"
  by (simp add: plan_ip_def Let_def)

lemma enclosed_ip:
  assumes "\<And>b'. enclosed (Created b) b' (addrs b')"
  shows "enclosed (Created n) b (plan_ip n b nm en fw mtu addrs ns)"
  by (subst plan_ip_Cons, rule enclosed_node) (simp_all add: enclosed_ip_rest assms)

lemma enclosed_containers: "enclosed (Created n) b (plan_ipv4 n b i4)" "enclosed (Created n) b (plan_ipv6 n b i6)"
  unfolding plan_ip_ipv4 plan_ip_ipv6 by (intro enclosed_ip enclosed_many enclosed_simps)+

lemma interface_Cons:
  "plan_interface b el = Create_list Parent ''interface'' ''name'' (opt_ptr (if_name el)) # tl (plan_interface b el)"
  by (simp add: plan_interface_seq)

lemma enclosed_interface_rest: "enclosed (Created b) (Suc b) (tl (plan_interface b el))"
  unfolding plan_interface_seq list.sel
  by (intro enclosed_leaf enclosed_append') (simp_all add: enclosed_containers)

lemma enclosed_interface: "enclosed Parent b (plan_interface b el)"
  by (subst interface_Cons, rule enclosed_node) (simp_all add: enclosed_interface_rest)

text \<open>The children of a container, and of an interface.\<close>

lemma kids_ip:
  assumes "n < b" "\<And>b' s. b < b' \<Longrightarrow> kids (Created b) s b' (addrs b') = (if s = ''address'' then K b' else [])"
  shows "kids (Created b) s b (plan_ip n b nm en fw mtu addrs ns) =
    (if s = ''enabled'' then [Suc b] else if s = ''forwarding'' then [Suc (Suc b)]
     else if s = ''mtu'' then (if mtu = None then [] else [Suc (Suc (Suc b))])
     else if s = ''address'' then K (addr_pos b mtu)
     else if s = ''neighbor'' then starts (plan_neighbor (Created b)) (addr_pos b mtu + length (addrs (addr_pos b mtu))) ns else [])"
proof -
  let ?m = "case mtu of None \<Rightarrow> [] | Some v \<Rightarrow> [Create_leaf (Created b) ''mtu'' (Ptr v)]"
  have p: "b < addr_pos b mtu" "Suc (Suc (Suc (b + length ?m))) = addr_pos b mtu"
    by (simp_all add: addr_pos_def split: option.split)
  have m: "kids (Created b) s b' ?m = (if s = ''mtu'' \<and> mtu \<noteq> None then [b'] else [])" for b' s
    by (simp split: option.split)
  show ?thesis
    using assms(1) p(1) unfolding plan_ip_pos by (simp add: p(2) m assms(2) kids_lists trans_less_add1)
qed

lemma kids_container:
  assumes "i < b" "\<And>b'. enclosed (Created b) b' (addrs b')"
  shows "kids (Created i) s b (plan_ip i b nm en fw mtu addrs ns) = (if s = local_name nm then [b] else [])"
proof -
  have "kids (Created i) s (Suc b) (tl (plan_ip i b nm en fw mtu addrs ns)) = []"
    by (rule enclosed_kids [OF enclosed_ip_rest]) (use assms in auto)
  then show ?thesis by (subst plan_ip_Cons) auto
qed

lemma kids_interface:
  "kids (Created b) s b (plan_interface b el) =
    (if s = ''enabled'' then [b + 1] else if s = ''type'' then [b + 2]
     else if s = ''ipv4'' then [b + 3] else if s = ''ipv6'' then [b + 3 + length (plan_ipv4 b (b + 3) (if_ipv4 el))] else [])"
  unfolding plan_interface_seq plan_ip_ipv4 plan_ip_ipv6
  by (auto simp: kids_container enclosed_many eval_nat_numeral)

lemma kids_interfaces: "kids Parent s b (plan_many plan_interface b h) = (if s = ''interface'' then starts plan_interface b h else [])"
proof (rule kids_many)
  fix b' :: nat and el
  have "kids Parent s (Suc b') (tl (plan_interface b' el)) = []"
    using enclosed_interface_rest [of b' el] by (intro kids_none) (auto simp: enclosed_of_def within_def)
  then show "kids Parent s b' (plan_interface b' el) = (if s = ''interface'' then [b'] else [])"
    by (subst interface_Cons) auto
qed

lemma sits_ip:
  assumes "sits log b (plan_ip n b nm en fw mtu addrs ns)" "n < b" "\<And>b'. enclosed (Created b) b' (addrs b')"
  shows "sits log (addr_pos b mtu) (addrs (addr_pos b mtu))"
proof -
  let ?hds = "[Create_container (Created n) nm, Create_leaf (Created b) ''enabled'' (Ptr en), Create_leaf (Created b) ''forwarding'' (Ptr fw)]
    @ (case mtu of None \<Rightarrow> [] | Some v \<Rightarrow> [Create_leaf (Created b) ''mtu'' (Ptr v)])"
  let ?as = "addrs (addr_pos b mtu)"
  let ?ns = "plan_many (plan_neighbor (Created b)) (addr_pos b mtu + length ?as) ns"
  have len: "b + length ?hds = addr_pos b mtu" and lt: "b < addr_pos b mtu" by (simp_all add: addr_pos_def split: option.split)
  have "sits log b (?hds @ ?as @ ?ns)" using assms(1) by (simp add: plan_ip_pos)
  moreover have "call_parent ` set ?hds \<inter> within (b + length ?hds) (length (?as @ ?ns)) = {}"
    using lt assms(2) unfolding len by (auto simp: within_def split: option.splits)
  ultimately have "sits log (addr_pos b mtu) (?as @ ?ns)" using sits_append(2) [of call_parent call_name log b ?hds] by (simp only: len)
  moreover have "enclosed (Created b) (addr_pos b mtu + length ?as) ?ns" by (intro enclosed_many enclosed_simps)
  then have "call_parent ` set ?ns \<inter> within (addr_pos b mtu) (length ?as) = {}"
    using lt by (fastforce simp: enclosed_of_def within_def)
  ultimately show ?thesis by (rule sits_append(1))
qed

lemma sits_interface:
  assumes "sits log b (plan_interface b el)"
  shows "sits log (b + 3) (plan_ipv4 b (b + 3) (if_ipv4 el))"
    and "sits log (b + 3 + length (plan_ipv4 b (b + 3) (if_ipv4 el)))
      (plan_ipv6 b (b + 3 + length (plan_ipv4 b (b + 3) (if_ipv4 el))) (if_ipv6 el))"
proof -
  let ?hds = "[Create_list Parent ''interface'' ''name'' (opt_ptr (if_name el)),
      Create_leaf (Created b) ''enabled'' (Ptr (bool_str (if_enabled el))), Create_leaf (Created b) ''type'' (opt_ptr (if_type el))]"
  let ?v4 = "plan_ipv4 b (b + 3) (if_ipv4 el)" and ?b6 = "b + 3 + length (plan_ipv4 b (b + 3) (if_ipv4 el))"
  let ?v6 = "plan_ipv6 b ?b6 (if_ipv6 el)"
  have e4: "enclosed (Created b) (b + 3) ?v4" and e6: "enclosed (Created b) ?b6 ?v6" by (rule enclosed_containers)+
  have "sits log b (?hds @ ?v4 @ ?v6)" using assms by (simp add: plan_interface_def Let_def)
  moreover have "call_parent ` set ?hds \<inter> within (b + length ?hds) (length (?v4 @ ?v6)) = {}" by (auto simp: within_def)
  ultimately have s: "sits log (b + 3) (?v4 @ ?v6)" using sits_append(2) [of call_parent call_name log b ?hds] by (simp add: eval_nat_numeral)
  moreover have "call_parent ` set ?v6 \<inter> within (b + 3) (length ?v4) = {}"
    using e6 by (fastforce simp: enclosed_of_def within_def)
  ultimately show "sits log (b + 3) ?v4" by (rule sits_append(1))
  have "call_parent ` set ?v4 \<inter> within ?b6 (length ?v6) = {}"
    using e4 by (fastforce simp: enclosed_of_def within_def)
  with s show "sits log ?b6 ?v6" by (rule sits_append(2))
qed

section \<open>Lemmas: what the accessors find\<close>

text \<open>What the writer can print: the strings are there and the union holds what its tag says.\<close>

definition v4_printable :: "v4_address \<Rightarrow> bool" where
  "v4_printable a = ((\<exists>s. v4_ip a = Ptr s) \<and>
    (case v4_subnet_type a of
       subnet_none \<Rightarrow> False
     | subnet_prefix_length \<Rightarrow> (\<exists>n. v4_subnet a = Sub_byte n)
     | subnet_netmask \<Rightarrow> (\<exists>m. v4_subnet a = Sub_ptr m)))"

definition printable :: "interface \<Rightarrow> bool" where
  "printable el = (if_name el \<noteq> None \<and> if_type el \<noteq> None \<and> (\<forall>a\<in>set (i4_address (if_ipv4 el)). v4_printable a)
     \<and> (\<forall>a\<in>set (i6_address (if_ipv6 el)). \<exists>s. v6_ip a = Ptr s))"

context created_tree
begin

lemma leaf_found:
  assumes "sits log b cs" "b \<le> i" "i < b + length cs" "kids (Created i) s b cs = [b + j]"
    and "j < length cs" "cs ! j = Create_leaf p n (Ptr v)" "\<And>q m x. cs ! (i - b) \<noteq> Create_list q m s x"
  shows "leaf_is R (nd i) s v"
proof -
  have "log ! i = cs ! (i - b)" "i < length log" using sits_nth [OF assms(1), of "i - b"] assms(2,3) by auto
  moreover have "kids (Created i) s 0 log = [b + j]" using sits_kids [OF assms(1-3)] assms(4) by simp
  moreover have "log ! (b + j) = Create_leaf p n (Ptr v)" "b + j < length log"
    using sits_nth [OF assms(1,5)] assms(6) by auto
  ultimately show ?thesis using assms(7) by (simp add: leaf_is_def child_leaf leaf_value)
qed

lemma chain_kids:
  assumes "b + length cs = length log" "drop b log = cs"
    and "\<And>j. j \<in> set (kids p s b cs) \<Longrightarrow> \<exists>q m k v. log ! j = Create_list q m k v"
  shows "chain R (map_option nd (first (kids p s b cs))) (map nd (kids p s b cs))"
  using assms
proof (induction cs arbitrary: b)
  case (Cons c cs)
  have tl: "drop (Suc b) log = cs" and c: "log ! b = c" "b < length log"
    using Cons.prems(1,2) by (metis drop_Suc drop_tl list.sel(3), simp add: nth_via_drop, simp)
  have IH: "chain R (map_option nd (first (kids p s (Suc b) cs))) (map nd (kids p s (Suc b) cs))"
    using Cons.prems tl by (intro Cons.IH) auto
  show ?case
  proof (cases "call_parent c = p \<and> call_name c = s")
    case True
    then obtain m k v where m: "c = Create_list p m k v" "local_name m = s" using Cons.prems(3) [of b] c by auto
    have "lr_list_next R (nd b) = map_option nd (first (kids p s (Suc b) cs))"
      using list_next [of b p m k v] c m tl by simp
    then show ?thesis using IH True by (simp add: chain_simps)
  next
    case False
    then show ?thesis using IH by auto
  qed
qed (simp add: chain_simps)

lemma chain_children:
  assumes "\<And>j. j \<in> set (kids p s 0 log) \<Longrightarrow> \<exists>q m k v. log ! j = Create_list q m k v"
  shows "chain R (map_option nd (first (kids p s 0 log))) (map nd (kids p s 0 log))"
  using chain_kids [of 0 log p s] assms by simp

lemma v4_found:
  assumes "sits log b (plan_v4_address p b a)" "v4_printable a"
  shows "v4_shows R (nd b) a"
proof -
  obtain s where s: "v4_ip a = Ptr s" using assms(2) by (auto simp: v4_printable_def)
  have here: "b < length log" "log ! b = Create_list p ''address'' ''ip'' (Ptr s)"
    using sits_nth [OF assms(1), of 0] by (auto simp: plan_v4_address_def s)
  then have ip: "leaf_is R (nd b) ''ip'' s" by (rule key_leaf)
  show ?thesis
  proof (cases "v4_subnet_type a")
    case subnet_prefix_length
    then obtain n where n: "v4_subnet a = Sub_byte n" using assms(2) by (auto simp: v4_printable_def)
    have "leaf_is R (nd b) ''prefix-length'' (dec (unat n))"
      by (rule leaf_found [OF assms(1), where j = 1]) (auto simp: plan_v4_address_def subnet_prefix_length n)
    then show ?thesis using ip s n subnet_prefix_length by (simp add: v4_shows_def)
  next
    case subnet_netmask
    then obtain m where m: "v4_subnet a = Sub_ptr m" using assms(2) by (auto simp: v4_printable_def)
    have "leaf_is R (nd b) ''netmask'' m"
      by (rule leaf_found [OF assms(1), where j = 1]) (auto simp: plan_v4_address_def subnet_netmask m)
    moreover have "kids (Created b) ''prefix-length'' 0 log = kids (Created b) ''prefix-length'' b (plan_v4_address p b a)"
      by (rule sits_kids [OF assms(1)]) (auto simp: plan_v4_address_def)
    then have "lr_child_leaf R (nd b) ''prefix-length'' = None"
      using here by (subst child_leaf) (auto simp: plan_v4_address_def subnet_netmask m)
    ultimately show ?thesis using ip s m subnet_netmask by (simp add: v4_shows_def)
  qed (use assms(2) in \<open>simp add: v4_printable_def\<close>)
qed

lemma v6_found:
  assumes "sits log b (plan_v6_address p b a)" "v6_ip a = Ptr s"
  shows "v6_shows R (nd b) a"
proof -
  have "b < length log" "log ! b = Create_list p ''address'' ''ip'' (Ptr s)"
    using sits_nth [OF assms(1), of 0] by (auto simp: plan_v6_address_def assms(2))
  then have "leaf_is R (nd b) ''ip'' s" by (rule key_leaf)
  moreover have "leaf_is R (nd b) ''prefix-length'' (dec (unat (v6_prefix_length a)))"
    by (rule leaf_found [OF assms(1), where j = 1]) (auto simp: plan_v6_address_def)
  ultimately show ?thesis using assms(2) by (simp add: v6_shows_def)
qed

lemma entries_found:
  assumes "sits log b (plan_many f b xs)" "\<And>b x. enclosed (Created c) b (f b x)" "c < b" "c < length log"
    and "kids (Created c) s 0 log = starts f b xs" "\<And>b x. \<exists>q m k v cs. f b x = Create_list q m k v # cs"
    and "\<And>b' x. x \<in> set xs \<Longrightarrow> sits log b' (f b' x) \<Longrightarrow> P (nd b') x"
  shows "\<exists>ns. chain R (lr_child_list R (nd c) s) ns \<and> length ns = length xs \<and> list_all2 P ns xs"
proof -
  have at: "list_all2 (\<lambda>j x. sits log j (f j x)) (map id (starts f b xs)) xs"
    by (rule many_sits [OF assms(1,2)]) (use assms(3) in auto)
  have "\<exists>q m k v. log ! j = Create_list q m k v" if j: "j \<in> set (kids (Created c) s 0 log)" for j
  proof -
    obtain x where x: "sits log j (f j x)" using at j by (auto simp: assms(5) list_all2_conv_all_nth in_set_conv_nth)
    obtain q m k v cs where "f j x = Create_list q m k v # cs" using assms(6) [of j x] by auto
    then show ?thesis using sits_nth [OF x, of 0] by simp
  qed
  then have "chain R (lr_child_list R (nd c) s) (map nd (starts f b xs))"
    using chain_children [of "Created c" s] assms(4,5) by (simp add: child_list)
  moreover have "list_all2 P (map nd (starts f b xs)) xs"
    by (rule many_sits [OF assms(1,2)]) (use assms(3,7) in auto)
  ultimately show ?thesis by (intro exI [of _ "map nd (starts f b xs)"]) simp
qed

lemma ip_found:
  assumes "sits log b (plan_ip n b nm en fw mtu addrs ns)" "n < b"
    and "\<And>b' s. b < b' \<Longrightarrow> kids (Created b) s b' (addrs b') = (if s = ''address'' then K b' else [])"
  shows "leaf_is R (nd b) ''enabled'' en" "leaf_is R (nd b) ''forwarding'' fw"
    and "case mtu of None \<Rightarrow> lr_child_leaf R (nd b) ''mtu'' = None | Some v \<Rightarrow> leaf_is R (nd b) ''mtu'' v"
    and "b < length log" "kids (Created b) ''address'' 0 log = K (addr_pos b mtu)"
proof -
  note ks = kids_ip [where n = n and b = b and K = K, OF assms(2,3)]
  have pos: "b < b + length (plan_ip n b nm en fw mtu addrs ns)" by (simp add: plan_ip_pos)
  have here: "b < length log" "log ! b = Create_container (Created n) nm"
    using sits_nth [OF assms(1), of 0] by (auto simp: plan_ip_pos)
  have k0: "kids (Created b) s 0 log = kids (Created b) s b (plan_ip n b nm en fw mtu addrs ns)" for s
    by (rule sits_kids [OF assms(1) _ pos]) simp
  show "b < length log" "kids (Created b) ''address'' 0 log = K (addr_pos b mtu)" by (simp_all add: here k0 ks)
  show "leaf_is R (nd b) ''enabled'' en"
    by (rule leaf_found [OF assms(1) _ pos, where j = 1]) (simp_all add: ks, simp_all add: plan_ip_pos)
  show "leaf_is R (nd b) ''forwarding'' fw"
    by (rule leaf_found [OF assms(1) _ pos, where j = 2]) (simp_all add: ks, simp_all add: plan_ip_pos)
  show "case mtu of None \<Rightarrow> lr_child_leaf R (nd b) ''mtu'' = None | Some v \<Rightarrow> leaf_is R (nd b) ''mtu'' v"
  proof (cases mtu)
    case None
    then show ?thesis by (simp add: child_leaf here k0 ks)
  next
    case (Some v)
    have "leaf_is R (nd b) ''mtu'' v"
      by (rule leaf_found [OF assms(1) _ pos, where j = 3]) (simp_all add: ks Some, simp_all add: plan_ip_pos)
    then show ?thesis using Some by simp
  qed
qed

lemma ipv4_found:
  assumes "sits log b (plan_ipv4 n b i)" "n < b" "\<forall>a\<in>set (i4_address i). v4_printable a" "length log \<le> k"
  shows "ipv4_shows R (nd b) k i"
proof -
  let ?f = "plan_v4_address (Created b)" and ?p = "addr_pos b (mtu_text (i4_mtu i))"
  note s = assms(1) [unfolded plan_ip_ipv4]
  have e: "enclosed (Created b) b' (plan_many ?f b' xs)" for b' xs by (intro enclosed_many enclosed_simps)
  have at: "sits log ?p (plan_many ?f ?p (i4_address i))" by (rule sits_ip [OF s assms(2) e])
  note found = ip_found [OF s assms(2) kids_lists(1)]
  have "\<exists>ns. chain R (lr_child_list R (nd b) ''address'') ns \<and> length ns = length (i4_address i) \<and> list_all2 (v4_shows R) ns (i4_address i)"
    by (rule entries_found [OF at enclosed_simps(1) _ found(4,5)])
      (use assms(3) in \<open>auto simp: v4_found addr_pos_def plan_v4_address_def split: option.split\<close>)
  moreover have "length (i4_address i) \<le> k"
    using length_many [of ?f "i4_address i" ?p] at assms(4) by (simp add: sits_of_def plan_v4_address_def)
  ultimately show ?thesis using found(1-3) by (auto simp: ipv4_shows_def mtu_text_def split: if_splits)
qed

lemma ipv6_found:
  assumes "sits log b (plan_ipv6 n b i)" "n < b" "\<forall>a\<in>set (i6_address i). \<exists>s. v6_ip a = Ptr s" "length log \<le> k"
  shows "ipv6_shows R (nd b) k i"
proof -
  let ?f = "plan_v6_address (Created b)" and ?p = "addr_pos b (mtu_text (i6_mtu i))"
  note s = assms(1) [unfolded plan_ip_ipv6]
  have e: "enclosed (Created b) b' (plan_many ?f b' xs)" for b' xs by (intro enclosed_many enclosed_simps)
  have at: "sits log ?p (plan_many ?f ?p (i6_address i))" by (rule sits_ip [OF s assms(2) e])
  note found = ip_found [OF s assms(2) kids_lists(2)]
  have "\<exists>ns. chain R (lr_child_list R (nd b) ''address'') ns \<and> length ns = length (i6_address i) \<and> list_all2 (v6_shows R) ns (i6_address i)"
    by (rule entries_found [OF at enclosed_simps(2) _ found(4,5)])
      (use assms(3) in \<open>auto simp: v6_found addr_pos_def plan_v6_address_def split: option.split\<close>)
  moreover have "length (i6_address i) \<le> k"
    using length_many [of ?f "i6_address i" ?p] at assms(4) by (simp add: sits_of_def plan_v6_address_def)
  ultimately show ?thesis by (auto simp: ipv6_shows_def)
qed

lemma interface_found:
  assumes "sits log b (plan_interface b el)" "printable el" "length log \<le> k"
  shows "node_shows R k (nd b) el"
proof -
  obtain s ty where el: "if_name el = Some s" "if_type el = Some ty" using assms(2) by (auto simp: printable_def)
  let ?b6 = "b + 3 + length (plan_ipv4 b (b + 3) (if_ipv4 el))"
  have pos: "b < b + length (plan_interface b el)" by (simp add: plan_interface_seq)
  have here: "b < length log" "log ! b = Create_list Parent ''interface'' ''name'' (Ptr s)"
    using sits_nth [OF assms(1), of 0] by (auto simp: plan_interface_seq el)
  have k0: "kids (Created b) s 0 log = kids (Created b) s b (plan_interface b el)" for s
    by (rule sits_kids [OF assms(1) _ pos]) simp
  have "leaf_is R (nd b) ''name'' s" using here by (rule key_leaf)
  moreover have "leaf_is R (nd b) ''enabled'' (bool_str (if_enabled el))"
    by (rule leaf_found [OF assms(1) _ pos, where j = 1]) (simp_all add: kids_interface, simp_all add: plan_interface_seq)
  moreover have "leaf_is R (nd b) ''type'' ty"
    by (rule leaf_found [OF assms(1) _ pos, where j = 2]) (simp_all add: kids_interface, simp_all add: plan_interface_seq el)
  moreover have "lr_child_container R (nd b) ''ipv4'' = Some (nd (b + 3))" "lr_child_container R (nd b) ''ipv6'' = Some (nd ?b6)"
    by (simp_all add: child_container here k0 kids_interface)
  moreover have "ipv4_shows R (nd (b + 3)) k (if_ipv4 el)" "ipv6_shows R (nd ?b6) k (if_ipv6 el)"
    using assms(2,3) by (auto simp: printable_def intro!: ipv4_found [OF sits_interface(1) [OF assms(1)]]
        ipv6_found [OF sits_interface(2) [OF assms(1)]])
  ultimately show ?thesis using el by (auto simp: node_shows_def)
qed

lemma interfaces_found:
  assumes "log = plan_many plan_interface 0 h" "\<forall>el\<in>set h. printable el" "length log \<le> k"
  shows "\<exists>ns. chain R (lr_child_list R base ''interface'') ns \<and> length ns = length h \<and> length h \<le> k \<and> list_all2 (node_shows R k) ns h"
proof -
  have whole: "sits log 0 (plan_many plan_interface 0 h)" using sits_all [of call_parent call_name log] assms(1) by simp
  have ks: "kids Parent ''interface'' 0 log = starts plan_interface 0 h" by (simp add: assms(1) kids_interfaces)
  have at: "list_all2 (\<lambda>j x. sits log j (plan_interface j x)) (map id (starts plan_interface 0 h)) h"
    by (rule many_sits [OF whole enclosed_interface]) simp_all
  have "\<exists>q m k v. log ! j = Create_list q m k v" if j: "j \<in> set (kids Parent ''interface'' 0 log)" for j
  proof -
    obtain x where x: "sits log j (plan_interface j x)" using at j by (auto simp: ks list_all2_conv_all_nth in_set_conv_nth)
    then show ?thesis using sits_nth [OF x, of 0] by (simp add: plan_interface_seq)
  qed
  then have "chain R (lr_child_list R base ''interface'') (map nd (starts plan_interface 0 h))"
    using chain_children [of Parent "''interface''"] by (simp add: ks top_list)
  moreover have "list_all2 (node_shows R k) (map nd (starts plan_interface 0 h)) h"
    by (rule many_sits [OF whole enclosed_interface]) (use assms(2,3) in \<open>auto intro: interface_found\<close>)
  moreover have "length h \<le> k" using length_many [of plan_interface h 0] assms(1,3) by (simp add: plan_interface_seq)
  ultimately show ?thesis by (intro exI [of _ "map nd (starts plan_interface 0 h)"]) simp
qed

lemma written_reads:
  assumes "log = plan_many plan_interface 0 h" "\<forall>el\<in>set h. printable el" "distinct (map if_name h)" "length log \<le> k"
  shows "hash_from_ly R k k [] (lr_child_list R base ''interface'') = Ret (0, map ly_normal_form h)"
proof -
  obtain ns where ns: "chain R (lr_child_list R base ''interface'') ns" "length ns = length h" "length h \<le> k" "list_all2 (node_shows R k) ns h"
    using interfaces_found [OF assms(1,2,4)] by blast
  show ?thesis using from_ly_loop_reads [OF ns(1) _ ns(4), of k "[]"] ns(2,3) assms(3) by (simp add: hash_from_ly_def)
qed

end

section \<open>Lemmas: restoring a saved system\<close>

lemma restored_type: "type_nl2ly t = (0, Some y) \<Longrightarrow> t \<noteq> Some ''bridge'' \<Longrightarrow>
    store_type y None = Some (case t of None \<Rightarrow> ''dummy'' | Some s \<Rightarrow> s)"
  by (auto simp: type_nl2ly_def store_type_def split: option.splits if_splits)

definition restorable :: "link_obj \<Rightarrow> bool" where
  "restorable lk = (lk_name lk \<noteq> None \<and> lk_type lk \<noteq> Some ''bridge'')"

lemma loaded_printable:
  assumes "link_ok K lk" "restorable lk"
  shows "printable (loaded K lk)" "storable E (ly_normal_form (loaded K lk))" "interface_wf (ly_normal_form (loaded K lk))"
proof -
  obtain y where y: "type_nl2ly (lk_type lk) = (0, Some y)" using assms(1) set_type_Some by (auto simp: link_ok_def)
  have ty: "store_type y None \<noteq> None" using restored_type [OF y] assms(2) by (simp add: restorable_def)
  show "printable (loaded K lk)"
    using assms(2) by (auto simp: printable_def restorable_def loaded_def y v4_printable_def v4_of_def v6_of_def)
  show "storable E (ly_normal_form (loaded K lk))"
    using assms(2) ty by (auto simp: storable_def restorable_def ly_normal_form_def loaded_def y v4_storable_def store_prefix_def v4_of_def v6_of_def)
  show "interface_wf (ly_normal_form (loaded K lk))"
    by (auto simp: interface_wf_def ly_normal_form_def loaded_def v4_wf_def v6_readable_def v4_of_def v6_of_def
        hash_element_new_def zero_ipv4_def zero_ipv6_def)
qed

text \<open>What restoring sends for a link of the saved system.\<close>

definition restore_plan :: "env \<Rightarrow> (cstr \<Rightarrow> link) \<Rightarrow> kernel \<Rightarrow> link_obj \<Rightarrow> request list" where
  "restore_plan E L K lk =
    (let name = the (lk_name lk); up = lk_operstate lk \<in> {IF_OPER_UP, IF_OPER_UNKNOWN};
         addrs = (\<lambda>f. map (\<lambda>a. address_request E (L name) f (ip_buffer (the (ao_local a))) (ucast (ao_prefixlen a))) (own_addrs K lk f))
     in Link_add [L_type (Some (case lk_type lk of None \<Rightarrow> ''dummy'' | Some t \<Rightarrow> t)), L_name name,
          (if up then L_flags ''up'' else L_unset_flags ''up''), L_operstate (if up then IF_OPER_UP else IF_OPER_DOWN)] NLM_F_CREATE
        # addrs AF_INET @ addrs AF_INET6)"

lemma store_plan_restores:
  assumes "link_ok K lk" "restorable lk"
  shows "store_plan E L (ly_normal_form (loaded K lk)) = restore_plan E L K lk"
proof -
  obtain y where y: "type_nl2ly (lk_type lk) = (0, Some y)" using assms(1) set_type_Some by (auto simp: link_ok_def)
  have ty: "store_type y None = Some (case lk_type lk of None \<Rightarrow> ''dummy'' | Some s \<Rightarrow> s)"
    using restored_type [OF y] assms(2) by (simp add: restorable_def)
  show ?thesis
    by (simp add: store_plan_def restore_plan_def store_link_attrs_def store_mtu_def ly_normal_form_def loaded_def y ty Let_def
        rev_map [symmetric] comp_def v4_of_def v6_of_def store_prefix_def flag_def word_less_def
        hash_element_new_def zero_ipv4_def zero_ipv6_def)
qed

lemma hash_free_wf: "\<forall>el\<in>set h. interface_wf el \<Longrightarrow> \<exists>bs. hash_free h = Ret (bs, [])"
  by (induction h) (auto simp: hash_free_def hash_element_free_wf obind_eq_Ret)

section \<open>Properties\<close>

text \<open>C5. Writing and reading back: when every creation call for a hash succeeds and the accessors read the
  tree that these calls made, converting the hash to YANG data and back gives every interface in its order, with
  its name, type and enabled flag, its IPv4 flags, MTU and addresses and its IPv6 addresses (in reverse order),
  and with nothing else: neighbors and the IPv6 flags and MTU are written but not read.  It holds when the
  interfaces have a name and a type and no two the same name, every address has its text, and an IPv4 address a
  prefix length or netmask; as many rounds as the tree has nodes are enough.\<close>

theorem write_read_roundtrip:
  assumes "hash_to_ly Y h [] = (0, log)" "created_tree R base nd log"
    and "\<forall>el\<in>set h. printable el" "distinct (map if_name h)" "length log \<le> k"
  shows "hash_from_ly R k k [] (lr_child_list R base ''interface'') = Ret (0, map ly_normal_form h)"
proof -
  have "log = plan_many plan_interface 0 h"
    using assms(1) executes_hash [of Y h] by (auto simp: executes_def dest: run_calls_ok)
  then show ?thesis by (rule created_tree.written_reads [OF assms(2) _ assms(3-5)])
qed

definition demo_log :: ly_log where
  "demo_log = snd (hash_to_ly (\<lambda>_ _. 0) [demo_eth0_data] [])"

lemma demo_log_ok: "hash_to_ly (\<lambda>_ _. 0) [demo_eth0_data] [] = (0, demo_log)"
  using executes_hash [of "\<lambda>_ _. 0" "[demo_eth0_data]"] by (simp add: demo_log_def executes_def run_calls_accepting)

lemma demo_printable: "printable demo_eth0_data"
  by (simp add: printable_def v4_printable_def demo_eth0_data_def)

theorem write_read_roundtrip_witness:
  "hash_from_ly (log_reader demo_log) (length demo_log) (length demo_log) [] (lr_child_list (log_reader demo_log) Top ''interface'')
    = Ret (0, [ly_normal_form demo_eth0_data])"
  using write_read_roundtrip [OF demo_log_ok log_tree.created_tree_axioms] demo_printable by simp

text \<open>C3. Saving and restoring: when the running datastore was loaded from a system, the tree of that edit is what
  the startup store reads, and the system accepts every request, the store succeeds and sends, link by link in
  the order of the saved system, the link with its name, its type, and up or down as it was, and then
  every IPv4 and every IPv6 address the link had, in the order it had them and with their prefix lengths.  The
  MTU and the neighbors are not restored.  A link without a type comes back as dummy; it holds for links with a
  name that are not bridges.\<close>

theorem save_restore:
  assumes "running_load K Y S s = Ret (0, calls, s')" "Edit_batch log \<in> set calls" "created_tree R base nd log" "length log \<le> k"
    and "accepting E L" "\<forall>lk\<in>set (snd (k_links K)). restorable lk"
  shows "\<exists>w'. startup_store E R k (0, base) w = Ret (0, w')
    \<and> requests w' = requests w @ ok_runs (concat (map (restore_plan E L K) (snd (k_links K))))"
proof -
  from assms(1) obtain lks where lks: "readable K lks" "distinct (map lk_name lks)"
      "log = plan_many plan_interface 0 (map (loaded K) lks)"
    by (rule running_load_calls) (use assms(2) in auto)
  have links: "snd (k_links K) = lks" "lks \<noteq> []" "\<forall>lk\<in>set lks. link_ok K lk" using lks(1) by (auto simp: readable_def)
  let ?h = "map (\<lambda>lk. ly_normal_form (loaded K lk)) lks"
  have lk: "printable (loaded K l)" "storable E (ly_normal_form (loaded K l))" "interface_wf (ly_normal_form (loaded K l))"
      "store_plan E L (ly_normal_form (loaded K l)) = restore_plan E L K l" if "l \<in> set lks" for l
    using loaded_printable store_plan_restores links(3) assms(6) that by (auto simp: links(1))
  have "hash_from_ly R k k [] (lr_child_list R base ''interface'') = Ret (0, map ly_normal_form (map (loaded K) lks))"
    by (rule created_tree.written_reads [OF assms(3) lks(3) _ _ assms(4)]) (use lk(1) lks(2) in \<open>auto simp: comp_def\<close>)
  then have rd: "hash_from_ly R k k [] (lr_child_list R base ''interface'') = Ret (0, ?h)" by (simp add: comp_def)
  obtain w1 where w1: "store_interface E ?h w = Ret (0, release (R_socket, length (w_trace w)) w1)"
      "requests w1 = requests w @ ok_runs (concat (map (store_plan E L) ?h))"
    using store_interface_run [OF assms(5), of ?h w] lk(2) by auto
  obtain bs where bs: "hash_free ?h = Ret (bs, [])" using hash_free_wf [of ?h] lk(3) by auto
  obtain nd' where node: "lr_child_list R base ''interface'' = Some nd'"
    using rd links(2) by (cases "lr_child_list R base ''interface''") (auto simp: hash_from_ly_def)
  have "startup_store E R k (0, base) w = Ret (0, release (R_socket, length (w_trace w)) w1)"
    using rd w1(1) bs by (simp add: startup_store_def datastore_store_def store_interface_cb_def node hash_new_def
        check_interface_def links(2))
  moreover have plans: "concat (map (store_plan E L) ?h) = concat (map (restore_plan E L K) lks)"
    using lk(4) by (simp add: comp_def cong: map_cong)
  have "requests (release (R_socket, length (w_trace w)) w1) = requests w @ ok_runs (concat (map (restore_plan E L K) lks))"
    using w1(2) unfolding plans by (simp add: trace_simps)
  ultimately show ?thesis unfolding links(1) by blast
qed

lemma demo_restore_plan: "restore_plan demo_accept (\<lambda>_. 2) demo_kernel demo_link =
    [Link_add [L_type (Some ''veth''), L_name ''eth0'', L_flags ''up'', L_operstate IF_OPER_UP] NLM_F_CREATE,
     address_request demo_accept 2 AF_INET ''10.0.0.1'' 24]"
proof -
  have "own_addrs demo_kernel demo_link AF_INET6 = []" by (simp add: own_addrs_def demo_kernel_def demo_link_def)
  then show ?thesis by (simp add: restore_plan_def demo_own Let_def ip_buffer_def cbuf_def) (simp add: demo_link_def)
qed

theorem save_restore_witness:
  "\<exists>calls s' log w'. running_load demo_kernel (\<lambda>_ _. 0) demo_sr demo_state = Ret (0, calls, s') \<and> Edit_batch log \<in> set calls \<and>
     startup_store demo_accept (log_reader log) (length log) (0, Top) demo_world = Ret (0, w') \<and>
     requests w' = ok_runs [Link_add [L_type (Some ''veth''), L_name ''eth0'', L_flags ''up'', L_operstate IF_OPER_UP] NLM_F_CREATE,
       address_request demo_accept 2 AF_INET ''10.0.0.1'' 24]"
proof -
  obtain s' log where l: "running_load demo_kernel (\<lambda>_ _. 0) demo_sr demo_state
      = Ret (0, [Edit_batch log, Apply_changes, Free_tree, Release_context], s')"
    using demo_load by blast
  have links: "snd (k_links demo_kernel) = [demo_link]" by (simp add: demo_kernel_def)
  have "restorable demo_link" by (simp add: restorable_def demo_link_def)
  then obtain w' where "startup_store demo_accept (log_reader log) (length log) (0, Top) demo_world = Ret (0, w')"
      "requests w' = ok_runs (restore_plan demo_accept (\<lambda>_. 2) demo_kernel demo_link)"
    using save_restore [OF l _ log_tree.created_tree_axioms [of log] order_refl demo_storable(1), where w = demo_world]
    by (auto simp: links)
  then show ?thesis using l by (auto simp: demo_restore_plan)
qed

end
