(* ===== verification/IfState.thy ===== *)
theory IfState
  imports IfData
begin

text \<open>
  Interface state tracking: the state hash of \<^verbatim>\<open>data/interfaces/interface_state.c\<close> and the
  functions of \<^verbatim>\<open>plugin.c\<close> that fill it when the plugin starts and keep it up to date from the
  link cache.  A link cache is the list of its links (name and operational state) in cache order;
  \<^verbatim>\<open>time(NULL)\<close> is the parameter \<^verbatim>\<open>clock\<close>, its \<^verbatim>\<open>n\<close>-th reading; the context also
  carries the mutex that guards the hash.
\<close>

section \<open>The state hash\<close>

record if_state =
  st_name :: "cstr option"
  st_state :: "8 word"
  st_last_change :: int

type_synonym state_hash = "if_state list"

definition state_hash_new :: state_hash where
  "state_hash_new = []"

definition state_hash_add :: "state_hash \<Rightarrow> if_state \<Rightarrow> int \<times> state_hash" where
  "state_hash_add hash el =
    (case hash_find st_name (st_name el) hash of
       Some _ \<Rightarrow> (-1, hash)
     | None \<Rightarrow> (0, hash_add el hash))"

definition state_hash_get :: "state_hash \<Rightarrow> cstr option \<Rightarrow> if_state option" where
  "state_hash_get hash name = hash_find st_name name hash"

definition state_hash_element_new :: if_state where
  "state_hash_element_new = \<lparr> st_name = None, st_state = 0, st_last_change = 0 \<rparr>"

definition state_hash_element_set_name :: "if_state \<Rightarrow> cstr option \<Rightarrow> int \<times> if_state" where
  "state_hash_element_set_name el name =
    (let el1 = (if st_name el \<noteq> None then el\<lparr>st_name := None\<rparr> else el)
     in case name of Some s \<Rightarrow> (0, el1\<lparr>st_name := Some s\<rparr>) | None \<Rightarrow> (0, el1))"

definition state_hash_element_set_state :: "if_state \<Rightarrow> 8 word \<Rightarrow> if_state" where
  "state_hash_element_set_state el s = el\<lparr>st_state := s\<rparr>"

definition state_hash_element_set_last_change :: "if_state \<Rightarrow> int \<Rightarrow> if_state" where
  "state_hash_element_set_last_change el t = el\<lparr>st_last_change := t\<rparr>"

text \<open>\<^verbatim>\<open>free(NULL)\<close> does nothing.\<close>

definition state_hash_element_free :: "if_state \<Rightarrow> block list" where
  "state_hash_element_free el = opt_block (st_name el) @ [B_struct]"

definition state_hash_free :: "state_hash \<Rightarrow> block list \<times> state_hash" where
  "state_hash_free hash = (concat (map state_hash_element_free hash), [])"

section \<open>Tracking\<close>

record cache_link =
  cl_name :: cstr
  cl_operstate :: "8 word"

record state_ctx =
  sc_hash :: state_hash
  sc_locked :: bool
  sc_ticks :: nat

definition time_now :: "(nat \<Rightarrow> int) \<Rightarrow> state_ctx \<Rightarrow> int \<times> state_ctx" where
  "time_now clock c = (clock (sc_ticks c), c\<lparr>sc_ticks := Suc (sc_ticks c)\<rparr>)"

text \<open>The loop of \<^verbatim>\<open>interfaces_init_state_changes_tracking\<close> over the link cache.\<close>

fun init_links :: "(nat \<Rightarrow> int) \<Rightarrow> cache_link list \<Rightarrow> state_ctx \<Rightarrow> int \<times> state_ctx" where
  "init_links clock [] c = (0, c)"
| "init_links clock (l # ls) c =
    (let (now, c1) = time_now clock c;
         (e, el1) = state_hash_element_set_name state_hash_element_new (Some (cl_name l))
     in if e \<noteq> 0 then (-1, c1)
        else
          let el2 = state_hash_element_set_state el1 (cl_operstate l);
              el3 = state_hash_element_set_last_change el2 now;
              (e2, h) = state_hash_add (sc_hash c1) el3
          in if e2 \<noteq> 0 then (-1, c1\<lparr>sc_hash := h\<rparr>)
             else init_links clock ls (c1\<lparr>sc_hash := h\<rparr>))"

text \<open>The calls of libnl and pthread around the loop: their results, in call order.\<close>

record tracking_env =
  te_socket_alloc :: bool
  te_connect :: int
  te_alloc_cache :: int
  te_mutex_init :: int
  te_mngr_alloc :: int
  te_mngr_add :: int
  te_attr_init :: int
  te_attr_setdetach :: int
  te_thread_create :: int

definition init_state_changes_tracking ::
    "tracking_env \<Rightarrow> (nat \<Rightarrow> int) \<Rightarrow> cache_link list \<Rightarrow> state_ctx \<Rightarrow> int \<times> state_ctx" where
  "init_state_changes_tracking E clock cache c =
    (let c0 = c\<lparr>sc_hash := state_hash_new\<rparr> in
     if \<not> te_socket_alloc E then (-1, c0)
     else if te_connect E \<noteq> 0 then (-1, c0)
     else if te_alloc_cache E \<noteq> 0 then (-1, c0)
     else if te_mutex_init E \<noteq> 0 then (-1, c0)
     else
       let c1 = c0\<lparr>sc_locked := False\<rparr>;
           (e, c2) = init_links clock cache c1
       in if e \<noteq> 0 then (-1, c2)
          else if te_mngr_alloc E \<noteq> 0 then (-1, c2)
          else if te_mngr_add E \<noteq> 0 then (-1, c2)
          else if te_attr_init E \<noteq> 0 then (-1, c2)
          else if te_attr_setdetach E \<noteq> 0 then (-1, c2)
          else if te_thread_create E \<noteq> 0 then (-1, c2)
          else (0, c2))"

text \<open>One round of the loop of \<^verbatim>\<open>interfaces_link_cache_change_cb\<close>.  For a known interface that
  changed state the clock is read twice, and the second reading is stored.\<close>

definition link_change_step :: "(nat \<Rightarrow> int) \<Rightarrow> cache_link \<Rightarrow> state_ctx \<Rightarrow> state_ctx" where
  "link_change_step clock l c =
    (case state_hash_get (sc_hash c) (Some (cl_name l)) of
       Some st \<Rightarrow>
         if cl_operstate l \<noteq> st_state st then
           let (current, c1) = time_now clock c;
               (now, c2) = time_now clock c1
           in c2\<lparr>sc_hash := hash_update st_name (Some (cl_name l))
                  (\<lambda>x. state_hash_element_set_last_change
                         (state_hash_element_set_state x (cl_operstate l)) now) (sc_hash c2)\<rparr>
         else c
     | None \<Rightarrow>
         let (current, c1) = time_now clock c;
             (rc, el1) = state_hash_element_set_name state_hash_element_new (Some (cl_name l))
         in if rc \<noteq> 0 then c1
            else
              let el2 = state_hash_element_set_state el1 (cl_operstate l);
                  el3 = state_hash_element_set_last_change el2 current;
                  (rc2, h) = state_hash_add (sc_hash c1) el3
              in c1\<lparr>sc_hash := h\<rparr>)"

text \<open>\<^verbatim>\<open>pthread_mutex_lock\<close> on the locked mutex does not return: \<^verbatim>\<open>None\<close>.\<close>

definition link_cache_change_cb :: "(nat \<Rightarrow> int) \<Rightarrow> cache_link list \<Rightarrow> state_ctx \<Rightarrow> state_ctx option" where
  "link_cache_change_cb clock cache c =
    (if sc_locked c then None
     else
       let c1 = c\<lparr>sc_locked := True\<rparr>;
           c2 = fold (link_change_step clock) cache c1
       in Some (c2\<lparr>sc_locked := False\<rparr>))"

section \<open>Lemmas\<close>

interpretation st_hash: keyed_table st_name "\<lambda>h. h" state_hash_get state_hash_add
  by unfold_locales
    (auto simp: state_hash_get_def state_hash_add_def hash_add_def split: option.splits)

lemmas state_element_defs = state_hash_element_new_def state_hash_element_set_name_def
  state_hash_element_set_state_def state_hash_element_set_last_change_def time_now_def

text \<open>The abstract view of the hash: what is recorded for a name.\<close>

definition tracked :: "state_ctx \<Rightarrow> cstr \<Rightarrow> (8 word \<times> int) option" where
  "tracked c n = map_option (\<lambda>s. (st_state s, st_last_change s)) (state_hash_get (sc_hash c) (Some n))"

definition state_wf :: "state_ctx \<Rightarrow> bool" where
  "state_wf c = distinct (map st_name (sc_hash c))"

lemma init_links_correct:
  "distinct (map cl_name ls) \<Longrightarrow> \<forall>l\<in>set ls. state_hash_get (sc_hash c) (Some (cl_name l)) = None \<Longrightarrow>
    init_links clock ls c = (0, c\<lparr>sc_ticks := sc_ticks c + length ls,
      sc_hash := sc_hash c @ map (\<lambda>(i, l). \<lparr>st_name = Some (cl_name l), st_state = cl_operstate l,
         st_last_change = clock (sc_ticks c + i)\<rparr>) (enumerate 0 ls)\<rparr>)"
proof (induction ls arbitrary: c)
  case (Cons l ls)
  let ?el = "\<lparr>st_name = Some (cl_name l), st_state = cl_operstate l, st_last_change = clock (sc_ticks c)\<rparr>"
  let ?c = "c\<lparr>sc_ticks := Suc (sc_ticks c), sc_hash := sc_hash c @ [?el]\<rparr>"
  have add: "state_hash_add (sc_hash c) ?el = (0, sc_hash c @ [?el])"
    using Cons.prems(2) by (simp add: state_hash_add_def state_hash_get_def hash_add_def)
  have "init_links clock (l # ls) c = init_links clock ls ?c"
    by (simp add: state_element_defs add Let_def)
  also have "\<dots> = (0, ?c\<lparr>sc_ticks := sc_ticks ?c + length ls,
      sc_hash := sc_hash ?c @ map (\<lambda>(i, l). \<lparr>st_name = Some (cl_name l), st_state = cl_operstate l,
         st_last_change = clock (sc_ticks ?c + i)\<rparr>) (enumerate 0 ls)\<rparr>)"
    using Cons.prems by (intro Cons.IH) (auto simp: state_hash_get_def table_simps)
  finally show ?case
    by (simp add: enumerate_Suc_eq o_def case_prod_beta)
qed simp

definition fresh_state :: "(nat \<Rightarrow> int) \<Rightarrow> cache_link \<Rightarrow> state_ctx \<Rightarrow> if_state" where
  "fresh_state clock l c = \<lparr>st_name = Some (cl_name l), st_state = cl_operstate l,
     st_last_change = clock (sc_ticks c)\<rparr>"

lemma init_links_Cons:
  "init_links clock (l # ls) c =
    (if state_hash_get (sc_hash c) (Some (cl_name l)) = None
     then init_links clock ls (c\<lparr>sc_ticks := Suc (sc_ticks c), sc_hash := sc_hash c @ [fresh_state clock l c]\<rparr>)
     else (-1, c\<lparr>sc_ticks := Suc (sc_ticks c)\<rparr>))"
  by (simp add: state_element_defs Let_def state_hash_add_def state_hash_get_def hash_add_def
      fresh_state_def split: option.splits)

lemma state_wf_snoc:
  "state_wf c \<Longrightarrow> state_hash_get (sc_hash c) (Some (cl_name l)) = None \<Longrightarrow>
    state_wf (c\<lparr>sc_ticks := n, sc_hash := sc_hash c @ [fresh_state clock l c]\<rparr>)"
  by (auto simp: state_wf_def state_hash_get_def hash_find_None_iff fresh_state_def)

lemma init_links_wf: "state_wf c \<Longrightarrow> state_wf (snd (init_links clock ls c))"
proof (induction ls arbitrary: c)
  case (Cons l ls)
  show ?case
  proof (cases "state_hash_get (sc_hash c) (Some (cl_name l))")
    case None
    then show ?thesis
      by (simp add: init_links_Cons None Cons.IH state_wf_snoc Cons.prems del: init_links.simps)
  next
    case (Some a)
    then show ?thesis
      using Cons.prems by (simp add: init_links_Cons state_wf_def del: init_links.simps)
  qed
qed simp

lemma link_change_step_eq:
  "link_change_step clock l c =
    (case state_hash_get (sc_hash c) (Some (cl_name l)) of
       Some st \<Rightarrow>
         if cl_operstate l \<noteq> st_state st then
           c\<lparr>sc_ticks := sc_ticks c + 2,
             sc_hash := hash_update st_name (Some (cl_name l))
               (\<lambda>x. x\<lparr>st_state := cl_operstate l, st_last_change := clock (Suc (sc_ticks c))\<rparr>) (sc_hash c)\<rparr>
         else c
     | None \<Rightarrow> c\<lparr>sc_ticks := Suc (sc_ticks c), sc_hash := sc_hash c @ [fresh_state clock l c]\<rparr>)"
  by (simp add: link_change_step_def state_element_defs Let_def state_hash_add_def state_hash_get_def
      hash_add_def fresh_state_def split: option.splits)

lemma link_change_step_wf: "state_wf c \<Longrightarrow> state_wf (link_change_step clock l c)"
proof (cases "state_hash_get (sc_hash c) (Some (cl_name l))")
  case None
  then show "state_wf c \<Longrightarrow> ?thesis"
    by (simp add: link_change_step_eq state_wf_snoc)
next
  case (Some st)
  then show "state_wf c \<Longrightarrow> ?thesis"
    by (simp add: link_change_step_eq state_wf_def)
qed

lemma link_change_steps_wf: "state_wf c \<Longrightarrow> state_wf (fold (link_change_step clock) ls c)"
  by (induction ls arbitrary: c) (auto simp: link_change_step_wf)

text \<open>What one link contributes to the abstract view: the new state and the time it was seen when the
  link is new or its state differs, the old entry otherwise.\<close>

definition observe :: "(nat \<Rightarrow> int) \<Rightarrow> nat \<Rightarrow> cache_link \<Rightarrow> (8 word \<times> int) option \<Rightarrow> (8 word \<times> int) option" where
  "observe clock n l old =
    (case old of
       None \<Rightarrow> Some (cl_operstate l, clock n)
     | Some (s, t) \<Rightarrow> if s = cl_operstate l then old else Some (cl_operstate l, clock (Suc n)))"

lemma tracked_step:
  "tracked (link_change_step clock l c) n =
    (if n = cl_name l then observe clock (sc_ticks c) l (tracked c n) else tracked c n)"
proof (cases "state_hash_get (sc_hash c) (Some (cl_name l))")
  case None
  then show ?thesis
    by (auto simp: tracked_def link_change_step_eq state_hash_get_def table_simps observe_def
        fresh_state_def split: option.splits)
next
  case (Some st)
  then show ?thesis
    by (auto simp: tracked_def link_change_step_eq state_hash_get_def table_simps observe_def
        split: option.splits)
qed

lemma ticks_step: "sc_ticks c \<le> sc_ticks (link_change_step clock l c)"
  by (auto simp: link_change_step_eq split: option.splits)

lemma ticks_steps: "sc_ticks c \<le> sc_ticks (fold (link_change_step clock) ls c)"
  by (induction ls arbitrary: c) (auto intro: order_trans [OF ticks_step])

lemma tracked_steps_other:
  "n \<notin> cl_name ` set ls \<Longrightarrow> tracked (fold (link_change_step clock) ls c) n = tracked c n"
  by (induction ls arbitrary: c) (auto simp: tracked_step)

lemma tracked_steps_link:
  assumes "distinct (map cl_name ls)" "l \<in> set ls"
  shows "\<exists>k\<ge>sc_ticks c. tracked (fold (link_change_step clock) ls c) (cl_name l)
    = observe clock k l (tracked c (cl_name l))"
  using assms
proof (induction ls arbitrary: c)
  case (Cons x ls)
  show ?case
  proof (cases "l = x")
    case True
    then have "cl_name l \<notin> cl_name ` set ls" using Cons.prems by auto
    then show ?thesis using True by (auto simp: tracked_steps_other tracked_step)
  next
    case False
    then have l: "l \<in> set ls" using Cons.prems by simp
    then have "cl_name l \<in> cl_name ` set ls" by (rule imageI)
    then have "cl_name l \<noteq> cl_name x" using Cons.prems(1) by (metis distinct.simps(2) list.map(2) list.set_map)
    moreover obtain k where "k \<ge> sc_ticks (link_change_step clock x c)"
      "tracked (fold (link_change_step clock) ls (link_change_step clock x c)) (cl_name l)
        = observe clock k l (tracked (link_change_step clock x c) (cl_name l))"
      using Cons.IH [of "link_change_step clock x c"] Cons.prems l by auto
    ultimately show ?thesis
      using ticks_step [of c clock x]
      by (intro exI [of _ k]) (auto simp: tracked_step)
  qed
qed simp

section \<open>Runs of the tracker\<close>

text \<open>The states of the tracking context that the plugin can reach: started on some link cache with
  unique names, then any number of cache-change callbacks.\<close>

inductive tracker_reach :: "tracking_env \<Rightarrow> (nat \<Rightarrow> int) \<Rightarrow> state_ctx \<Rightarrow> bool"
  for E clock where
  start: "init_state_changes_tracking E clock cache c0 = (0, c) \<Longrightarrow> tracker_reach E clock c"
| change: "tracker_reach E clock c \<Longrightarrow> link_cache_change_cb clock cache c = Some c'
    \<Longrightarrow> tracker_reach E clock c'"

inductive_cases tracker_reach_cases: "tracker_reach E clock c"

lemma init_tracking_ok:
  "init_state_changes_tracking E clock cache c0 = (0, c) \<Longrightarrow>
    init_links clock cache (c0\<lparr>sc_hash := [], sc_locked := False\<rparr>) = (0, c)"
  by (auto simp: init_state_changes_tracking_def state_hash_new_def Let_def split: if_splits prod.splits)

lemma init_links_locked: "sc_locked (snd (init_links clock ls c)) = sc_locked c"
proof (induction ls arbitrary: c)
  case (Cons l ls)
  then show ?case by (simp add: init_links_Cons del: init_links.simps)
qed simp

lemma reach_inv: "tracker_reach E clock c \<Longrightarrow> state_wf c \<and> \<not> sc_locked c"
proof (induction rule: tracker_reach.induct)
  case (start cache c0 c)
  then have i: "init_links clock cache (c0\<lparr>sc_hash := [], sc_locked := False\<rparr>) = (0, c)"
    by (rule init_tracking_ok)
  have "state_wf (c0\<lparr>sc_hash := [], sc_locked := False\<rparr>)" by (simp add: state_wf_def)
  from init_links_wf [OF this, of clock cache]
    init_links_locked [of clock cache "c0\<lparr>sc_hash := [], sc_locked := False\<rparr>"] i
  show ?case by simp
next
  case (change c cache c')
  then show ?case
    using link_change_steps_wf [of "c\<lparr>sc_locked := True\<rparr>" clock cache]
    by (auto simp: link_cache_change_cb_def state_wf_def Let_def)
qed

definition times_ok :: "(nat \<Rightarrow> int) \<Rightarrow> state_ctx \<Rightarrow> bool" where
  "times_ok clock c = (\<forall>n s t. tracked c n = Some (s, t) \<longrightarrow> t \<le> clock (sc_ticks c))"

lemma times_ok_lock [simp]: "times_ok clock (c\<lparr>sc_locked := b\<rparr>) = times_ok clock c"
  by (simp add: times_ok_def tracked_def)

lemma times_ok_step:
  assumes "mono clock" "times_ok clock c"
  shows "times_ok clock (link_change_step clock l c)"
  unfolding times_ok_def
proof (intro allI impI)
  fix n s t
  assume t: "tracked (link_change_step clock l c) n = Some (s, t)"
  have mono: "a \<le> b \<Longrightarrow> clock a \<le> clock b" for a b
    using assms(1) by (simp add: mono_def)
  have old: "tracked c n = Some (s, t) \<Longrightarrow> t \<le> clock (sc_ticks (link_change_step clock l c))"
    using assms(2) mono [OF ticks_step [of c clock l]] unfolding times_ok_def by (meson order_trans)
  show "t \<le> clock (sc_ticks (link_change_step clock l c))"
  proof (cases "tracked c n = Some (s, t)")
    case True
    then show ?thesis by (rule old)
  next
    case False
    then have n: "n = cl_name l" and ob: "observe clock (sc_ticks c) l (tracked c n) = Some (s, t)"
      using t by (auto simp: tracked_step split: if_splits)
    show ?thesis
    proof (cases "state_hash_get (sc_hash c) (Some (cl_name l))")
      case None
      then have "t = clock (sc_ticks c)" using ob n by (simp add: tracked_def observe_def)
      then show ?thesis using mono [OF ticks_step [of c clock l]] by simp
    next
      case (Some st)
      then have "st_state st \<noteq> cl_operstate l" "t = clock (Suc (sc_ticks c))"
        using ob n False by (auto simp: tracked_def observe_def split: if_splits)
      moreover from this Some have "sc_ticks (link_change_step clock l c) = sc_ticks c + 2"
        by (simp add: link_change_step_eq)
      ultimately show ?thesis using mono [of "Suc (sc_ticks c)" "sc_ticks c + 2"] by simp
    qed
  qed
qed

lemma times_ok_steps:
  "mono clock \<Longrightarrow> times_ok clock c \<Longrightarrow> times_ok clock (fold (link_change_step clock) ls c)"
  by (induction ls arbitrary: c) (auto simp: times_ok_step)

lemma times_ok_init:
  assumes "mono clock" "times_ok clock c"
  shows "times_ok clock (snd (init_links clock ls c))"
  using assms(2)
proof (induction ls arbitrary: c)
  case (Cons l ls)
  let ?c = "c\<lparr>sc_ticks := Suc (sc_ticks c), sc_hash := sc_hash c @ [fresh_state clock l c]\<rparr>"
  have up: "clock (sc_ticks c) \<le> clock (Suc (sc_ticks c))"
    using assms(1) by (simp add: mono_def)
  show ?case
  proof (cases "state_hash_get (sc_hash c) (Some (cl_name l))")
    case None
    then have "?c = link_change_step clock l c" by (simp add: link_change_step_eq)
    then have "times_ok clock ?c" using times_ok_step [OF assms(1) Cons.prems, of l] by simp
    then show ?thesis by (simp add: init_links_Cons None Cons.IH del: init_links.simps)
  next
    case (Some a)
    have "times_ok clock (c\<lparr>sc_ticks := Suc (sc_ticks c)\<rparr>)"
      using Cons.prems up unfolding times_ok_def tracked_def by (auto dest: order_trans)
    then show ?thesis by (simp add: init_links_Cons Some del: init_links.simps)
  qed
qed simp

lemma reach_times:
  assumes "mono clock"
  shows "tracker_reach E clock c \<Longrightarrow> times_ok clock c"
proof (induction rule: tracker_reach.induct)
  case (start cache c0 c)
  then have "init_links clock cache (c0\<lparr>sc_hash := [], sc_locked := False\<rparr>) = (0, c)"
    by (rule init_tracking_ok)
  moreover have "times_ok clock (c0\<lparr>sc_hash := [], sc_locked := False\<rparr>)"
    by (simp add: times_ok_def tracked_def state_hash_get_def table_simps)
  ultimately show ?case using times_ok_init [OF assms] by (metis snd_conv)
next
  case (change c cache c')
  have "times_ok clock (c\<lparr>sc_locked := True\<rparr>)"
    using change.IH by simp
  then have "times_ok clock (fold (link_change_step clock) cache (c\<lparr>sc_locked := True\<rparr>))"
    by (rule times_ok_steps [OF assms])
  then show ?case
    using change.hyps by (auto simp: link_cache_change_cb_def Let_def split: if_splits)
qed

section \<open>Properties\<close>

definition tracking_env_ok :: "tracking_env \<Rightarrow> bool" where
  "tracking_env_ok E = (te_socket_alloc E \<and> te_connect E = 0 \<and> te_alloc_cache E = 0 \<and> te_mutex_init E = 0
     \<and> te_mngr_alloc E = 0 \<and> te_mngr_add E = 0 \<and> te_attr_init E = 0 \<and> te_attr_setdetach E = 0
     \<and> te_thread_create E = 0)"

definition good_tracking_env :: tracking_env where
  "good_tracking_env = \<lparr> te_socket_alloc = True, te_connect = 0, te_alloc_cache = 0, te_mutex_init = 0,
     te_mngr_alloc = 0, te_mngr_add = 0, te_attr_init = 0, te_attr_setdetach = 0, te_thread_create = 0 \<rparr>"

lemma init_tracking_run:
  "tracking_env_ok E \<Longrightarrow> init_state_changes_tracking E clock cache c
    = (let (e, c2) = init_links clock cache (c\<lparr>sc_hash := [], sc_locked := False\<rparr>)
       in if e \<noteq> 0 then (-1, c2) else (0, c2))"
  by (simp add: init_state_changes_tracking_def tracking_env_ok_def state_hash_new_def Let_def
      split: prod.splits)

text \<open>When the library calls succeed and the link cache names every link once, starting the
  tracker succeeds, the hash holds exactly one entry per link in cache order with the link's
  operational state and its own clock reading, and whatever the hash held before is dropped.\<close>

theorem init_tracking_complete:
  assumes "tracking_env_ok E" "distinct (map cl_name cache)"
  shows "\<exists>c'. init_state_changes_tracking E clock cache c = (0, c') \<and> \<not> sc_locked c'
    \<and> map st_name (sc_hash c') = map (Some \<circ> cl_name) cache
    \<and> map st_state (sc_hash c') = map cl_operstate cache
    \<and> (\<forall>i<length cache. st_last_change (sc_hash c' ! i) = clock (sc_ticks c + i))"
proof -
  let ?c = "c\<lparr>sc_hash := [], sc_locked := False\<rparr>"
  let ?h = "map (\<lambda>(i, l). \<lparr>st_name = Some (cl_name l), st_state = cl_operstate l,
         st_last_change = clock (sc_ticks c + i)\<rparr>) (enumerate 0 cache)"
  have "init_links clock cache ?c = (0, ?c\<lparr>sc_ticks := sc_ticks c + length cache, sc_hash := ?h\<rparr>)"
    using init_links_correct [OF assms(2), of ?c clock] by (simp add: state_hash_get_def table_simps)
  then have "init_state_changes_tracking E clock cache c
      = (0, ?c\<lparr>sc_ticks := sc_ticks c + length cache, sc_hash := ?h\<rparr>)"
    by (simp add: init_tracking_run [OF assms(1)])
  moreover have "map st_name ?h = map (Some \<circ> cl_name) cache" "map st_state ?h = map cl_operstate cache"
    by (simp_all add: list_eq_iff_nth_eq nth_enumerate_eq)
  moreover have "\<forall>i<length cache. st_last_change (?h ! i) = clock (sc_ticks c + i)"
    by (simp add: nth_enumerate_eq)
  ultimately show ?thesis by simp
qed

theorem init_tracking_complete_witness:
  "\<exists>c'. init_state_changes_tracking good_tracking_env (\<lambda>n. 100 + int n)
      [\<lparr>cl_name = ''lo'', cl_operstate = 6\<rparr>, \<lparr>cl_name = ''eth0'', cl_operstate = 2\<rparr>]
      \<lparr>sc_hash = [], sc_locked = True, sc_ticks = 0\<rparr> = (0, c')
    \<and> map st_state (sc_hash c') = [6, 2]"
  using init_tracking_complete [of good_tracking_env
      "[\<lparr>cl_name = ''lo'', cl_operstate = 6\<rparr>, \<lparr>cl_name = ''eth0'', cl_operstate = 2\<rparr>]" "\<lambda>n. 100 + int n"
      "\<lparr>sc_hash = [], sc_locked = True, sc_ticks = 0\<rparr>"]
  by (auto simp: tracking_env_ok_def good_tracking_env_def)

text \<open>C24. From every state the plugin reaches, the cache-change callback does not block, and it
  implements the update of a map from names to (state, last change): a link of the cache is
  recorded with its current state, its time moving to a reading taken during the callback
  exactly when it is new or its state changed, and every other name keeps its entry, links that
  left the cache included.\<close>

theorem link_cache_change_refines:
  assumes "tracker_reach E clock c" "distinct (map cl_name cache)"
  shows "\<exists>c'. link_cache_change_cb clock cache c = Some c' \<and> tracker_reach E clock c'
    \<and> (\<forall>l\<in>set cache. \<exists>k\<ge>sc_ticks c. tracked c' (cl_name l) = observe clock k l (tracked c (cl_name l)))
    \<and> (\<forall>n. n \<notin> cl_name ` set cache \<longrightarrow> tracked c' n = tracked c n)"
proof -
  let ?c1 = "c\<lparr>sc_locked := True\<rparr>"
  let ?c' = "fold (link_change_step clock) cache ?c1\<lparr>sc_locked := False\<rparr>"
  have cb: "link_cache_change_cb clock cache c = Some ?c'"
    using reach_inv [OF assms(1)] by (simp add: link_cache_change_cb_def Let_def)
  moreover have "tracker_reach E clock ?c'"
    using assms(1) cb by (rule tracker_reach.change)
  moreover have "tracked ?c' n = tracked (fold (link_change_step clock) cache ?c1) n"
    "tracked ?c1 n = tracked c n" for n
    by (simp_all add: tracked_def)
  ultimately show ?thesis
    using tracked_steps_link [OF assms(2), of _ ?c1 clock] tracked_steps_other [of _ cache clock ?c1]
    by simp
qed

lemma witness_reach:
  "tracker_reach good_tracking_env int
     \<lparr>sc_hash = [\<lparr>st_name = Some ''lo'', st_state = 6, st_last_change = 0\<rparr>], sc_locked = False, sc_ticks = 1\<rparr>"
  by (rule tracker_reach.start
      [of _ _ "[\<lparr>cl_name = ''lo'', cl_operstate = 6\<rparr>]" "\<lparr>sc_hash = [], sc_locked = True, sc_ticks = 0\<rparr>"])
    (simp add: good_tracking_env_def init_state_changes_tracking_def state_hash_new_def state_element_defs
      state_hash_add_def table_simps hash_add_def)

theorem link_cache_change_refines_witness:
  "\<exists>c'. link_cache_change_cb int [\<lparr>cl_name = ''eth0'', cl_operstate = 2\<rparr>]
      \<lparr>sc_hash = [\<lparr>st_name = Some ''lo'', st_state = 6, st_last_change = 0\<rparr>], sc_locked = False, sc_ticks = 1\<rparr>
      = Some c' \<and> tracked c' ''lo'' = Some (6, 0)"
proof -
  let ?c = "\<lparr>sc_hash = [\<lparr>st_name = Some ''lo'', st_state = 6, st_last_change = 0\<rparr>], sc_locked = False, sc_ticks = 1\<rparr>"
  have "distinct (map cl_name [\<lparr>cl_name = ''eth0'', cl_operstate = 2\<rparr>])" by simp
  from link_cache_change_refines [OF witness_reach this] obtain c' where
    "link_cache_change_cb int [\<lparr>cl_name = ''eth0'', cl_operstate = 2\<rparr>] ?c = Some c'"
    and other: "\<forall>n. n \<notin> cl_name ` set [\<lparr>cl_name = ''eth0'', cl_operstate = 2\<rparr>] \<longrightarrow> tracked c' n = tracked ?c n"
    by blast
  moreover have "tracked c' ''lo'' = tracked ?c ''lo''" by (rule other [rule_format]) simp
  then have "tracked c' ''lo'' = Some (6, 0)" by (simp add: tracked_def state_hash_get_def table_simps)
  ultimately show ?thesis by blast
qed

text \<open>C36. In every state the plugin reaches the hash names no interface twice, the mutex is free
  between callbacks, and, when the clock never runs backwards, no recorded change is later than
  the current time.\<close>

theorem tracker_invariant:
  assumes "tracker_reach E clock c" "mono clock"
  shows "distinct (map st_name (sc_hash c)) \<and> \<not> sc_locked c
    \<and> (\<forall>n s t. tracked c n = Some (s, t) \<longrightarrow> t \<le> clock (sc_ticks c))"
  using reach_inv [OF assms(1)] reach_times [OF assms(2,1)] by (simp add: state_wf_def times_ok_def)

theorem tracker_invariant_witness:
  "tracked \<lparr>sc_hash = [\<lparr>st_name = Some ''lo'', st_state = 6, st_last_change = 0\<rparr>], sc_locked = False, sc_ticks = 1\<rparr> ''lo''
     = Some (6, 0) \<and> (0::int) \<le> int 1"
  using tracker_invariant [OF witness_reach] by (simp add: tracked_def state_hash_get_def table_simps mono_def)

end
