(* ===== verification/IfOper.thy ===== *)
theory IfOper
  imports IfState IfLoad IfLinkChange
begin

text \<open>
  The operational data of the interfaces plugin, \<^verbatim>\<open>subscription/operational.c\<close>: one getter per
  leaf or list, which finds the link the parent node is about and adds nodes below it.  What
  sysrepo, libyang and libnl answer is the record \<^verbatim>\<open>oper_env\<close>; the creation calls are the log of
  \<^verbatim>\<open>LyTree\<close>.  References taken on libnl objects and never given back are not tracked here.
\<close>

section \<open>What the libraries answer\<close>

datatype stat_id =
    RX_BYTES | RX_PACKETS | RX_DROPPED | RX_ERRORS | TX_BYTES | TX_PACKETS | TX_DROPPED | TX_ERRORS
  | IP6_INBCASTPKTS | IP6_INMCASTPKTS | IP6_INUNKNOWNPROTOS | IP6_OUTBCASTPKTS | IP6_OUTMCASTPKTS

text \<open>\<^verbatim>\<open>ol_phys\<close> is the printed address of the link, \<^verbatim>\<open>ol_rate\<close> the rate of a new queueing
  discipline on it, \<^verbatim>\<open>ol_master\<close> the index of its master, 0 for none.\<close>

record oper_link =
  ol_name :: cstr
  ol_ifindex :: int
  ol_flags :: "32 word"
  ol_operstate :: "8 word"
  ol_phys :: "cstr option"
  ol_master :: int
  ol_rate :: "64 word"
  ol_stat :: "stat_id \<Rightarrow> 64 word"

text \<open>\<^verbatim>\<open>oe_parent\<close> is the name of \<^verbatim>\<open>*parent\<close>, \<^verbatim>\<open>None\<close> for \<^verbatim>\<open>NULL\<close>; \<^verbatim>\<open>oe_addr_get\<close> gives the
  flags of a cached address, \<^verbatim>\<open>oe_neigh_get\<close> flags and state of a cached neighbor.\<close>

record oper_env =
  oe_parent :: "cstr option"
  oe_path :: "cstr option"
  oe_key :: "cstr \<Rightarrow> cstr \<Rightarrow> cstr \<Rightarrow> cstr option"
  oe_links :: "oper_link list option"
  oe_link_by_name :: "cstr \<Rightarrow> oper_link option"
  oe_link_get :: "int \<Rightarrow> oper_link option"
  oe_addrs :: "addr_obj list option"
  oe_neighs :: "neigh_obj list option"
  oe_create :: ly_env
  oe_context :: bool
  oe_connection :: bool
  oe_session_start :: int
  oe_get_item :: "cstr \<Rightarrow> int \<times> sr_val"
  oe_parse :: "cstr \<Rightarrow> family \<Rightarrow> int"
  oe_addr_get :: "int \<Rightarrow> cstr \<Rightarrow> family \<Rightarrow> 32 word option"
  oe_neigh_get :: "int \<Rightarrow> cstr \<Rightarrow> family \<Rightarrow> (32 word \<times> int) option"
  oe_now :: int
  oe_uptime :: "int option"
  oe_localtime :: "int \<Rightarrow> bool"
  oe_strftime :: "int \<Rightarrow> cstr"

type_synonym getter = "oper_env \<Rightarrow> ly_log \<Rightarrow> (int \<times> ly_log) outcome"

definition callback_failed :: "ly_log \<Rightarrow> (int \<times> ly_log) outcome" where
  "callback_failed log = Ret (SR_ERR_CALLBACK_FAILED, log)"

text \<open>The last call of a getter: add one node.\<close>

definition add_node :: "oper_env \<Rightarrow> ly_call \<Rightarrow> ly_log \<Rightarrow> (int \<times> ly_log) outcome" where
  "add_node E c log = (case ly_do (oe_create E) c log of (e, log') \<Rightarrow>
     if e \<noteq> 0 then callback_failed log' else Ret (0, log'))"

section \<open>Finding the link\<close>

definition extract_interface_name :: "oper_env \<Rightarrow> cstr \<Rightarrow> cstr option" where
  "extract_interface_name E xpath = map_option (cbuf 100) (oe_key E xpath ''interface'' ''name'')"

definition extract_interface_address_ip :: "oper_env \<Rightarrow> nat \<Rightarrow> cstr \<Rightarrow> cstr option" where
  "extract_interface_address_ip E buffer_size xpath = map_option (cbuf buffer_size) (oe_key E xpath ''address'' ''ip'')"

definition extract_interface_neighbor_ip :: "oper_env \<Rightarrow> nat \<Rightarrow> cstr \<Rightarrow> cstr option" where
  "extract_interface_neighbor_ip E buffer_size xpath = map_option (cbuf buffer_size) (oe_key E xpath ''neighbor'' ''ip'')"

definition get_current_link :: "oper_env \<Rightarrow> cstr \<Rightarrow> oper_link option outcome" where
  "get_current_link E xpath =
    (if oe_links E = None then Abort
     else case extract_interface_name E xpath of
       None \<Rightarrow> Ret None
     | Some name \<Rightarrow> Ret (oe_link_by_name E name))"

text \<open>The first lines of every getter: the two assertions on the parent, its path, its link.\<close>

definition find_link :: "oper_env \<Rightarrow> cstr \<Rightarrow> (cstr \<times> oper_link) option outcome" where
  "find_link E node =
    (case oe_parent E of
       None \<Rightarrow> Abort
     | Some nm \<Rightarrow>
       if nm \<noteq> node then Abort else
       case oe_path E of
         None \<Rightarrow> Ret None
       | Some xpath \<Rightarrow> obind (get_current_link E xpath) (\<lambda>l. Ret (map_option (\<lambda>link. (xpath, link)) l)))"

definition with_link :: "oper_env \<Rightarrow> cstr \<Rightarrow> (cstr \<Rightarrow> oper_link \<Rightarrow> ly_log \<Rightarrow> (int \<times> ly_log) outcome)
    \<Rightarrow> ly_log \<Rightarrow> (int \<times> ly_log) outcome" where
  "with_link E node k log =
    obind (find_link E node) (\<lambda>r. case r of None \<Rightarrow> callback_failed log | Some (xpath, link) \<Rightarrow> k xpath link log)"

section \<open>Leaves of an interface\<close>

abbreviation IFF_UP :: "32 word" where "IFF_UP \<equiv> 1"
abbreviation IFF_RUNNING :: "32 word" where "IFF_RUNNING \<equiv> 0x40"

definition oper_admin_status :: getter where
  "oper_admin_status E = with_link E ''interface'' (\<lambda>xpath link.
     add_node E (tree_admin_status Parent (Ptr
       (if and (ol_flags link) IFF_UP \<noteq> 0 \<or> and (ol_flags link) IFF_RUNNING \<noteq> 0 then ''up'' else ''down''))))"

text \<open>An array of seven strings, read at the state.\<close>

definition operstate_map :: "cstr list" where
  "operstate_map = [''unknown'', ''not-present'', ''down'', ''lower-layer-down'', ''testing'', ''dormant'', ''up'']"

definition oper_oper_status :: getter where
  "oper_oper_status E = with_link E ''interface'' (\<lambda>xpath link log.
     if unat (ol_operstate link) < length operstate_map
     then add_node E (tree_oper_status Parent (Ptr (operstate_map ! unat (ol_operstate link)))) log
     else Undef)"

text \<open>The label unlocks the mutex, also when the jump came from before the lock: unlocking a mutex that
  is not locked is undefined.  \<^verbatim>\<open>strftime\<close> returns 0, here the empty string, when it fails.\<close>

definition oper_last_change :: "state_hash \<Rightarrow> getter" where
  "oper_last_change hash E log =
    obind (find_link E ''interface'') (\<lambda>r. case r of
      None \<Rightarrow> Undef
    | Some (xpath, link) \<Rightarrow>
        (case state_hash_get hash (Some (ol_name link)) of
           None \<Rightarrow> callback_failed log
         | Some el \<Rightarrow>
             if \<not> oe_localtime E (st_last_change el) then Undef
             else if oe_strftime E (st_last_change el) = [] then callback_failed log
             else add_node E (tree_last_change Parent (Ptr (oe_strftime E (st_last_change el)))) log))"

definition oper_if_index :: getter where
  "oper_if_index E = with_link E ''interface'' (\<lambda>xpath link.
     add_node E (tree_if_index Parent (Ptr (dec_int (ol_ifindex link)))))"

definition oper_phys_address :: getter where
  "oper_phys_address E = with_link E ''interface'' (\<lambda>xpath link.
     case ol_phys link of
       None \<Rightarrow> callback_failed
     | Some s \<Rightarrow> add_node E (tree_phys_address Parent (Ptr (cbuf 100 s))))"

definition oper_speed :: getter where
  "oper_speed E = with_link E ''interface'' (\<lambda>xpath link.
     add_node E (tree_speed Parent (Ptr (dec (unat (ol_rate link))))))"

section \<open>Higher and lower layers\<close>

text \<open>The chain of masters may be circular, so the walk has fuel; \<^verbatim>\<open>None\<close> is a walk that has not
  returned yet.  A master missing from the cache is a \<^verbatim>\<open>NULL\<close> link whose name is read.\<close>

fun higher_loop :: "oper_env \<Rightarrow> nat \<Rightarrow> int \<Rightarrow> ly_log \<Rightarrow> (int \<times> ly_log) outcome option" where
  "higher_loop E 0 master_if_index log = None"
| "higher_loop E (Suc fuel) master_if_index log =
    (if master_if_index = 0 then Some (Ret (0, log))
     else case oe_link_get E master_if_index of
       None \<Rightarrow> Some Undef
     | Some m \<Rightarrow>
         (case ly_do (oe_create E) (tree_higher_layer_if Parent (Ptr (ol_name m))) log of (e, log') \<Rightarrow>
            if e \<noteq> 0 then Some (callback_failed log') else higher_loop E fuel (ol_master m) log'))"

definition oper_higher_layer_if :: "oper_env \<Rightarrow> nat \<Rightarrow> ly_log \<Rightarrow> (int \<times> ly_log) outcome option" where
  "oper_higher_layer_if E fuel log =
    (case find_link E ''interface'' of
       Abort \<Rightarrow> Some Abort
     | Undef \<Rightarrow> Some Undef
     | Ret None \<Rightarrow> Some (callback_failed log)
     | Ret (Some (xpath, link)) \<Rightarrow> higher_loop E fuel (ol_master link) log)"

text \<open>The walk of the inner loop: does the chain contain a link of this name?  It starts at the master of
  the current link, not of the iterated one.\<close>

fun lower_walk :: "oper_env \<Rightarrow> nat \<Rightarrow> cstr \<Rightarrow> int \<Rightarrow> bool outcome option" where
  "lower_walk E 0 name master_if_index = None"
| "lower_walk E (Suc fuel) name master_if_index =
    (if master_if_index = 0 then Some (Ret False)
     else case oe_link_get E master_if_index of
       None \<Rightarrow> Some Undef
     | Some m \<Rightarrow> if ol_name m = name then Some (Ret True) else lower_walk E fuel name (ol_master m))"

fun lower_loop :: "oper_env \<Rightarrow> nat \<Rightarrow> oper_link \<Rightarrow> oper_link list \<Rightarrow> ly_log \<Rightarrow> (int \<times> ly_log) outcome option" where
  "lower_loop E fuel link [] log = Some (Ret (0, log))"
| "lower_loop E fuel link (link_iter # links) log =
    (case lower_walk E fuel (ol_name link) (ol_master link) of
       None \<Rightarrow> None
     | Some (Ret True) \<Rightarrow>
         (case ly_do (oe_create E) (tree_lower_layer_if Parent (Ptr (ol_name link_iter))) log of (e, log') \<Rightarrow>
            if e \<noteq> 0 then Some (callback_failed log') else lower_loop E fuel link links log')
     | Some (Ret False) \<Rightarrow> lower_loop E fuel link links log
     | Some Undef \<Rightarrow> Some Undef
     | Some Abort \<Rightarrow> Some Abort)"

definition oper_lower_layer_if :: "oper_env \<Rightarrow> nat \<Rightarrow> ly_log \<Rightarrow> (int \<times> ly_log) outcome option" where
  "oper_lower_layer_if E fuel log =
    (case find_link E ''interface'' of
       Abort \<Rightarrow> Some Abort
     | Undef \<Rightarrow> Some Undef
     | Ret None \<Rightarrow> Some (callback_failed log)
     | Ret (Some (xpath, link)) \<Rightarrow> (case oe_links E of None \<Rightarrow> Some Undef | Some links \<Rightarrow> lower_loop E fuel link links log))"

section \<open>Statistics\<close>

text \<open>The boot time: the error code and what the buffer holds.\<close>

definition get_system_boot_time :: "oper_env \<Rightarrow> int \<times> cstr" where
  "get_system_boot_time E =
    (if \<not> oe_localtime E (oe_now E) then (-1, [])
     else case oe_uptime E of
       None \<Rightarrow> (-1, [])
     | Some uptime_seconds \<Rightarrow>
         let diff = oe_now E - uptime_seconds
         in if \<not> oe_localtime E diff then (-1, []) else (0, oe_strftime E diff))"

definition statistics_discontinuity_time :: getter where
  "statistics_discontinuity_time E = with_link E ''statistics'' (\<lambda>xpath link.
     case get_system_boot_time E of (e, s) \<Rightarrow>
       if e \<noteq> 0 then callback_failed else add_node E (tree_statistics_discontinuity_time Parent (Ptr s)))"

text \<open>\<^verbatim>\<open>%lu\<close> of a 64-bit counter.\<close>

definition stat_leaf :: "oper_env \<Rightarrow> (ly_ref \<Rightarrow> cptr \<Rightarrow> ly_call) \<Rightarrow> (oper_link \<Rightarrow> nat) \<Rightarrow> ly_log \<Rightarrow> (int \<times> ly_log) outcome" where
  "stat_leaf E mk v = with_link E ''statistics'' (\<lambda>xpath link. add_node E (mk Parent (Ptr (dec (v link)))))"

definition statistics_in_octets :: getter where
  "statistics_in_octets E = stat_leaf E tree_statistics_in_octets (\<lambda>l. unat (ol_stat l RX_BYTES))"

definition statistics_in_unicast_pkts :: getter where
  "statistics_in_unicast_pkts E = stat_leaf E tree_statistics_in_unicast_pkts
     (\<lambda>l. unat (ol_stat l RX_PACKETS - ol_stat l IP6_INBCASTPKTS - ol_stat l IP6_INMCASTPKTS))"

definition statistics_in_broadcast_pkts :: getter where
  "statistics_in_broadcast_pkts E = stat_leaf E tree_statistics_in_broadcast_pkts (\<lambda>l. unat (ol_stat l IP6_INBCASTPKTS))"

definition statistics_in_multicast_pkts :: getter where
  "statistics_in_multicast_pkts E = stat_leaf E tree_statistics_in_multicast_pkts (\<lambda>l. unat (ol_stat l IP6_INMCASTPKTS))"

text \<open>The casts to \<^verbatim>\<open>uint32_t\<close>.\<close>

definition statistics_in_discards :: getter where
  "statistics_in_discards E = stat_leaf E tree_statistics_in_discards (\<lambda>l. unat (ucast (ol_stat l RX_DROPPED) :: 32 word))"

definition statistics_in_errors :: getter where
  "statistics_in_errors E = stat_leaf E tree_statistics_in_errors (\<lambda>l. unat (ucast (ol_stat l RX_ERRORS) :: 32 word))"

definition statistics_in_unknown_protos :: getter where
  "statistics_in_unknown_protos E = stat_leaf E tree_statistics_in_unknown_protos (\<lambda>l. unat (ucast (ol_stat l IP6_INUNKNOWNPROTOS) :: 32 word))"

definition statistics_out_octets :: getter where
  "statistics_out_octets E = stat_leaf E tree_statistics_out_octets (\<lambda>l. unat (ol_stat l TX_BYTES))"

definition statistics_out_unicast_pkts :: getter where
  "statistics_out_unicast_pkts E = stat_leaf E tree_statistics_out_unicast_pkts
     (\<lambda>l. unat (ol_stat l TX_PACKETS - ol_stat l IP6_OUTBCASTPKTS - ol_stat l IP6_OUTMCASTPKTS))"

definition statistics_out_broadcast_pkts :: getter where
  "statistics_out_broadcast_pkts E = stat_leaf E tree_statistics_out_broadcast_pkts (\<lambda>l. unat (ol_stat l IP6_OUTBCASTPKTS))"

definition statistics_out_multicast_pkts :: getter where
  "statistics_out_multicast_pkts E = stat_leaf E tree_statistics_out_multicast_pkts (\<lambda>l. unat (ol_stat l IP6_OUTMCASTPKTS))"

definition statistics_out_discards :: getter where
  "statistics_out_discards E = stat_leaf E tree_statistics_out_discards (\<lambda>l. unat (ol_stat l TX_DROPPED))"

definition statistics_out_errors :: getter where
  "statistics_out_errors E = stat_leaf E tree_statistics_out_errors (\<lambda>l. unat (ol_stat l TX_DROPPED))"

end
