(* ===== verification/IfOperIp.thy ===== *)
theory IfOperIp
  imports IfOper
begin

text \<open>
  The operational data of addresses and neighbors, the list of interfaces, and the getters that
  provide nothing yet: the second half of \<^verbatim>\<open>subscription/operational.c\<close>.
\<close>

section \<open>Getters that provide nothing\<close>

text \<open>Seven copies of the same code.\<close>

definition no_data :: getter where
  "no_data E log =
    (if oe_parent E = None \<and> \<not> oe_context E then callback_failed log else Ret (0, log))"

definition statistics_in_discard_unknown_encaps :: getter where
  "statistics_in_discard_unknown_encaps = no_data"

definition carrier_delay_carrier_transitions :: getter where
  "carrier_delay_carrier_transitions = no_data"

definition carrier_delay_timer_running :: getter where
  "carrier_delay_timer_running = no_data"

definition dampening_penalty :: getter where
  "dampening_penalty = no_data"

definition dampening_suppressed :: getter where
  "dampening_suppressed = no_data"

definition dampening_time_remaining :: getter where
  "dampening_time_remaining = no_data"

definition forwarding_mode :: getter where
  "forwarding_mode = no_data"

section \<open>Leaves of an address\<close>

text \<open>The common part of the three getters: the prefix length is read from the running datastore, and
  the address is looked up in the cache with it.  Without a parent node the context is asked for
  first and the assertion fails after that.\<close>

definition with_address :: "oper_env \<Rightarrow> family \<Rightarrow> cstr \<Rightarrow> nat \<Rightarrow> (32 word \<Rightarrow> ly_log \<Rightarrow> (int \<times> ly_log) outcome)
    \<Rightarrow> ly_log \<Rightarrow> (int \<times> ly_log) outcome" where
  "with_address E f ipv ip_size k log =
    (if oe_parent E = None \<and> \<not> oe_context E then callback_failed log
     else if \<not> oe_connection E then callback_failed log
     else if oe_session_start E \<noteq> 0 then callback_failed log
     else with_link E ''address'' (\<lambda>xpath link log.
       case extract_interface_address_ip E ip_size xpath of
         None \<Rightarrow> callback_failed log
       | Some ip \<Rightarrow>
         (case oe_get_item E (ip_node_path ipv (ol_name link) ''address'' ip ''prefix-length'') of (e, v) \<Rightarrow>
           if e \<noteq> 0 then callback_failed log else
           obind (uint8_val v) (\<lambda>prefix_length.
             let address = cbuf 100 (ip @ ''/'' @ dec (unat prefix_length)) in
             if oe_parse E address f \<noteq> 0 then callback_failed log else
             if oe_addrs E = None then Undef else
             case oe_addr_get E (ol_ifindex link) address f of
               None \<Rightarrow> callback_failed log
             | Some flags \<Rightarrow> k flags log))) log)"

abbreviation IFA_F_PERMANENT :: "32 word" where "IFA_F_PERMANENT \<equiv> 0x80"

definition address_origin :: "32 word \<Rightarrow> cstr" where
  "address_origin flags = (if and flags IFA_F_PERMANENT \<noteq> 0 then ''static'' else ''dhcp'')"

definition oper_ipv4_address_origin :: getter where
  "oper_ipv4_address_origin E = with_address E AF_INET ''ipv4'' 20 (\<lambda>flags.
     add_node E (tree_ipv4_address_origin Parent (Ptr (address_origin flags))))"

definition oper_ipv6_address_origin :: getter where
  "oper_ipv6_address_origin E = with_address E AF_INET6 ''ipv6'' 100 (\<lambda>flags.
     add_node E (tree_ipv6_address_origin Parent (Ptr (address_origin flags))))"

definition oper_ipv6_address_status :: getter where
  "oper_ipv6_address_status E = with_address E AF_INET6 ''ipv6'' 100 (\<lambda>flags.
     add_node E (tree_ipv6_address_status Parent (Ptr ''preferred'')))"

section \<open>Leaves of a neighbor\<close>

definition with_neighbor :: "oper_env \<Rightarrow> family \<Rightarrow> nat \<Rightarrow> (32 word \<times> int \<Rightarrow> ly_log \<Rightarrow> (int \<times> ly_log) outcome)
    \<Rightarrow> ly_log \<Rightarrow> (int \<times> ly_log) outcome" where
  "with_neighbor E f ip_size k log =
    (if oe_parent E = None \<and> \<not> oe_context E then callback_failed log
     else with_link E ''neighbor'' (\<lambda>xpath link log.
       case extract_interface_neighbor_ip E ip_size xpath of
         None \<Rightarrow> callback_failed log
       | Some ip \<Rightarrow>
         if oe_parse E ip f \<noteq> 0 then callback_failed log else
         if oe_neighs E = None then Undef else
         case oe_neigh_get E (ol_ifindex link) ip f of
           None \<Rightarrow> callback_failed log
         | Some neigh \<Rightarrow> k neigh log) log)"

abbreviation NTF_ROUTER :: "32 word" where "NTF_ROUTER \<equiv> 0x80"

definition neighbor_origin :: "32 word \<Rightarrow> cstr" where
  "neighbor_origin flags = (if and flags NTF_ROUTER \<noteq> 0 then ''dynamic'' else ''static'')"

definition oper_ipv4_neighbor_origin :: getter where
  "oper_ipv4_neighbor_origin E = with_neighbor E AF_INET 20 (\<lambda>(flags, state).
     add_node E (tree_ipv4_neighbor_origin Parent (Ptr (neighbor_origin flags))))"

definition oper_ipv6_neighbor_origin :: getter where
  "oper_ipv6_neighbor_origin E = with_neighbor E AF_INET6 100 (\<lambda>(flags, state).
     add_node E (tree_ipv6_neighbor_origin Parent (Ptr (neighbor_origin flags))))"

definition oper_ipv6_neighbor_is_router :: getter where
  "oper_ipv6_neighbor_is_router E = with_neighbor E AF_INET6 100 (\<lambda>(flags, state) log.
     if and flags NTF_ROUTER \<noteq> 0 then add_node E (tree_ipv6_neighbor_is_router Parent (Ptr [])) log
     else Ret (0, log))"

text \<open>\<^verbatim>\<open>state_map\<close> has 129 entries, \<^verbatim>\<open>NULL\<close> where no state is named.\<close>

abbreviation NUD_FAILED :: int where "NUD_FAILED \<equiv> 0x20"
abbreviation NUD_NOARP :: int where "NUD_NOARP \<equiv> 0x40"
abbreviation NUD_PERMANENT :: int where "NUD_PERMANENT \<equiv> 0x80"

definition state_map :: "int \<Rightarrow> cptr outcome" where
  "state_map s =
    (if s < 0 \<or> NUD_PERMANENT < s then Undef
     else Ret (if s = 0x01 then Ptr ''incomplete'' else if s = 0x02 then Ptr ''reachable''
       else if s = 0x04 then Ptr ''stale'' else if s = 0x08 then Ptr ''delay'' else if s = 0x10 then Ptr ''probe''
       else if s = NUD_FAILED then Ptr ''failed'' else if s = NUD_NOARP then Ptr ''noarp''
       else if s = NUD_PERMANENT then Ptr ''permanent'' else Null))"

definition oper_ipv6_neighbor_state :: getter where
  "oper_ipv6_neighbor_state E = with_neighbor E AF_INET6 100 (\<lambda>(flags, s) log.
     obind (state_map s) (\<lambda>state.
       if s \<noteq> NUD_FAILED \<and> s \<noteq> NUD_NOARP \<and> s \<noteq> NUD_PERMANENT
       then add_node E (tree_ipv6_neighbor_state Parent state) log
       else Ret (0, log)))"

section \<open>Lists of addresses and neighbors\<close>

text \<open>The label of the loops; the code behind it replaces the error.\<close>

definition list_failed :: "ly_log \<Rightarrow> int \<times> ly_log" where
  "list_failed log = (-1, log)"

definition loop_result :: "int \<times> ly_log \<Rightarrow> (int \<times> ly_log) outcome" where
  "loop_result r = (if fst r \<noteq> 0 then callback_failed (snd r) else Ret r)"

text \<open>The printed address in a buffer, cut at the slash.\<close>

definition ip_text :: "nat \<Rightarrow> cstr \<Rightarrow> cstr" where
  "ip_text sz s = takeWhile (\<lambda>c. c \<noteq> CHR ''/'') (cbuf sz s)"

definition oper_address_step :: "ly_env \<Rightarrow> (ly_ref \<Rightarrow> cptr \<Rightarrow> ly_call) \<Rightarrow> (ly_ref \<Rightarrow> cptr \<Rightarrow> ly_call) \<Rightarrow> nat \<Rightarrow> family
    \<Rightarrow> oper_link \<Rightarrow> addr_obj \<Rightarrow> ly_log \<Rightarrow> int \<times> ly_log" where
  "oper_address_step Y mk_address mk_prefix sz f link a =
    (if ao_ifindex a = ol_ifindex link \<and> ao_family a = f then
       case ao_local a of
         None \<Rightarrow> list_failed
       | Some s \<Rightarrow>
         safe_create Y (mk_address Parent (Ptr (ip_text sz s))) list_failed (\<lambda>n.
         safe_call (ly_do Y (mk_prefix n (Ptr (cbuf 20 (dec_int (sint (ao_prefixlen a))))))) list_failed (\<lambda>log. (0, log)))
     else (\<lambda>log. (0, log)))"

definition oper_neighbor_step :: "ly_env \<Rightarrow> (ly_ref \<Rightarrow> cptr \<Rightarrow> ly_call) \<Rightarrow> (ly_ref \<Rightarrow> cptr \<Rightarrow> ly_call) \<Rightarrow> nat \<Rightarrow> family
    \<Rightarrow> oper_link \<Rightarrow> neigh_obj \<Rightarrow> ly_log \<Rightarrow> int \<times> ly_log" where
  "oper_neighbor_step Y mk_neighbor mk_ll sz f link a =
    (if no_ifindex a = ol_ifindex link \<and> no_family a = f then
       case no_dst a of
         None \<Rightarrow> list_failed
       | Some dst \<Rightarrow>
       (case no_lladdr a of
         None \<Rightarrow> list_failed
       | Some ll \<Rightarrow>
         safe_create Y (mk_neighbor Parent (Ptr (ip_text sz dst))) list_failed (\<lambda>n.
         safe_call (ly_do Y (mk_ll n (Ptr (cbuf 100 ll)))) list_failed (\<lambda>log. (0, log))))
     else (\<lambda>log. (0, log)))"

definition oper_list :: "cstr \<Rightarrow> (oper_env \<Rightarrow> 'o list option) \<Rightarrow> (oper_env \<Rightarrow> oper_link \<Rightarrow> 'o \<Rightarrow> ly_log \<Rightarrow> int \<times> ly_log) \<Rightarrow> getter" where
  "oper_list node cache step E log =
    (if oe_parent E = None \<and> \<not> oe_context E then callback_failed log
     else with_link E node (\<lambda>xpath link log.
       case cache E of None \<Rightarrow> Undef | Some os \<Rightarrow> loop_result (until_fail (step E link) os log)) log)"

definition oper_ipv4_address :: getter where
  "oper_ipv4_address = oper_list ''ipv4'' oe_addrs
     (\<lambda>E. oper_address_step (oe_create E) tree_ipv4_address tree_ipv4_address_prefix_length 20 AF_INET)"

definition oper_ipv6_address :: getter where
  "oper_ipv6_address = oper_list ''ipv6'' oe_addrs
     (\<lambda>E. oper_address_step (oe_create E) tree_ipv6_address tree_ipv6_address_prefix_length 100 AF_INET6)"

definition oper_ipv4_neighbor :: getter where
  "oper_ipv4_neighbor = oper_list ''ipv4'' oe_neighs
     (\<lambda>E. oper_neighbor_step (oe_create E) tree_ipv4_neighbor tree_ipv4_neighbor_link_layer_address 20 AF_INET)"

definition oper_ipv6_neighbor :: getter where
  "oper_ipv6_neighbor = oper_list ''ipv6'' oe_neighs
     (\<lambda>E. oper_neighbor_step (oe_create E) tree_ipv6_neighbor tree_ipv6_neighbor_link_layer_address 100 AF_INET6)"

section \<open>The list of interfaces\<close>

text \<open>The netlink context of the operational data, which lives from request to request.  A cache
  is \<^verbatim>\<open>NULL\<close> or allocated.\<close>

record oper_nl =
  on_socket :: bool
  on_link_cache :: bool
  on_addr_cache :: bool
  on_neigh_cache :: bool

text \<open>What this request is answered; the names of the links after the caches were filled.\<close>

record list_env =
  le_socket :: bool
  le_connect :: int
  le_link_cache :: int
  le_addr_cache :: int
  le_neigh_cache :: int
  le_parent :: bool
  le_context :: bool
  le_names :: "cstr list"
  le_create :: ly_env

definition interface_step :: "ly_env \<Rightarrow> ly_ref \<Rightarrow> cstr \<Rightarrow> ly_log \<Rightarrow> int \<times> ly_log" where
  "interface_step Y parent name =
    (safe_create Y (tree_interface parent (Ptr name)) list_failed (\<lambda>n.
     safe_call (ly_do Y (tree_statistics n)) list_failed (
     safe_call (ly_do Y (tree_ipv4 n)) list_failed (
     safe_call (ly_do Y (tree_ipv6 n)) list_failed (\<lambda>log. (0, log))))))"

text \<open>The socket and the caches.  A refill of a cache that is \<^verbatim>\<open>NULL\<close> is undefined; the result of the
  others is ignored.\<close>

definition prepare_socket :: "list_env \<Rightarrow> oper_nl \<Rightarrow> int \<times> oper_nl" where
  "prepare_socket F c =
    (if on_socket c then (0, c)
     else if \<not> le_socket F then (-1, c)
     else (le_connect F, c\<lparr>on_socket := True\<rparr>))"

definition prepare_caches :: "list_env \<Rightarrow> oper_nl \<Rightarrow> (int \<times> oper_nl) outcome" where
  "prepare_caches F c =
    (if on_link_cache c then (if on_addr_cache c \<and> on_neigh_cache c then Ret (0, c) else Undef)
     else if le_link_cache F \<noteq> 0 then Ret (-1, c)
     else let c1 = c\<lparr>on_link_cache := True\<rparr> in
     if le_addr_cache F \<noteq> 0 then Ret (-1, c1)
     else let c2 = c1\<lparr>on_addr_cache := True\<rparr> in
     if le_neigh_cache F \<noteq> 0 then Ret (-1, c2)
     else Ret (0, c2\<lparr>on_neigh_cache := True\<rparr>))"

definition oper_interface :: "list_env \<Rightarrow> oper_nl \<Rightarrow> ly_log \<Rightarrow> (int \<times> oper_nl \<times> ly_log) outcome" where
  "oper_interface F c log =
    (case prepare_socket F c of (e1, c1) \<Rightarrow>
     if e1 \<noteq> 0 then Ret (SR_ERR_CALLBACK_FAILED, c1, log) else
     obind (prepare_caches F c1) (\<lambda>(e2, c2).
     if e2 \<noteq> 0 then Ret (SR_ERR_CALLBACK_FAILED, c2, log) else
     let loop = (\<lambda>parent log. case until_fail (interface_step (le_create F) parent) (le_names F) log of (e, log') \<Rightarrow>
                   Ret (if e \<noteq> 0 then SR_ERR_CALLBACK_FAILED else 0, c2, log'))
     in if le_parent F then loop Parent log
        else if \<not> le_context F then Ret (SR_ERR_CALLBACK_FAILED, c2, log)
        else case ly_do (le_create F) tree_interfaces log of (e3, log1) \<Rightarrow>
          if e3 \<noteq> 0 then Ret (SR_ERR_CALLBACK_FAILED, c2, log1) else loop (Created (length log)) log1))"

section \<open>Lemmas\<close>

lemma with_link_found: "find_link E node = Ret (Some (xpath, link)) \<Longrightarrow> with_link E node k log = k xpath link log"
  by (simp add: with_link_def)

lemma find_link_parent: "find_link E node = Ret r \<Longrightarrow> oe_parent E = Some node"
  by (auto simp: find_link_def split: option.splits if_splits)

text \<open>The masters above an index.\<close>

inductive master_chain :: "oper_env \<Rightarrow> int \<Rightarrow> oper_link list \<Rightarrow> bool" for E where
  chain_top: "master_chain E 0 []"
| chain_up: "idx \<noteq> 0 \<Longrightarrow> oe_link_get E idx = Some m \<Longrightarrow> master_chain E (ol_master m) ms \<Longrightarrow> master_chain E idx (m # ms)"

inductive_simps master_chain_simps: "master_chain E idx []" "master_chain E idx (m # ms)"
inductive_cases master_chain_zeroE: "master_chain E 0 ms"

lemma master_chain_step:
  "idx \<noteq> 0 \<Longrightarrow> oe_link_get E idx = Some m \<Longrightarrow>
    master_chain E idx ms \<longleftrightarrow> (\<exists>ms'. ms = m # ms' \<and> master_chain E (ol_master m) ms')"
  by (cases ms) (auto simp: master_chain_simps)

definition higher_calls :: "oper_link list \<Rightarrow> ly_log" where
  "higher_calls ms = map (\<lambda>m. Append_leaf_list Parent ''higher-layer-if'' (Ptr (ol_name m))) ms"

lemma higher_loop_iff:
  assumes "\<And>log c. oe_create E log c = 0" "\<And>i. i \<noteq> 0 \<Longrightarrow> oe_link_get E i \<noteq> None"
  shows "higher_loop E fuel idx log = Some r
    \<longleftrightarrow> (\<exists>ms. master_chain E idx ms \<and> length ms < fuel \<and> r = Ret (0, log @ higher_calls ms))"
proof (induction fuel arbitrary: idx log)
  case (Suc fuel)
  show ?case
  proof (cases "idx = 0")
    case True
    then show ?thesis by (auto simp: higher_calls_def elim!: master_chain_zeroE intro: chain_top)
  next
    case False
    then obtain m where m: "oe_link_get E idx = Some m" using assms(2) by blast
    then show ?thesis
      using False by (auto simp: assms(1) ly_do_def Suc.IH higher_calls_def master_chain_step [OF False m])
  qed
qed simp

lemma lower_walk_False:
  "master_chain E idx ms \<Longrightarrow> length ms < fuel \<Longrightarrow> \<forall>m\<in>set ms. ol_name m \<noteq> name \<Longrightarrow> lower_walk E fuel name idx = Some (Ret False)"
proof (induction arbitrary: fuel rule: master_chain.induct)
  case chain_top
  then show ?case by (cases fuel) auto
next
  case (chain_up idx m ms)
  then show ?case by (cases fuel) auto
qed

lemma lower_loop_nothing:
  "lower_walk E fuel (ol_name link) (ol_master link) = Some (Ret False) \<Longrightarrow> lower_loop E fuel link links log = Some (Ret (0, log))"
  by (induction links) auto

text \<open>Lists: the calls of a list getter.\<close>

definition plan_if :: "('a \<Rightarrow> bool) \<Rightarrow> (nat \<Rightarrow> 'a \<Rightarrow> ly_call list) \<Rightarrow> nat \<Rightarrow> 'a \<Rightarrow> ly_call list" where
  "plan_if P p b a = (if P a then p b a else [])"

lemma plan_many_filter: "plan_many (plan_if P p) b xs = plan_many p b (filter P xs)"
  by (induction xs arbitrary: b) (auto simp: plan_if_def)

lemma plan_many_map:
  "(\<And>x b. x \<in> set xs \<Longrightarrow> p b x = q b (g x)) \<Longrightarrow> plan_many p b xs = plan_many q b (map g xs)"
  by (induction xs arbitrary: b) auto

lemma executes_many_on:
  assumes "\<And>x. x \<in> set xs \<Longrightarrow> executes Y (f x) (\<lambda>b. p b x)"
  shows "until_fail f xs log = run_calls Y (plan_many p (length log) xs) log"
  using assms
proof (induction xs arbitrary: log)
  case (Cons x xs)
  obtain e l where fx: "run_calls Y (p (length log) x) log = (e, l)" by fastforce
  then have "e = 0 \<Longrightarrow> l = log @ p (length log) x" using run_calls_ok by blast
  then show ?case
    using fx Cons.prems [of x] Cons.IH [of l] Cons.prems by (auto simp: executes_def run_calls_append)
qed simp

lemma executes_two:
  "executes Y (safe_create Y c list_failed (\<lambda>n. safe_call (ly_do Y (mk n)) list_failed (\<lambda>log. (0, log))))
     (\<lambda>b. [c, mk (Created b)])"
  unfolding list_failed_def [abs_def]
  by (rule executes_cong, (rule executes_create executes_leaf executes_done)+, simp add: pone_def)

lemma loop_result_run:
  "loop_result (run_calls Y cs log) =
    (case run_calls Y cs log of (e, l) \<Rightarrow> Ret (if e \<noteq> 0 then SR_ERR_CALLBACK_FAILED else 0, l))"
  by (simp add: loop_result_def callback_failed_def split: prod.split)

text \<open>A small prefix length prints the same through the two integer types.\<close>

lemma dec_prefixlen:
  fixes w :: "32 word"
  assumes "unat w < 256"
  shows "cbuf 20 (dec_int (sint w)) = dec (unat (ucast w :: 8 word))"
proof -
  have "int (unat w) < 256" using assms by linarith
  then have "uint w < 256" by simp
  then have "sint w = uint w"
    by (simp add: sint_uint signed_take_bit_int_eq_self_iff) (rule order_trans [of _ 0]; simp)
  moreover have "unat (ucast w :: 8 word) = unat w" using assms by (simp add: unsigned_ucast_eq take_bit_nat_eq_self)
  moreover have "length (dec (unat w)) \<le> 3" using assms length_dec_bound [of "unat w" 3] by simp
  ultimately show ?thesis by (simp add: dec_int_def)
qed

lemma executes_oper_address:
  assumes "P = (\<lambda>a. ao_ifindex a = ol_ifindex link \<and> ao_family a = f)"
    and "P a \<Longrightarrow> \<exists>s. ao_local a = Some s"
  shows "executes Y (oper_address_step Y mk1 mk2 sz f link a) (\<lambda>b. plan_if P (\<lambda>b a.
      [mk1 Parent (Ptr (ip_text sz (the (ao_local a)))), mk2 (Created b) (Ptr (cbuf 20 (dec_int (sint (ao_prefixlen a)))))]) b a)"
proof (cases "P a")
  case True
  then obtain s where "ao_local a = Some s" using assms(2) by blast
  then show ?thesis
    using True executes_two by (simp add: oper_address_step_def plan_if_def assms(1))
next
  case False
  then show ?thesis
    using executes_done unfolding oper_address_step_def plan_if_def assms(1) by (simp only: if_False simp_thms)
qed

text \<open>What the list of interfaces creates for a link.\<close>

definition plan_list_entry :: "ly_ref \<Rightarrow> nat \<Rightarrow> cstr \<Rightarrow> ly_call list" where
  "plan_list_entry parent b name = [Create_list parent ''interface'' ''name'' (Ptr name),
     Create_container (Created b) ''statistics'', Create_container (Created b) ''ietf-ip:ipv4'',
     Create_container (Created b) ''ietf-ip:ipv6'']"

lemma executes_list_entry: "executes Y (interface_step Y parent name) (\<lambda>b. plan_list_entry parent b name)"
  unfolding interface_step_def plan_list_entry_def list_failed_def [abs_def]
  by (rule executes_cong, (rule executes_create executes_leaf executes_done)+, simp add: pone_def)

lemma mod_is_difference:
  fixes r b m N :: int
  assumes "0 < N" "r < N" "0 \<le> b" "0 \<le> m"
  shows "(r - b - m) mod N = r - b - m \<longleftrightarrow> b + m \<le> r"
proof
  assume "b + m \<le> r"
  with assms show "(r - b - m) mod N = r - b - m" by (intro mod_pos_pos_trivial) auto
next
  assume "(r - b - m) mod N = r - b - m"
  moreover have "0 \<le> (r - b - m) mod N" using assms(1) by (rule pos_mod_sign)
  ultimately show "b + m \<le> r" by simp
qed

text \<open>A port and the bridge above it, for the witnesses.\<close>

definition demo_bridge :: oper_link where
  "demo_bridge = \<lparr> ol_name = ''br0'', ol_ifindex = 3, ol_flags = 0x41, ol_operstate = 6, ol_phys = None,
     ol_master = 0, ol_rate = 0, ol_stat = (\<lambda>_. 0) \<rparr>"

definition demo_port :: oper_link where
  "demo_port = \<lparr> ol_name = ''eth0'', ol_ifindex = 2, ol_flags = 0x41, ol_operstate = 6, ol_phys = None,
     ol_master = 3, ol_rate = 0,
     ol_stat = (\<lambda>i. if i = RX_PACKETS then 5 else if i = IP6_INMCASTPKTS then 7 else 0) \<rparr>"

definition demo_oper :: "cstr \<Rightarrow> oper_env" where
  "demo_oper node = \<lparr> oe_parent = Some node, oe_path = Some ''x'',
     oe_key = (\<lambda>_ _ _. Some ''eth0''), oe_links = Some [demo_bridge, demo_port],
     oe_link_by_name = (\<lambda>n. if n = ''eth0'' then Some demo_port else if n = ''br0'' then Some demo_bridge else None),
     oe_link_get = (\<lambda>i. if i = 2 then Some demo_port else Some demo_bridge),
     oe_addrs = Some (snd (k_addrs demo_kernel demo_link AF_INET)), oe_neighs = Some [], oe_create = (\<lambda>_ _. 0),
     oe_context = True, oe_connection = True, oe_session_start = 0, oe_get_item = (\<lambda>_. (0, V_uint8 24)),
     oe_parse = (\<lambda>_ _. 0), oe_addr_get = (\<lambda>_ _ _. Some 0x80), oe_neigh_get = (\<lambda>_ _ _. Some (0, 2)),
     oe_now = 100, oe_uptime = Some 40, oe_localtime = (\<lambda>_. True), oe_strftime = dec_int \<rparr>"

lemma demo_find: "find_link (demo_oper node) node = Ret (Some (''x'', demo_port))"
  by (simp add: find_link_def get_current_link_def extract_interface_name_def demo_oper_def cbuf_def)

lemma dec_24_oper: "dec 24 = ''24''"
  by code_simp

lemma demo_oper_accepts: "oe_create (demo_oper node) log c = 0"
  by (simp add: demo_oper_def)

lemma demo_oper_resolves: "i \<noteq> 0 \<Longrightarrow> oe_link_get (demo_oper node) i \<noteq> None"
  by (simp add: demo_oper_def)

lemma demo_masters: "master_chain (demo_oper node) (ol_master demo_port) [demo_bridge]"
  by (simp add: master_chain_simps demo_oper_def demo_port_def demo_bridge_def)

section \<open>Properties\<close>

text \<open>C14. The walk over the masters of a link: when every index resolves and every node can be
  added, the getter returns with a given fuel exactly when the chain of masters ends within it,
  and then it has added one node per master, bottom up; on a circular chain it never returns.\<close>

theorem higher_layer_if_terminates:
  assumes "find_link E ''interface'' = Ret (Some (xpath, link))"
    and "\<And>log c. oe_create E log c = 0" "\<And>i. i \<noteq> 0 \<Longrightarrow> oe_link_get E i \<noteq> None"
  shows "oper_higher_layer_if E fuel log = Some r \<longleftrightarrow>
    (\<exists>ms. master_chain E (ol_master link) ms \<and> length ms < fuel \<and> r = Ret (0, log @ higher_calls ms))"
  using higher_loop_iff [OF assms(2,3)] by (simp add: oper_higher_layer_if_def assms(1))

theorem higher_layer_if_terminates_witness:
  "oper_higher_layer_if (demo_oper ''interface'') 2 [] =
     Some (Ret (0, [Append_leaf_list Parent ''higher-layer-if'' (Ptr ''br0'')]))"
proof -
  have "oper_higher_layer_if (demo_oper ''interface'') 2 [] = Some (Ret (0, [] @ higher_calls [demo_bridge]))"
    by (subst higher_layer_if_terminates [OF demo_find demo_oper_accepts demo_oper_resolves], assumption)
      (use demo_masters [of "''interface''"] in \<open>intro exI [of _ "[demo_bridge]"]; simp\<close>)
  then show ?thesis by (simp add: higher_calls_def demo_bridge_def)
qed

text \<open>C15. The lower layers of a link are never reported when the chain of its own masters ends
  without coming back to its name, whatever links have it as their master: the inner loop starts
  from the current link, not from the iterated one.\<close>

theorem lower_layer_if_reports_nothing:
  assumes "find_link E ''interface'' = Ret (Some (xpath, link))" "oe_links E = Some links"
    and "master_chain E (ol_master link) ms" "\<forall>m\<in>set ms. ol_name m \<noteq> ol_name link" "length ms < fuel"
  shows "oper_lower_layer_if E fuel log = Some (Ret (0, log))"
  using lower_loop_nothing [OF lower_walk_False [OF assms(3,5,4)]]
  by (simp add: oper_lower_layer_if_def assms(1,2))

text \<open>The bridge of the demonstration system has a port, and its lower layers are empty.\<close>

theorem lower_layer_if_reports_nothing_witness:
  "oper_lower_layer_if ((demo_oper ''interface'')\<lparr>oe_key := \<lambda>_ _ _. Some ''br0''\<rparr>) 1 [] = Some (Ret (0, []))
   \<and> ol_master demo_port = ol_ifindex demo_bridge"
proof
  show "oper_lower_layer_if ((demo_oper ''interface'')\<lparr>oe_key := \<lambda>_ _ _. Some ''br0''\<rparr>) 1 [] = Some (Ret (0, []))"
    by (rule lower_layer_if_reports_nothing [of _ "''x''" demo_bridge "[demo_bridge, demo_port]" "[]"])
      (simp_all add: find_link_def get_current_link_def extract_interface_name_def demo_oper_def cbuf_def
        demo_bridge_def chain_top)
qed (simp add: demo_port_def demo_bridge_def)

text \<open>C16. The operational list of IPv4 addresses agrees with the one that is loaded into the
  datastores: for addresses of less than 20 printed characters and prefix lengths of a byte the
  getter makes exactly the calls that write the loaded interface's addresses, in cache order, and
  fails exactly when one of them does.\<close>

theorem oper_ipv4_address_matches_load:
  assumes "find_link E ''ipv4'' = Ret (Some (xpath, link))" "lk_ifindex lk = ol_ifindex link"
    and "oe_addrs E = Some (snd (k_addrs K lk AF_INET))"
    and "\<forall>a\<in>set (own_addrs K lk AF_INET). (\<exists>s. ao_local a = Some s \<and> length s < 20) \<and> unat (ao_prefixlen a) < 256"
  shows "oper_ipv4_address E log = (case run_calls (oe_create E)
      (plan_many (plan_v4_address Parent) (length log) (rev (i4_address (if_ipv4 (loaded K lk))))) log of
    (e, l) \<Rightarrow> Ret (if e \<noteq> 0 then SR_ERR_CALLBACK_FAILED else 0, l))"
proof -
  let ?os = "snd (k_addrs K lk AF_INET)"
  let ?P = "\<lambda>a. ao_ifindex a = ol_ifindex link \<and> ao_family a = AF_INET"
  let ?p = "\<lambda>b a. [tree_ipv4_address Parent (Ptr (ip_text 20 (the (ao_local a)))),
    tree_ipv4_address_prefix_length (Created b) (Ptr (cbuf 20 (dec_int (sint (ao_prefixlen a)))))]"
  have own: "filter ?P ?os = own_addrs K lk AF_INET" by (simp add: own_addrs_def assms(2))
  have same: "?p b a = plan_v4_address Parent b (v4_of a)" if "a \<in> set (own_addrs K lk AF_INET)" for a b
    using assms(4) that by (auto simp: plan_v4_address_def v4_of_def ip_text_def ip_buffer_def dec_prefixlen)
  have step: "executes (oe_create E) (oper_address_step (oe_create E) tree_ipv4_address tree_ipv4_address_prefix_length 20 AF_INET link a)
      (\<lambda>b. plan_if ?P ?p b a)" if "a \<in> set ?os" for a
  proof (rule executes_oper_address)
    assume "?P a"
    then have "a \<in> set (own_addrs K lk AF_INET)" using that by (simp add: own_addrs_def assms(2))
    then show "\<exists>s. ao_local a = Some s" using assms(4) by blast
  qed simp
  have "until_fail (oper_address_step (oe_create E) tree_ipv4_address tree_ipv4_address_prefix_length 20 AF_INET link) ?os log
      = run_calls (oe_create E) (plan_many ?p (length log) (own_addrs K lk AF_INET)) log"
    using executes_many_on [of ?os, OF step] by (simp add: plan_many_filter own)
  also have "plan_many ?p (length log) (own_addrs K lk AF_INET)
      = plan_many (plan_v4_address Parent) (length log) (map v4_of (own_addrs K lk AF_INET))"
    using same by (rule plan_many_map)
  finally show ?thesis
    using find_link_parent [OF assms(1)]
    by (simp add: oper_ipv4_address_def oper_list_def with_link_found [OF assms(1)] assms(3) loop_result_run loaded_def del: tree_defs)
qed

theorem oper_ipv4_address_matches_load_witness:
  "oper_ipv4_address (demo_oper ''ipv4'') [] =
    Ret (0, [Create_list Parent ''address'' ''ip'' (Ptr ''10.0.0.1''),
      Create_leaf (Created 0) ''prefix-length'' (Ptr ''24'')])"
  by (subst oper_ipv4_address_matches_load [OF demo_find, of demo_link demo_kernel])
    (simp_all add: demo_oper_def demo_link_def demo_port_def demo_own [unfolded demo_link_def] dec_24_oper loaded_def v4_of_def
      plan_v4_address_def ip_buffer_def cbuf_def)

text \<open>C17. The number of unicast packets is the number of all packets less two counters of another protocol,
  modulo 2 to the 64: it is the true difference exactly when that is not negative.\<close>

theorem unicast_pkts_wrap:
  assumes "find_link E ''statistics'' = Ret (Some (xpath, link))"
  shows "\<exists>n. statistics_in_unicast_pkts E log = add_node E (tree_statistics_in_unicast_pkts Parent (Ptr (dec n))) log
    \<and> int n = (uint (ol_stat link RX_PACKETS) - uint (ol_stat link IP6_INBCASTPKTS) - uint (ol_stat link IP6_INMCASTPKTS)) mod 2 ^ 64
    \<and> (int n = uint (ol_stat link RX_PACKETS) - uint (ol_stat link IP6_INBCASTPKTS) - uint (ol_stat link IP6_INMCASTPKTS)
       \<longleftrightarrow> uint (ol_stat link IP6_INBCASTPKTS) + uint (ol_stat link IP6_INMCASTPKTS) \<le> uint (ol_stat link RX_PACKETS))"
proof (intro exI conjI)
  let ?w = "ol_stat link RX_PACKETS - ol_stat link IP6_INBCASTPKTS - ol_stat link IP6_INMCASTPKTS"
  show "statistics_in_unicast_pkts E log = add_node E (tree_statistics_in_unicast_pkts Parent (Ptr (dec (unat ?w)))) log"
    by (simp add: statistics_in_unicast_pkts_def stat_leaf_def with_link_found [OF assms])
  show m: "int (unat ?w) = (uint (ol_stat link RX_PACKETS) - uint (ol_stat link IP6_INBCASTPKTS)
      - uint (ol_stat link IP6_INMCASTPKTS)) mod 2 ^ 64"
    by (simp add: uint_word_ariths mod_diff_left_eq)
  show "int (unat ?w) = uint (ol_stat link RX_PACKETS) - uint (ol_stat link IP6_INBCASTPKTS) - uint (ol_stat link IP6_INMCASTPKTS)
    \<longleftrightarrow> uint (ol_stat link IP6_INBCASTPKTS) + uint (ol_stat link IP6_INMCASTPKTS) \<le> uint (ol_stat link RX_PACKETS)"
    unfolding m by (rule mod_is_difference) (use uint_lt2p [of "ol_stat link RX_PACKETS"] in simp_all)
qed

text \<open>Five packets of which seven are multicast.\<close>

theorem unicast_pkts_wrap_witness:
  "\<exists>n. statistics_in_unicast_pkts (demo_oper ''statistics'') [] =
      add_node (demo_oper ''statistics'') (tree_statistics_in_unicast_pkts Parent (Ptr (dec n))) []
    \<and> int n = 2 ^ 64 - 2"
  using unicast_pkts_wrap [OF demo_find, of "[]"] by (simp add: demo_port_def)

text \<open>C18. The list of interfaces below a parent that sysrepo passes: once the socket is there and the three caches
  are, the callback makes exactly one list entry with its three containers for every link, in cache order, stops at the first
  refused node and turns that into an error; the context stays ready for the next request.\<close>

theorem oper_interface_lists:
  assumes "fst (prepare_socket F c) = 0" "prepare_caches F (snd (prepare_socket F c)) = Ret (0, c')" "le_parent F"
  shows "oper_interface F c log = (case run_calls (le_create F) (plan_many (plan_list_entry Parent) (length log) (le_names F)) log of
      (e, l) \<Rightarrow> Ret (if e \<noteq> 0 then SR_ERR_CALLBACK_FAILED else 0, c', l))
    \<and> on_link_cache c' \<and> on_addr_cache c' \<and> on_neigh_cache c'"
  using assms executes_many [of "le_create F" "interface_step (le_create F) Parent", OF executes_list_entry, of "le_names F"]
  by (auto simp: oper_interface_def executes_def prepare_caches_def Let_def split: prod.splits if_splits)

definition demo_list_env :: list_env where
  "demo_list_env = \<lparr> le_socket = True, le_connect = 0, le_link_cache = 0, le_addr_cache = 0, le_neigh_cache = 0,
     le_parent = True, le_context = True, le_names = [''lo''], le_create = (\<lambda>_ c. if c = tree_ipv6 (Created 0) then -1 else 0) \<rparr>"

definition demo_oper_nl :: oper_nl where
  "demo_oper_nl = \<lparr> on_socket = False, on_link_cache = False, on_addr_cache = False, on_neigh_cache = False \<rparr>"

text \<open>A system where the last container is refused.\<close>

theorem oper_interface_lists_witness:
  "\<exists>c'. oper_interface demo_list_env demo_oper_nl [] =
     Ret (SR_ERR_CALLBACK_FAILED, c', plan_list_entry Parent 0 ''lo'')"
  using oper_interface_lists [of demo_list_env demo_oper_nl
      "\<lparr> on_socket = True, on_link_cache = True, on_addr_cache = True, on_neigh_cache = True \<rparr>" "[]"]
  by (simp add: prepare_socket_def prepare_caches_def demo_list_env_def demo_oper_nl_def plan_list_entry_def)

text \<open>C19. When the cache of addresses or neighbors cannot be allocated the request fails, but the link cache
  stays in the context: whatever the system answers later, the next request refills a cache that is
  \<^verbatim>\<open>NULL\<close>.\<close>

theorem oper_interface_half_open:
  assumes "\<not> on_link_cache c" "le_socket F" "le_connect F = 0" "le_link_cache F = 0"
    "le_addr_cache F \<noteq> 0 \<or> le_neigh_cache F \<noteq> 0" "\<not> on_addr_cache c" "\<not> on_neigh_cache c"
  shows "\<exists>c'. oper_interface F c log = Ret (SR_ERR_CALLBACK_FAILED, c', log) \<and> oper_interface F' c' log' = Undef"
  using assms by (auto simp: oper_interface_def prepare_socket_def prepare_caches_def Let_def)

theorem oper_interface_half_open_witness:
  "\<exists>c'. oper_interface (demo_list_env\<lparr>le_addr_cache := -1\<rparr>) demo_oper_nl [] = Ret (SR_ERR_CALLBACK_FAILED, c', [])
     \<and> oper_interface demo_list_env c' [] = Undef"
  by (rule oper_interface_half_open) (simp_all add: demo_list_env_def demo_oper_nl_def)

text \<open>C20. A change of a link's state reaches the operational data: after the callback has seen a link that is new
  or in another state, the getter of that link prints the time that was read in this callback.\<close>

theorem last_change_reported:
  assumes "link_cache_change_cb clock ls c = Some c'" "distinct (map cl_name ls)" "l \<in> set ls"
    and "\<And>s t. tracked c (cl_name l) = Some (s, t) \<Longrightarrow> s \<noteq> cl_operstate l"
    and "find_link E ''interface'' = Ret (Some (xpath, link))" "ol_name link = cl_name l"
    and "\<And>t. oe_localtime E t" "\<And>t. oe_strftime E t \<noteq> []"
  shows "\<exists>k\<ge>sc_ticks c. oper_last_change (sc_hash c') E log
    = add_node E (tree_last_change Parent (Ptr (oe_strftime E (clock k)))) log"
proof -
  obtain k where k: "k \<ge> sc_ticks c"
    "tracked c' (cl_name l) = observe clock k l (tracked c (cl_name l))"
    using tracked_steps_link [OF assms(2,3), of "c\<lparr>sc_locked := True\<rparr>" clock] assms(1)
    by (auto simp: link_cache_change_cb_def tracked_def Let_def split: if_splits)
  have "\<exists>j\<ge>k. tracked c' (cl_name l) = Some (cl_operstate l, clock j)"
    using k(2) assms(4)
    by (cases "tracked c (cl_name l)") (auto simp: observe_def intro: exI [of _ k] exI [of _ "Suc k"])
  then obtain j st where "j \<ge> k" "state_hash_get (sc_hash c') (Some (cl_name l)) = Some st" "st_last_change st = clock j"
    by (auto simp: tracked_def)
  then show ?thesis
    using k(1) by (intro exI [of _ j]) (simp add: oper_last_change_def assms(5-8))
qed

text \<open>The port goes up.\<close>

theorem last_change_reported_witness:
  "\<exists>c' t. link_cache_change_cb (\<lambda>n. 100) [\<lparr> cl_name = ''eth0'', cl_operstate = 6 \<rparr>]
       \<lparr> sc_hash = [], sc_locked = False, sc_ticks = 0 \<rparr> = Some c'
     \<and> oper_last_change (sc_hash c') (demo_oper ''interface'') [] = Ret (0, [Create_leaf Parent ''last-change'' (Ptr (dec_int 100))])"
proof -
  obtain c' where c: "link_cache_change_cb (\<lambda>n. 100) [\<lparr> cl_name = ''eth0'', cl_operstate = 6 \<rparr>]
       \<lparr> sc_hash = [], sc_locked = False, sc_ticks = 0 \<rparr> = Some c'"
    by (simp add: link_cache_change_cb_def Let_def)
  let ?l = "\<lparr> cl_name = ''eth0'', cl_operstate = 6 \<rparr>"
  have "ol_name demo_port = cl_name ?l" by (simp add: demo_port_def)
  moreover have "oe_localtime (demo_oper n) t" "oe_strftime (demo_oper n) t \<noteq> []" for n t
    by (simp_all add: demo_oper_def dec_int_def)
  ultimately have "oper_last_change (sc_hash c') (demo_oper ''interface'') []
      = add_node (demo_oper ''interface'') (tree_last_change Parent (Ptr (oe_strftime (demo_oper ''interface'') 100))) []"
    using last_change_reported [OF c _ _ _ demo_find, of ?l "[]"]
    by (simp add: tracked_def state_hash_get_def hash_find_None_iff [THEN iffD2])
  moreover have "oe_strftime (demo_oper ''interface'') 100 = dec_int 100" by (simp add: demo_oper_def)
  ultimately show ?thesis
    using c by (auto simp: add_node_def ly_do_def demo_oper_accepts)
qed

end
