(* ===== verification/IfPlugin.thy ===== *)
theory IfPlugin
  imports IfOperIp
begin

text \<open>
  The life cycle of the interfaces plugin, \<^verbatim>\<open>interfaces/src/plugin.c\<close> and \<^verbatim>\<open>main.c\<close>: the
  subscriptions that the initialisation makes, the initial load, the tracker it starts, the
  cleanup, and the thread that keeps on calling the cache manager.
\<close>

section \<open>Paths and getters\<close>

definition interface_path :: cstr where
  "interface_path = ''/ietf-interfaces:interfaces/interface''"

text \<open>The getters of \<^verbatim>\<open>oper\<close> in order: path below the interface, and the name of the callback, which is
  \<^verbatim>\<open>NULL\<close> when the feature it depends on is off.\<close>

definition if_feature :: "(cstr \<Rightarrow> cstr \<Rightarrow> bool) \<Rightarrow> cstr \<Rightarrow> cstr \<Rightarrow> cstr \<Rightarrow> cstr option" where
  "if_feature feature module name getter = (if feature module name then Some getter else None)"

definition link_getters :: "(cstr \<Rightarrow> cstr \<Rightarrow> bool) \<Rightarrow> (cstr \<times> cstr option) list" where
  "link_getters feature =
    [(''/admin-status'', if_feature feature ''ietf-interfaces'' ''if-mib'' ''admin_status''),
     (''/oper-status'', Some ''oper_status''),
     (''/last-change'', Some ''last_change''),
     (''/if-index'', if_feature feature ''ietf-interfaces'' ''if-mib'' ''if_index''),
     (''/phys-address'', Some ''phys_address''),
     (''/higher-layer-if'', Some ''higher_layer_if''),
     (''/lower-layer-if'', Some ''lower_layer_if''),
     (''/speed'', Some ''speed'')]"

definition statistics_getters :: "(cstr \<times> cstr option) list" where
  "statistics_getters =
    [(''/statistics/discontinuity-time'', Some ''statistics_discontinuity_time''),
     (''/statistics/in-octets'', Some ''statistics_in_octets''),
     (''/statistics/in-unicast-pkts'', Some ''statistics_in_unicast_pkts''),
     (''/statistics/in-broadcast-pkts'', Some ''statistics_in_broadcast_pkts''),
     (''/statistics/in-multicast-pkts'', Some ''statistics_in_multicast_pkts''),
     (''/statistics/in-discards'', Some ''statistics_in_discards''),
     (''/statistics/in-errors'', Some ''statistics_in_errors''),
     (''/statistics/in-unknown-protos'', Some ''statistics_in_unknown_protos''),
     (''/statistics/out-octets'', Some ''statistics_out_octets''),
     (''/statistics/out-unicast-pkts'', Some ''statistics_out_unicast_pkts''),
     (''/statistics/out-broadcast-pkts'', Some ''statistics_out_broadcast_pkts''),
     (''/statistics/out-multicast-pkts'', Some ''statistics_out_multicast_pkts''),
     (''/statistics/out-discards'', Some ''statistics_out_discards''),
     (''/statistics/out-errors'', Some ''statistics_out_errors''),
     (''/statistics/in-discard-unknown-encaps'', Some ''statistics_in_discard_unknown_encaps'')]"

definition extension_getters :: "(cstr \<Rightarrow> cstr \<Rightarrow> bool) \<Rightarrow> (cstr \<times> cstr option) list" where
  "extension_getters feature =
    [(''/carrier-delay/carrier-transitions'', if_feature feature ''ietf-if-extensions'' ''carrier-delay'' ''carrier_delay_carrier_transitions''),
     (''/carrier-delay/timer-running'', if_feature feature ''ietf-if-extensions'' ''carrier-delay'' ''carrier_delay_timer_running''),
     (''/dampening/penalty'', if_feature feature ''ietf-if-extensions'' ''dampening'' ''dampening_penalty''),
     (''/dampening/suppressed'', if_feature feature ''ietf-if-extensions'' ''dampening'' ''dampening_suppressed''),
     (''/dampening/time-remaining'', if_feature feature ''ietf-if-extensions'' ''dampening'' ''dampening_time_remaining''),
     (''/forwarding-mode'', Some ''forwarding_mode'')]"

definition ip_getters :: "(cstr \<times> cstr option) list" where
  "ip_getters =
    [(''/ietf-ip:ipv4/address/origin'', Some ''ipv4_address_origin''),
     (''/ietf-ip:ipv4/address'', Some ''ipv4_address''),
     (''/ietf-ip:ipv4/neighbor/origin'', Some ''ipv4_neighbor_origin''),
     (''/ietf-ip:ipv4/neighbor'', Some ''ipv4_neighbor''),
     (''/ipv6/address/origin'', Some ''ipv6_address_origin''),
     (''/ipv6/address/status'', Some ''ipv6_address_status''),
     (''/ipv6/address'', Some ''ipv6_address''),
     (''/ipv6/neighbor/origin'', Some ''ipv6_neighbor_origin''),
     (''/ipv6/neighbor/is-router'', Some ''ipv6_neighbor_is_router''),
     (''/ipv6/neighbor/state'', Some ''ipv6_neighbor_state''),
     (''/ipv6/neighbor'', Some ''ipv6_neighbor''),
     ('''', Some ''interface'')]"

definition oper_table :: "(cstr \<Rightarrow> cstr \<Rightarrow> bool) \<Rightarrow> (cstr \<times> cstr option) list" where
  "oper_table feature = link_getters feature @ statistics_getters @ extension_getters feature @ ip_getters"

section \<open>Objects of the context\<close>

text \<open>What the context owns: the objects of the tracker, those of the getters, the startup session and the
  feature hashes.  \<^verbatim>\<open>pc_tracker_cache\<close> is the link cache that the tracker allocates itself.\<close>

record plugin_ctx =
  pc_features :: "cstr list"
  pc_session :: bool
  pc_load :: load_state
  pc_oper :: oper_nl
  pc_state :: state_ctx
  pc_socket :: bool
  pc_manager :: bool
  pc_thread :: bool
  pc_tracker_cache :: bool

record plugin_env =
  pl_feature_load :: "cstr \<Rightarrow> int"
  pl_feature :: "cstr \<Rightarrow> cstr \<Rightarrow> bool"
  pl_connection :: bool
  pl_session :: int
  pl_check_empty :: "int \<times> bool"
  pl_kernel :: kernel
  pl_ly :: ly_env
  pl_sr :: sr_env
  pl_change_subscribe :: "cstr \<Rightarrow> int"
  pl_oper_subscribe :: "cstr \<Rightarrow> int"
  pl_tracking :: tracking_env
  pl_clock :: "nat \<Rightarrow> int"
  pl_links :: "cache_link list"

definition zero_ctx :: plugin_ctx where
  "zero_ctx = \<lparr> pc_features = [], pc_session = False,
     pc_load = \<lparr> ls_socket = HNull, ls_link_cache = HNull, ls_addr_cache = HNull, ls_neigh_cache = HNull, ls_open = [], ls_next = 0 \<rparr>,
     pc_oper = \<lparr> on_socket = False, on_link_cache = False, on_addr_cache = False, on_neigh_cache = False \<rparr>,
     pc_state = \<lparr> sc_hash = [], sc_locked = False, sc_ticks = 0 \<rparr>,
     pc_socket = False, pc_manager = False, pc_thread = False, pc_tracker_cache = False \<rparr>"

section \<open>Initialisation\<close>

datatype pl_request =
    Load_features cstr
  | Start_session
  | Check_empty
  | Initial_load "sr_call list"
  | Subscribe_change cstr
  | Subscribe_oper cstr cstr
  | Start_tracker

fun load_features :: "plugin_env \<Rightarrow> cstr list \<Rightarrow> plugin_ctx \<Rightarrow> pl_request list \<Rightarrow> int \<times> plugin_ctx \<times> pl_request list" where
  "load_features P [] c log = (0, c, log)"
| "load_features P (m # ms) c log =
    (if pl_feature_load P m \<noteq> 0 then (pl_feature_load P m, c, log @ [Load_features m])
     else load_features P ms (c\<lparr>pc_features := pc_features c @ [m]\<rparr>) (log @ [Load_features m]))"

fun subscribe_opers :: "plugin_env \<Rightarrow> (cstr \<times> cstr option) list \<Rightarrow> pl_request list \<Rightarrow> int \<times> pl_request list" where
  "subscribe_opers P [] log = (0, log)"
| "subscribe_opers P ((path, cb) # ops) log =
    (case cb of
       None \<Rightarrow> subscribe_opers P ops log
     | Some getter \<Rightarrow>
         let r = pl_oper_subscribe P (interface_path @ path); log1 = log @ [Subscribe_oper (interface_path @ path) getter]
         in if r \<noteq> 0 then (r, log1) else subscribe_opers P ops log1)"

text \<open>The tracker of \<^verbatim>\<open>IfState\<close>, with the objects that it puts into the context on the way.\<close>

definition start_tracker :: "plugin_env \<Rightarrow> plugin_ctx \<Rightarrow> int \<times> plugin_ctx" where
  "start_tracker P c =
    (let T = pl_tracking P; s0 = pc_state c;
         cached = te_socket_alloc T \<and> te_connect T = 0 \<and> te_alloc_cache T = 0;
         filled = cached \<and> te_mutex_init T = 0
           \<and> fst (init_links (pl_clock P) (pl_links P) (s0\<lparr>sc_hash := state_hash_new, sc_locked := False\<rparr>)) = 0
     in case init_state_changes_tracking T (pl_clock P) (pl_links P) s0 of (e, s) \<Rightarrow>
       (e, c\<lparr>pc_state := s, pc_socket := te_socket_alloc T, pc_tracker_cache := cached,
          pc_manager := filled \<and> te_mngr_alloc T = 0, pc_thread := e = 0\<rparr>))"

definition initial_load :: "plugin_env \<Rightarrow> plugin_ctx \<Rightarrow> pl_request list \<Rightarrow> (int \<times> plugin_ctx \<times> pl_request list) outcome" where
  "initial_load P c log =
    (if snd (pl_check_empty P) then
       obind (running_load (pl_kernel P) (pl_ly P) (pl_sr P) (pc_load c)) (\<lambda>(e, calls, s).
       Ret (e, c\<lparr>pc_load := s\<rparr>, log @ [Initial_load calls]))
     else Ret (0, c, log))"

definition subscribe_and_track :: "plugin_env \<Rightarrow> plugin_ctx \<Rightarrow> pl_request list \<Rightarrow> int \<times> plugin_ctx \<times> pl_request list" where
  "subscribe_and_track P c log =
    (let log1 = log @ [Subscribe_change interface_path] in
     if pl_change_subscribe P interface_path \<noteq> 0 then (SR_ERR_CALLBACK_FAILED, c, log1)
     else case subscribe_opers P (oper_table (pl_feature P)) log1 of (e1, log2) \<Rightarrow>
       if e1 \<noteq> 0 then (SR_ERR_CALLBACK_FAILED, c, log2)
       else case start_tracker P c of (e2, c1) \<Rightarrow>
         (if e2 \<noteq> 0 then SR_ERR_CALLBACK_FAILED else 0, c1, log2 @ [Start_tracker]))"

definition plugin_init_cb :: "plugin_env \<Rightarrow> (int \<times> plugin_ctx \<times> pl_request list) outcome" where
  "plugin_init_cb P =
    (case load_features P [''ietf-interfaces'', ''ietf-if-extensions'', ''ietf-ip''] zero_ctx [] of (e1, c1, log1) \<Rightarrow>
     if e1 \<noteq> 0 then Ret (SR_ERR_CALLBACK_FAILED, c1, log1)
     else if \<not> pl_connection P then Ret (SR_ERR_CALLBACK_FAILED, c1, log1) else
     let log2 = log1 @ [Start_session] in
     if pl_session P \<noteq> 0 then Ret (SR_ERR_CALLBACK_FAILED, c1, log2) else
     let c2 = c1\<lparr>pc_session := True\<rparr>; log3 = log2 @ [Check_empty] in
     if fst (pl_check_empty P) \<noteq> 0 then Ret (SR_ERR_CALLBACK_FAILED, c2, log3) else
     obind (initial_load P c2 log3) (\<lambda>(e3, c3, log4).
     if e3 \<noteq> 0 then Ret (SR_ERR_CALLBACK_FAILED, c3, log4) else Ret (subscribe_and_track P c3 log4)))"

section \<open>Cleanup\<close>

datatype pl_object =
    O_oper_link_cache | O_oper_addr_cache | O_oper_neigh_cache | O_oper_socket
  | O_tracker_socket | O_tracker_cache | O_manager | O_state_hash
  | O_features cstr | O_session | O_load nat | O_context

definition owned :: "plugin_ctx \<Rightarrow> pl_object set" where
  "owned c = {x. x = O_context \<or> (x = O_oper_link_cache \<and> on_link_cache (pc_oper c)) \<or> (x = O_oper_addr_cache \<and> on_addr_cache (pc_oper c))
     \<or> (x = O_oper_neigh_cache \<and> on_neigh_cache (pc_oper c)) \<or> (x = O_oper_socket \<and> on_socket (pc_oper c))
     \<or> (x = O_tracker_socket \<and> pc_socket c) \<or> (x = O_tracker_cache \<and> pc_tracker_cache c) \<or> (x = O_manager \<and> pc_manager c)
     \<or> (x = O_state_hash \<and> sc_hash (pc_state c) \<noteq> []) \<or> (x = O_session \<and> pc_session c)
     \<or> x \<in> O_features ` set (pc_features c) \<or> x \<in> O_load ` set (ls_open (pc_load c))}"

text \<open>What is released, in order; the private data of a plugin that was not initialised is \<^verbatim>\<open>NULL\<close>.\<close>

definition plugin_cleanup_cb :: "plugin_ctx option \<Rightarrow> pl_object list outcome" where
  "plugin_cleanup_cb private_data =
    (case private_data of
       None \<Rightarrow> Undef
     | Some c \<Rightarrow> Ret (
         (if on_link_cache (pc_oper c) then [O_oper_link_cache] else [])
         @ (if on_socket (pc_oper c) then [O_oper_socket] else [])
         @ (if pc_socket c then [O_tracker_socket] else [])
         @ (if pc_manager c then [O_manager] else [])
         @ (if sc_hash (pc_state c) \<noteq> [] then [O_state_hash] else [])
         @ map O_features (pc_features c)
         @ [O_context]))"

definition interfaces_main :: "plugin_env \<Rightarrow> int \<Rightarrow> int \<Rightarrow> (int \<times> pl_object list) outcome" where
  "interfaces_main P connect started =
    obind (if connect \<noteq> 0 then Ret (connect, None)
           else if started \<noteq> 0 then Ret (started, None)
           else obind (plugin_init_cb P) (\<lambda>(e, c, log). Ret (e, Some c))) (\<lambda>(error, private_data).
    obind (plugin_cleanup_cb private_data) (\<lambda>released. Ret (if error \<noteq> 0 then -1 else 0, released)))"

section \<open>The life of the plugin\<close>

text \<open>The steps that happen while the program runs: the manager thread reports a change of the links, sysrepo
  asks for the list of interfaces, and the plugin is cleaned up.  Nobody stops the thread: every second it
  reads the manager from the context and hands it to libnl.  The rounds after the cleanup are
  undefined when the cleanup has released one of these two objects, and harmless otherwise.\<close>

datatype crash = Null_cache | After_free pl_object

datatype life = Alive plugin_ctx | Cleaned "pl_object list" bool | Crashed crash

definition thread_uses :: "pl_object set" where
  "thread_uses = {O_context, O_manager}"

inductive life_step :: "plugin_env \<Rightarrow> life \<Rightarrow> life \<Rightarrow> bool" for P where
  link_change: "pc_thread c \<Longrightarrow> link_cache_change_cb (pl_clock P) cache (pc_state c) = Some s
    \<Longrightarrow> life_step P (Alive c) (Alive (c\<lparr>pc_state := s\<rparr>))"
| list_query: "oper_interface F (pc_oper c) [] = Ret (e, n, log) \<Longrightarrow> life_step P (Alive c) (Alive (c\<lparr>pc_oper := n\<rparr>))"
| list_crash: "oper_interface F (pc_oper c) [] = Undef \<Longrightarrow> life_step P (Alive c) (Crashed Null_cache)"
| clean_up: "plugin_cleanup_cb (Some c) = Ret released \<Longrightarrow> life_step P (Alive c) (Cleaned released (pc_thread c))"
| thread_harmless: "set released \<inter> thread_uses = {} \<Longrightarrow> life_step P (Cleaned released True) (Cleaned released True)"
| thread_crash: "x \<in> set released \<inter> thread_uses \<Longrightarrow> life_step P (Cleaned released True) (Crashed (After_free x))"

inductive life_reach :: "plugin_env \<Rightarrow> life \<Rightarrow> bool" for P where
  life_start: "plugin_init_cb P = Ret (0, c, log) \<Longrightarrow> life_reach P (Alive c)"
| life_next: "life_reach P l \<Longrightarrow> life_step P l l' \<Longrightarrow> life_reach P l'"

inductive_cases step_to_alive: "life_step P l (Alive c)"
inductive_cases alive_to_crash: "life_step P (Alive c) (Crashed x)"
inductive_simps cleaned_step: "life_step P (Cleaned released t) l"

section \<open>Lemmas\<close>

definition enabled_getters :: "(cstr \<times> cstr option) list \<Rightarrow> pl_request list" where
  "enabled_getters ops = map (\<lambda>(p, cb). Subscribe_oper (interface_path @ p) (the cb)) (filter (\<lambda>(p, cb). cb \<noteq> None) ops)"

lemma subscribe_opers_ok: "subscribe_opers P ops log = (0, log') \<Longrightarrow> log' = log @ enabled_getters ops"
  by (induction P ops log rule: subscribe_opers.induct)
    (auto simp: enabled_getters_def Let_def split: option.splits if_splits)

lemma load_features_ok: "load_features P ms c log = (0, c', log') \<Longrightarrow>
    c' = c\<lparr>pc_features := pc_features c @ ms\<rparr> \<and> log' = log @ map Load_features ms"
  by (induction P ms c log rule: load_features.induct) (auto split: if_splits)

lemma start_tracker_ok:
  assumes "start_tracker P c = (0, c')"
  shows "tracker_reach (pl_tracking P) (pl_clock P) (pc_state c') \<and> pc_thread c' \<and> pc_manager c' \<and> pc_socket c' \<and> pc_tracker_cache c'
    \<and> pc_oper c' = pc_oper c \<and> pc_features c' = pc_features c \<and> pc_load c' = pc_load c \<and> pc_session c' = pc_session c"
proof -
  obtain s where i: "init_state_changes_tracking (pl_tracking P) (pl_clock P) (pl_links P) (pc_state c) = (0, s)"
    "c' = c\<lparr>pc_state := s, pc_socket := te_socket_alloc (pl_tracking P),
       pc_tracker_cache := pc_tracker_cache c', pc_manager := pc_manager c', pc_thread := True\<rparr>"
    using assms by (auto simp: start_tracker_def Let_def split: prod.splits)
  then have "te_socket_alloc (pl_tracking P) \<and> te_connect (pl_tracking P) = 0 \<and> te_alloc_cache (pl_tracking P) = 0
      \<and> te_mutex_init (pl_tracking P) = 0 \<and> te_mngr_alloc (pl_tracking P) = 0"
    by (auto simp: init_state_changes_tracking_def Let_def split: if_splits prod.splits)
  moreover have "fst (init_links (pl_clock P) (pl_links P) ((pc_state c)\<lparr>sc_hash := state_hash_new, sc_locked := False\<rparr>)) = 0"
    using init_tracking_ok [OF i(1)] by (simp add: state_hash_new_def)
  moreover have "tracker_reach (pl_tracking P) (pl_clock P) s" using tracker_reach.start [OF i(1)] .
  ultimately show ?thesis
    using assms by (auto simp: start_tracker_def Let_def i(1))
qed

lemma callback_failed [simp]: "SR_ERR_CALLBACK_FAILED \<noteq> 0"
  by (simp add: SR_ERR_CALLBACK_FAILED_def)

lemma subscribe_and_track_ok:
  assumes "subscribe_and_track P c log = (0, c', log')"
  shows "log' = log @ [Subscribe_change interface_path] @ enabled_getters (oper_table (pl_feature P)) @ [Start_tracker]
    \<and> start_tracker P c = (0, c')"
proof -
  obtain log2 where s: "subscribe_opers P (oper_table (pl_feature P)) (log @ [Subscribe_change interface_path]) = (0, log2)"
    "log' = log2 @ [Start_tracker]" "start_tracker P c = (0, c')"
    using assms by (auto simp: subscribe_and_track_def Let_def split: if_splits prod.splits)
  then show ?thesis using subscribe_opers_ok [OF s(1)] by simp
qed

text \<open>The initial load, when the datastore is empty.\<close>

definition loads :: "plugin_env \<Rightarrow> load_state \<Rightarrow> pl_request list \<Rightarrow> bool" where
  "loads P s reqs =
    (if snd (pl_check_empty P) then \<exists>calls. reqs = [Initial_load calls] \<and>
       running_load (pl_kernel P) (pl_ly P) (pl_sr P) (pc_load zero_ctx) = Ret (0, calls, s)
     else reqs = [] \<and> s = pc_load zero_ctx)"

lemma initial_load_ok:
  assumes "initial_load P c log = Ret (0, c', log')" "pc_load c = pc_load zero_ctx"
  shows "\<exists>reqs. log' = log @ reqs \<and> loads P (pc_load c') reqs \<and> c' = c\<lparr>pc_load := pc_load c'\<rparr>"
  using assms by (auto simp: initial_load_def loads_def obind_eq_Ret split: if_splits)

lemma plugin_init_ok:
  assumes "plugin_init_cb P = Ret (0, c, log)"
  shows "\<exists>reqs. loads P (pc_load c) reqs \<and>
      log = map Load_features [''ietf-interfaces'', ''ietf-if-extensions'', ''ietf-ip''] @ [Start_session, Check_empty] @ reqs
        @ [Subscribe_change interface_path] @ enabled_getters (oper_table (pl_feature P)) @ [Start_tracker]
    \<and> tracker_reach (pl_tracking P) (pl_clock P) (pc_state c) \<and> pc_thread c \<and> pc_manager c \<and> pc_socket c \<and> pc_tracker_cache c
    \<and> pc_session c \<and> pc_features c = [''ietf-interfaces'', ''ietf-if-extensions'', ''ietf-ip''] \<and> pc_oper c = pc_oper zero_ctx"
proof -
  let ?ms = "[''ietf-interfaces'', ''ietf-if-extensions'', ''ietf-ip'']"
  obtain c1 log1 where f: "load_features P ?ms zero_ctx [] = (0, c1, log1)"
    using assms by (cases "load_features P ?ms zero_ctx []") (auto simp: plugin_init_cb_def split: if_splits)
  have c1: "c1 = zero_ctx\<lparr>pc_features := ?ms\<rparr>" "log1 = map Load_features ?ms"
    using load_features_ok [OF f] by (simp_all add: zero_ctx_def)
  let ?c2 = "c1\<lparr>pc_session := True\<rparr>" and ?log3 = "log1 @ [Start_session, Check_empty]"
  obtain c3 log4 where l: "initial_load P ?c2 ?log3 = Ret (0, c3, log4)" "subscribe_and_track P c3 log4 = (0, c, log)"
    using assms unfolding plugin_init_cb_def f by (auto simp: Let_def obind_eq_Ret split: if_splits)
  obtain reqs where r: "log4 = ?log3 @ reqs" "loads P (pc_load c3) reqs" "c3 = ?c2\<lparr>pc_load := pc_load c3\<rparr>"
    using initial_load_ok [OF l(1)] c1(1) by auto
  have t: "start_tracker P c3 = (0, c)"
    "log = log4 @ [Subscribe_change interface_path] @ enabled_getters (oper_table (pl_feature P)) @ [Start_tracker]"
    using subscribe_and_track_ok [OF l(2)] by simp_all
  have p: "pc_session c3" "pc_features c3 = ?ms" "pc_oper c3 = pc_oper zero_ctx"
    by (subst r(3), simp add: c1(1))+
  show ?thesis
    using start_tracker_ok [OF t(1)] r(2) p by (intro exI [of _ reqs]) (simp add: t(2) r(1) c1(2))
qed

lemma reach_alive:
  assumes "life_reach P l" "l = Alive c"
  shows "tracker_reach (pl_tracking P) (pl_clock P) (pc_state c) \<and> pc_thread c \<and> pc_manager c \<and> pc_socket c \<and> pc_tracker_cache c \<and> pc_session c"
  using assms
proof (induction arbitrary: c rule: life_reach.induct)
  case (life_start c0 log)
  then show ?case using plugin_init_ok [OF life_start(1)] by auto
next
  case (life_next l l')
  have "life_step P l (Alive c)" using life_next.hyps(2) life_next.prems by simp
  then show ?case
  proof (rule step_to_alive)
    fix c1 cache s
    assume link_change: "l = Alive c1" "c = c1\<lparr>pc_state := s\<rparr>" "pc_thread c1" "link_cache_change_cb (pl_clock P) cache (pc_state c1) = Some s"
    then show ?thesis
      using life_next.IH [OF link_change(1)] tracker_reach.change [of "pl_tracking P" "pl_clock P" "pc_state c1" cache s] by simp
  next
    fix F c1 e n log
    assume list_query: "l = Alive c1" "c = c1\<lparr>pc_oper := n\<rparr>" "oper_interface F (pc_oper c1) [] = Ret (e, n, log)"
    then show ?thesis using life_next.IH [OF list_query(1)] by simp
  qed
qed

lemma interfaces_main_outcomes:
  "interfaces_main P connect started =
    (if connect \<noteq> 0 \<or> started \<noteq> 0 then Undef
     else obind (plugin_init_cb P) (\<lambda>(e, c, log).
       obind (plugin_cleanup_cb (Some c)) (\<lambda>released. Ret (if e = 0 then 0 else -1, released))))"
  by (cases "plugin_init_cb P") (auto simp: interfaces_main_def plugin_cleanup_cb_def)

section \<open>Properties\<close>

text \<open>C11. A successful initialisation has loaded the features of the three modules, opened the startup session,
  loaded the system into the datastore exactly when that was empty, subscribed the change callback,
  then in table order exactly the getters whose feature is on, and started the tracker last.\<close>

theorem init_subscribes:
  assumes "plugin_init_cb P = Ret (0, c, log)"
  shows "\<exists>reqs. loads P (pc_load c) reqs \<and>
      log = map Load_features [''ietf-interfaces'', ''ietf-if-extensions'', ''ietf-ip''] @ [Start_session, Check_empty] @ reqs
        @ [Subscribe_change interface_path] @ enabled_getters (oper_table (pl_feature P)) @ [Start_tracker]
    \<and> tracker_reach (pl_tracking P) (pl_clock P) (pc_state c)"
  using plugin_init_ok [OF assms] by blast

text \<open>A plugin on a datastore with data, whose modules have no features.\<close>

definition demo_plugin :: plugin_env where
  "demo_plugin = \<lparr> pl_feature_load = (\<lambda>_. 0), pl_feature = (\<lambda>_ _. False), pl_connection = True, pl_session = 0,
     pl_check_empty = (0, False), pl_kernel = demo_kernel, pl_ly = (\<lambda>_ _. 0), pl_sr = demo_sr,
     pl_change_subscribe = (\<lambda>_. 0), pl_oper_subscribe = (\<lambda>_. 0), pl_tracking = good_tracking_env, pl_clock = int,
     pl_links = [\<lparr>cl_name = ''lo'', cl_operstate = 6\<rparr>] \<rparr>"

lemma subscribe_opers_accepting: "\<forall>p. pl_oper_subscribe P p = 0 \<Longrightarrow> subscribe_opers P ops log = (0, log @ enabled_getters ops)"
  by (induction P ops log rule: subscribe_opers.induct) (auto simp: enabled_getters_def split: option.splits)

lemma demo_plugin_init: "\<exists>c log. plugin_init_cb demo_plugin = Ret (0, c, log)"
proof -
  have t: "fst (start_tracker demo_plugin c) = 0" for c
    by (simp add: start_tracker_def demo_plugin_def good_tracking_env_def init_state_changes_tracking_def
        state_hash_new_def time_now_def state_hash_add_def state_hash_element_set_name_def Let_def split: prod.split)
      (simp add: state_hash_element_new_def state_hash_element_set_state_def state_hash_element_set_last_change_def hash_find_def)
  have s: "fst (subscribe_and_track demo_plugin c log) = 0" for c log
  proof -
    have "pl_change_subscribe demo_plugin p = 0" "\<forall>p. pl_oper_subscribe demo_plugin p = 0" for p by (simp_all add: demo_plugin_def)
    moreover obtain c' where "start_tracker demo_plugin c = (0, c')" using t [of c] by (cases "start_tracker demo_plugin c") simp
    ultimately show ?thesis by (simp add: subscribe_and_track_def Let_def subscribe_opers_accepting)
  qed
  let ?ms = "[''ietf-interfaces'', ''ietf-if-extensions'', ''ietf-ip'']"
  have f: "pl_feature_load demo_plugin m = 0" "pl_connection demo_plugin" "pl_session demo_plugin = 0" "pl_check_empty demo_plugin = (0, False)" for m
    by (simp_all add: demo_plugin_def)
  obtain c0 log0 where l: "load_features demo_plugin ?ms zero_ctx [] = (0, c0, log0)" using f(1) by auto
  have "plugin_init_cb demo_plugin = Ret (subscribe_and_track demo_plugin (c0\<lparr>pc_session := True\<rparr>) (log0 @ [Start_session, Check_empty]))"
    by (simp only: plugin_init_cb_def l) (simp add: f initial_load_def Let_def)
  then show ?thesis using s [of "c0\<lparr>pc_session := True\<rparr>" "log0 @ [Start_session, Check_empty]"] by (metis prod.collapse)
qed

theorem init_subscribes_witness:
  "\<exists>c log. plugin_init_cb demo_plugin = Ret (0, c, log) \<and> last log = Start_tracker
    \<and> tracker_reach (pl_tracking demo_plugin) (pl_clock demo_plugin) (pc_state c)"
proof -
  obtain c log where i: "plugin_init_cb demo_plugin = Ret (0, c, log)" using demo_plugin_init by blast
  then show ?thesis using init_subscribes [OF i] by auto
qed

text \<open>C13. The cleanup releases every object at most once and only objects that the context owns, but it leaves
  behind exactly the address and neighbor caches of the getters, the link cache that the tracker
  allocated itself, the startup session, and what the initial load left open.\<close>

theorem cleanup_leaks:
  assumes "plugin_cleanup_cb (Some c) = Ret released" "distinct (pc_features c)"
  shows "distinct released \<and> set released \<subseteq> owned c
    \<and> owned c - set released = {x. (x = O_oper_addr_cache \<and> on_addr_cache (pc_oper c)) \<or> (x = O_oper_neigh_cache \<and> on_neigh_cache (pc_oper c))
        \<or> (x = O_tracker_cache \<and> pc_tracker_cache c) \<or> (x = O_session \<and> pc_session c) \<or> x \<in> O_load ` set (ls_open (pc_load c))}"
proof -
  let ?o = "pc_oper c"
  have r: "released = (if on_link_cache ?o then [O_oper_link_cache] else []) @ (if on_socket ?o then [O_oper_socket] else [])
      @ (if pc_socket c then [O_tracker_socket] else []) @ (if pc_manager c then [O_manager] else [])
      @ (if sc_hash (pc_state c) \<noteq> [] then [O_state_hash] else []) @ map O_features (pc_features c) @ [O_context]"
    using assms(1) by (simp add: plugin_cleanup_cb_def)
  have s: "set released = {x. x = O_context \<or> (x = O_oper_link_cache \<and> on_link_cache ?o) \<or> (x = O_oper_socket \<and> on_socket ?o)
     \<or> (x = O_tracker_socket \<and> pc_socket c) \<or> (x = O_manager \<and> pc_manager c)
     \<or> (x = O_state_hash \<and> sc_hash (pc_state c) \<noteq> []) \<or> x \<in> O_features ` set (pc_features c)}"
    unfolding r by (simp only: set_append set_map) (simp, blast)
  have "distinct (map O_features (pc_features c))" using assms(2) by (simp add: distinct_map inj_on_def)
  then have "distinct released" unfolding r by auto
  moreover have "set released \<subseteq> owned c" unfolding s owned_def by blast
  moreover have "owned c - set released = {x. (x = O_oper_addr_cache \<and> on_addr_cache ?o) \<or> (x = O_oper_neigh_cache \<and> on_neigh_cache ?o)
        \<or> (x = O_tracker_cache \<and> pc_tracker_cache c) \<or> (x = O_session \<and> pc_session c) \<or> x \<in> O_load ` set (ls_open (pc_load c))}"
    unfolding s owned_def by (rule set_eqI) (case_tac x, auto)
  ultimately show ?thesis by blast
qed

theorem cleanup_leaks_witness:
  "\<exists>released. plugin_cleanup_cb (Some (zero_ctx\<lparr>pc_session := True, pc_tracker_cache := True\<rparr>)) = Ret released
    \<and> O_session \<notin> set released \<and> O_tracker_cache \<notin> set released"
proof -
  let ?c = "zero_ctx\<lparr>pc_session := True, pc_tracker_cache := True\<rparr>"
  obtain released where r: "plugin_cleanup_cb (Some ?c) = Ret released" by (auto simp: plugin_cleanup_cb_def)
  have "distinct (pc_features ?c)" by (simp add: zero_ctx_def)
  then have "O_session \<in> owned ?c - set released" "O_tracker_cache \<in> owned ?c - set released"
    using cleanup_leaks [OF r] by auto
  then show ?thesis using r by blast
qed

text \<open>C9. While the plugin runs its tracker stays in a state that the initialisation and the callbacks reach, and
  a request for the list of interfaces is undefined only when an earlier one left the link cache
  without the other two.  But from every such state the cleanup can run, and it releases the context and the
  cache manager while the thread goes on: the steps that follow are exactly the two uses after free,
  and both are reached.  Had the thread not been started, nothing would follow the cleanup.\<close>

theorem life_cycle:
  assumes "life_reach P (Alive c)"
  shows "tracker_reach (pl_tracking P) (pl_clock P) (pc_state c)
    \<and> (\<forall>x. life_step P (Alive c) (Crashed x) \<longrightarrow>
         x = Null_cache \<and> on_link_cache (pc_oper c) \<and> \<not> (on_addr_cache (pc_oper c) \<and> on_neigh_cache (pc_oper c)))
    \<and> (\<exists>released. plugin_cleanup_cb (Some c) = Ret released \<and> life_step P (Alive c) (Cleaned released True)
         \<and> (\<forall>l. life_step P (Cleaned released True) l \<longleftrightarrow> l \<in> {Crashed (After_free O_context), Crashed (After_free O_manager)})
         \<and> (\<forall>l. \<not> life_step P (Cleaned released False) l))
    \<and> life_reach P (Crashed (After_free O_context)) \<and> life_reach P (Crashed (After_free O_manager))"
proof -
  have a: "tracker_reach (pl_tracking P) (pl_clock P) (pc_state c)" "pc_thread c" "pc_manager c"
    using reach_alive [OF assms refl] by auto
  have crash: "x = Null_cache \<and> on_link_cache (pc_oper c) \<and> \<not> (on_addr_cache (pc_oper c) \<and> on_neigh_cache (pc_oper c))"
    if step: "life_step P (Alive c) (Crashed x)" for x
  proof -
    obtain F where "oper_interface F (pc_oper c) [] = Undef" "x = Null_cache" using step by (auto elim: alive_to_crash)
    then show ?thesis
      by (auto simp: oper_interface_def prepare_socket_def prepare_caches_def Let_def split: if_splits prod.splits)
  qed
  obtain released where r: "plugin_cleanup_cb (Some c) = Ret released" by (auto simp: plugin_cleanup_cb_def)
  then have u: "set released \<inter> thread_uses = thread_uses" using a(3) by (auto simp: plugin_cleanup_cb_def thread_uses_def)
  have s: "life_step P (Alive c) (Cleaned released True)" using life_step.clean_up [OF r] a(2) by simp
  have n: "life_step P (Cleaned released True) l \<longleftrightarrow> l \<in> {Crashed (After_free O_context), Crashed (After_free O_manager)}" for l
    unfolding cleaned_step using u by (auto simp: thread_uses_def)
  have "life_reach P (Crashed (After_free x))" if "x \<in> {O_context, O_manager}" for x
    using life_next [OF life_next [OF assms s]] n that by auto
  then show ?thesis using a(1) crash r s n by (auto simp: cleaned_step)
qed

theorem life_cycle_witness: "life_reach demo_plugin (Crashed (After_free O_manager))"
proof -
  obtain c log where "plugin_init_cb demo_plugin = Ret (0, c, log)" using demo_plugin_init by blast
  then have "life_reach demo_plugin (Alive c)" by (rule life_start)
  then show ?thesis using life_cycle by blast
qed

end
