(* ===== verification/IfRead.thy ===== *)
theory IfRead
  imports IfAddrChange
begin

text \<open>
  Reading a number from a file, \<^verbatim>\<open>api/interfaces/read.c\<close>.  The file system is a parameter: the text of the
  file at a path, or \<^verbatim>\<open>None\<close> where it cannot be opened.  \<^verbatim>\<open>snprintf\<close> does not fail on these formats.
\<close>

section \<open>Readers\<close>

text \<open>\<^verbatim>\<open>fgets\<close> into a buffer of \<^verbatim>\<open>n\<close> zero bytes: at most \<^verbatim>\<open>n - 1\<close> characters of the first line, with its
  end.\<close>

definition fgets :: "nat \<Rightarrow> cstr \<Rightarrow> cstr" where
  "fgets n s = take (n - 1) (takeWhile (\<lambda>c. c \<noteq> CHR 0x0A) s @ take 1 (dropWhile (\<lambda>c. c \<noteq> CHR 0x0A) s))"

definition read_number :: "(cstr \<Rightarrow> cstr option) \<Rightarrow> nat \<Rightarrow> cstr \<Rightarrow> int \<Rightarrow> int \<times> int" where
  "read_number fs n path val = (case fs (cbuf PATH_MAX path) of None \<Rightarrow> (-1, val) | Some s \<Rightarrow> (0, atoi (fgets n s)))"

definition read_from_proc_file :: "(cstr \<Rightarrow> cstr option) \<Rightarrow> cstr \<Rightarrow> cstr \<Rightarrow> cstr \<Rightarrow> int \<Rightarrow> int \<times> int" where
  "read_from_proc_file fs dir_path interface fn val =
    read_number fs 2 (dir_path @ ''/'' @ interface @ ''/'' @ fn) val"

definition read_from_sys_file :: "(cstr \<Rightarrow> cstr option) \<Rightarrow> cstr \<Rightarrow> cstr \<Rightarrow> int \<Rightarrow> int \<times> int" where
  "read_from_sys_file fs dir_path interface val =
    read_number fs 4 (dir_path @ ''/'' @ interface @ ''/type'') val"

section \<open>Lemmas\<close>

lemma atoi_digits_less: "atoi_digits a cs < (a + 1) * 10 ^ length cs"
proof (induction cs arbitrary: a)
  case (Cons c cs)
  show ?case
  proof (cases "is_digit c")
    case True
    then have "10 * a + (of_char c - 48) + 1 \<le> (a + 1) * 10" by (auto simp: is_digit_def)
    then have le: "(10 * a + (of_char c - 48) + 1) * 10 ^ length cs \<le> (a + 1) * 10 * 10 ^ length cs" by (rule mult_le_mono1)
    have "atoi_digits (10 * a + (of_char c - 48)) cs < (a + 1) * 10 * 10 ^ length cs"
      using Cons.IH le by (rule less_le_trans)
    also have "\<dots> = (a + 1) * 10 ^ length (c # cs)" by (simp only: length_Cons power_Suc mult.assoc)
    finally show ?thesis using True by (simp only: atoi_digits.simps if_True)
  next
    case False
    have "a < (a + 1) * 1" by simp
    also have "\<dots> \<le> (a + 1) * 10 ^ length (c # cs)" by (rule mult_le_mono2) simp
    finally show ?thesis using False by (simp only: atoi_digits.simps if_False)
  qed
qed simp

lemma length_dropWhile_tl: "dropWhile P s = c # cs \<Longrightarrow> length (c # cs) \<le> length s"
  by (metis length_dropWhile_le)

lemma atoi_bounds:
  assumes "length s \<le> n"
  shows "- (10 ^ (n - 1)) < atoi s \<and> atoi s < 10 ^ n"
proof (cases "dropWhile is_space s")
  case (Cons c cs)
  have len: "length cs \<le> n - 1" "length (c # cs) \<le> n" using length_dropWhile_tl [OF Cons] assms by auto
  have cs: "int (atoi_digits 0 cs) < 10 ^ (n - 1)"
  proof -
    have "atoi_digits 0 cs < 10 ^ length cs" using atoi_digits_less [of 0 cs] by simp
    also have "\<dots> \<le> 10 ^ (n - 1)" using len(1) by (intro power_increasing) simp_all
    finally show ?thesis by simp
  qed
  have ccs: "int (atoi_digits 0 (c # cs)) < 10 ^ n"
  proof -
    have "atoi_digits 0 (c # cs) < 10 ^ length (c # cs)" using atoi_digits_less [of 0 "c # cs"] by simp
    also have "\<dots> \<le> 10 ^ n" using len(2) by (intro power_increasing) simp_all
    finally show ?thesis by simp
  qed
  have "(10 :: int) ^ (n - 1) \<le> 10 ^ n" by (intro power_increasing) simp_all
  then have lt: "int (atoi_digits 0 cs) < 10 ^ n" using cs by linarith
  have pos: "(0 :: int) < 10 ^ n" "(0 :: int) < 10 ^ (n - 1)" by simp_all
  have "atoi s = - int (atoi_digits 0 cs) \<or> atoi s = int (atoi_digits 0 cs) \<or> atoi s = int (atoi_digits 0 (c # cs))"
    unfolding atoi_def Cons by simp
  then show ?thesis using cs ccs lt pos by linarith
next
  case Nil
  then show ?thesis unfolding atoi_def by (simp only: Nil list.case) simp
qed

lemma fgets_length: "length (fgets n s) \<le> n - 1"
  by (simp add: fgets_def)

lemma dec_no_newline: "CHR 0x0A \<notin> set (dec n)"
  using dec_all_digits [of "CHR 0x0A" n] by (auto simp: is_digit_def)

lemma fgets_line: "fgets k (dec n @ [CHR 0x0A]) = take (k - 1) (dec n @ [CHR 0x0A])"
  using dec_no_newline by (auto simp: fgets_def takeWhile_append dropWhile_append)

lemma atoi_line: "atoi (dec n @ [CHR 0x0A]) = int n"
proof -
  obtain c cs where d: "dec n = c # cs" by (cases "dec n") auto
  have c: "c \<noteq> CHR ''-'' \<and> c \<noteq> CHR ''+'' \<and> \<not> is_space c"
    using dec_all_digits [of c n] d by (intro digit_no_sign) auto
  then have "atoi (dec n @ [CHR 0x0A]) = int (atoi_digits 0 (dec n @ [CHR 0x0A]))" by (simp add: atoi_def d)
  also have "\<dots> = int (atoi_digits (atoi_digits 0 (dec n)) [CHR 0x0A])"
    using atoi_digits_append [of "dec n" 0 "[CHR 0x0A]"] dec_all_digits by simp
  also have "\<dots> = int n" by (simp add: atoi_digits_dec is_digit_def)
  finally show ?thesis .
qed

lemma atoi_fgets:
  assumes "0 < k"
  shows "atoi (fgets (Suc k) (dec n @ [CHR 0x0A])) = int n \<longleftrightarrow> n < 10 ^ k"
proof
  assume "n < 10 ^ k"
  then have "length (dec n) \<le> k" using assms by (rule length_dec_bound)
  then consider "length (dec n) = k" | "length (dec n) < k" by linarith
  then show "atoi (fgets (Suc k) (dec n @ [CHR 0x0A])) = int n" by cases (simp_all add: fgets_line atoi_line)
next
  assume "atoi (fgets (Suc k) (dec n @ [CHR 0x0A])) = int n"
  moreover have "length (fgets (Suc k) (dec n @ [CHR 0x0A])) \<le> k" using fgets_length [of "Suc k"] by simp
  ultimately have "int n < 10 ^ k" using atoi_bounds by metis
  then show "n < 10 ^ k" by simp
qed

section \<open>Properties\<close>

text \<open>A number that was read from a file has at most as many digits as the buffer has room for beside the
  terminating zero: one in the reader of \<^verbatim>\<open>/proc\<close>, three in the reader of \<^verbatim>\<open>/sys\<close>.  So the number in a file is
  read exactly when it is below 10, or below 1000, and longer ones are cut.\<close>

theorem read_files_bounds:
  assumes "read_from_proc_file fs d i fn v0 = (0, v)" "read_from_sys_file fs d' i' w0 = (0, w)"
  shows "0 \<le> v \<and> v < 10 \<and> -100 < w \<and> w < 1000
    \<and> (fs (cbuf PATH_MAX (d @ ''/'' @ i @ ''/'' @ fn)) = Some (dec n @ [CHR 0x0A]) \<longrightarrow> (v = int n \<longleftrightarrow> n < 10))
    \<and> (fs (cbuf PATH_MAX (d' @ ''/'' @ i' @ ''/type'')) = Some (dec n @ [CHR 0x0A]) \<longrightarrow> (w = int n \<longleftrightarrow> n < 1000))"
proof -
  obtain s t where st: "v = atoi (fgets 2 s)" "w = atoi (fgets 4 t)"
    "fs (cbuf PATH_MAX (d @ ''/'' @ i @ ''/'' @ fn)) = Some s" "fs (cbuf PATH_MAX (d' @ ''/'' @ i' @ ''/type'')) = Some t"
    using assms by (auto simp: read_from_proc_file_def read_from_sys_file_def read_number_def split: option.splits)
  moreover have "0 \<le> v \<and> v < 10 \<and> -100 < w \<and> w < 1000"
    using atoi_bounds [of "fgets 2 s" 1] atoi_bounds [of "fgets 4 t" 3] fgets_length [of 2 s] fgets_length [of 4 t] st by simp
  moreover have "v = int n \<longleftrightarrow> n < 10" if "s = dec n @ [CHR 0x0A]"
    using atoi_fgets [of 1 n] st(1) that by (simp add: numeral_2_eq_2)
  moreover have "w = int n \<longleftrightarrow> n < 1000" if "t = dec n @ [CHR 0x0A]"
    using atoi_fgets [of 3 n] st(2) that by simp
  ultimately show ?thesis by simp
qed

definition demo_files :: "cstr \<Rightarrow> cstr option" where
  "demo_files path = (if path = ''/sys/class/net/wg0/type'' then Some (dec 65534 @ [CHR 0x0A]) else Some (dec 1500 @ [CHR 0x0A]))"

lemma digit_chars: "digit 0 = CHR ''0''" "digit 1 = CHR ''1''" "digit 3 = CHR ''3''" "digit 4 = CHR ''4''" "digit 5 = CHR ''5''" "digit 6 = CHR ''6''"
  by (simp_all add: digit_def char_of_def bit_0)

lemma demo_read:
  "read_from_proc_file demo_files ''/proc/sys/net/ipv4'' ''eth0'' ''mtu'' 0 = (0, 1)"
  "read_from_sys_file demo_files ''/sys/class/net'' ''wg0'' 0 = (0, 655)"
proof -
  have d: "dec 65534 = ''65534''" "dec 1500 = ''1500''" by (simp_all add: dec.simps digit_chars [simplified])
  show "read_from_proc_file demo_files ''/proc/sys/net/ipv4'' ''eth0'' ''mtu'' 0 = (0, 1)"
    "read_from_sys_file demo_files ''/sys/class/net'' ''wg0'' 0 = (0, 655)"
    by (simp_all add: read_from_proc_file_def read_from_sys_file_def read_number_def demo_files_def cbuf_def d fgets_def
        atoi_def is_space_def is_digit_def)
qed

theorem read_files_bounds_witness:
  "read_from_sys_file demo_files ''/sys/class/net'' ''wg0'' 0 = (0, 655) \<and> (655 = int 65534 \<longleftrightarrow> 65534 < (1000 :: nat))"
  using read_files_bounds [OF demo_read, where n = 65534] demo_read by (simp add: demo_files_def cbuf_def)

end
