(* ===== verification/IfUnhandled.thy ===== *)
theory IfUnhandled
  imports IfLinkChange
begin

text \<open>
  The change handlers of the leaves that the plugin does not support yet: \<^verbatim>\<open>ipv6/change.c\<close>,
  \<^verbatim>\<open>ipv6/autoconf/change.c\<close>, \<^verbatim>\<open>carrier-delay/change.c\<close>, \<^verbatim>\<open>dampening/change.c\<close> and the two of
  \<^verbatim>\<open>encapsulation/dot1q-vlan\<close>, all below \<^verbatim>\<open>api/interfaces/interface\<close>.  They print the change and accept it,
  whatever the operation is.
\<close>

section \<open>Handlers\<close>

text \<open>The switch over the operation, with nothing in its branches.\<close>

definition accept_change :: handler where
  "accept_change c w =
    (case ch_operation c of
       SR_OP_CREATED \<Rightarrow> Ret (0, w)
     | SR_OP_MODIFIED \<Rightarrow> Ret (0, w)
     | SR_OP_DELETED \<Rightarrow> Ret (0, w)
     | SR_OP_MOVED \<Rightarrow> Ret (0, w))"

definition ipv6_change_dup_addr_detect_transmits_init :: "world \<Rightarrow> int \<times> world" where
  "ipv6_change_dup_addr_detect_transmits_init w = (0, w)"

definition ipv6_change_dup_addr_detect_transmits :: "env \<Rightarrow> handler" where
  "ipv6_change_dup_addr_detect_transmits E c w = accept_change c w"

definition ipv6_change_dup_addr_detect_transmits_free :: "world \<Rightarrow> world" where
  "ipv6_change_dup_addr_detect_transmits_free w = w"

definition ipv6_change_neighbor_init :: "world \<Rightarrow> int \<times> world" where
  "ipv6_change_neighbor_init w = (0, w)"

definition ipv6_change_neighbor :: "env \<Rightarrow> handler" where
  "ipv6_change_neighbor E c w = accept_change c w"

definition ipv6_change_neighbor_free :: "world \<Rightarrow> world" where
  "ipv6_change_neighbor_free w = w"

definition ipv6_change_address_init :: "world \<Rightarrow> int \<times> world" where
  "ipv6_change_address_init w = (0, w)"

definition ipv6_change_address :: "env \<Rightarrow> handler" where
  "ipv6_change_address E c w = accept_change c w"

definition ipv6_change_address_free :: "world \<Rightarrow> world" where
  "ipv6_change_address_free w = w"

definition ipv6_change_mtu_init :: "world \<Rightarrow> int \<times> world" where
  "ipv6_change_mtu_init w = (0, w)"

definition ipv6_change_mtu :: "env \<Rightarrow> handler" where
  "ipv6_change_mtu E c w = accept_change c w"

definition ipv6_change_mtu_free :: "world \<Rightarrow> world" where
  "ipv6_change_mtu_free w = w"

definition ipv6_change_forwarding_init :: "world \<Rightarrow> int \<times> world" where
  "ipv6_change_forwarding_init w = (0, w)"

definition ipv6_change_forwarding :: "env \<Rightarrow> handler" where
  "ipv6_change_forwarding E c w = accept_change c w"

definition ipv6_change_forwarding_free :: "world \<Rightarrow> world" where
  "ipv6_change_forwarding_free w = w"

definition ipv6_change_enabled_init :: "world \<Rightarrow> int \<times> world" where
  "ipv6_change_enabled_init w = (0, w)"

definition ipv6_change_enabled :: "env \<Rightarrow> handler" where
  "ipv6_change_enabled E c w = accept_change c w"

definition ipv6_change_enabled_free :: "world \<Rightarrow> world" where
  "ipv6_change_enabled_free w = w"

definition ipv6_autoconf_change_temporary_preferred_lifetime_init :: "world \<Rightarrow> int \<times> world" where
  "ipv6_autoconf_change_temporary_preferred_lifetime_init w = (0, w)"

definition ipv6_autoconf_change_temporary_preferred_lifetime :: "env \<Rightarrow> handler" where
  "ipv6_autoconf_change_temporary_preferred_lifetime E c w = accept_change c w"

definition ipv6_autoconf_change_temporary_preferred_lifetime_free :: "world \<Rightarrow> world" where
  "ipv6_autoconf_change_temporary_preferred_lifetime_free w = w"

definition ipv6_autoconf_change_temporary_valid_lifetime_init :: "world \<Rightarrow> int \<times> world" where
  "ipv6_autoconf_change_temporary_valid_lifetime_init w = (0, w)"

definition ipv6_autoconf_change_temporary_valid_lifetime :: "env \<Rightarrow> handler" where
  "ipv6_autoconf_change_temporary_valid_lifetime E c w = accept_change c w"

definition ipv6_autoconf_change_temporary_valid_lifetime_free :: "world \<Rightarrow> world" where
  "ipv6_autoconf_change_temporary_valid_lifetime_free w = w"

definition ipv6_autoconf_change_create_temporary_addresses_init :: "world \<Rightarrow> int \<times> world" where
  "ipv6_autoconf_change_create_temporary_addresses_init w = (0, w)"

definition ipv6_autoconf_change_create_temporary_addresses :: "env \<Rightarrow> handler" where
  "ipv6_autoconf_change_create_temporary_addresses E c w = accept_change c w"

definition ipv6_autoconf_change_create_temporary_addresses_free :: "world \<Rightarrow> world" where
  "ipv6_autoconf_change_create_temporary_addresses_free w = w"

definition ipv6_autoconf_change_create_global_addresses_init :: "world \<Rightarrow> int \<times> world" where
  "ipv6_autoconf_change_create_global_addresses_init w = (0, w)"

definition ipv6_autoconf_change_create_global_addresses :: "env \<Rightarrow> handler" where
  "ipv6_autoconf_change_create_global_addresses E c w = accept_change c w"

definition ipv6_autoconf_change_create_global_addresses_free :: "world \<Rightarrow> world" where
  "ipv6_autoconf_change_create_global_addresses_free w = w"

definition carrier_delay_change_up :: "env \<Rightarrow> handler" where
  "carrier_delay_change_up E c w = accept_change c w"

definition carrier_delay_change_down :: "env \<Rightarrow> handler" where
  "carrier_delay_change_down E c w = accept_change c w"

definition dampening_change_max_suppress_time :: "env \<Rightarrow> handler" where
  "dampening_change_max_suppress_time E c w = accept_change c w"

definition dampening_change_suppress :: "env \<Rightarrow> handler" where
  "dampening_change_suppress E c w = accept_change c w"

definition dampening_change_reuse :: "env \<Rightarrow> handler" where
  "dampening_change_reuse E c w = accept_change c w"

definition dampening_change_half_life :: "env \<Rightarrow> handler" where
  "dampening_change_half_life E c w = accept_change c w"

definition encapsulation_dot1q_vlan_outer_tag_change_vlan_id :: "env \<Rightarrow> handler" where
  "encapsulation_dot1q_vlan_outer_tag_change_vlan_id E c w = accept_change c w"

definition encapsulation_dot1q_vlan_outer_tag_change_tag_type :: "env \<Rightarrow> handler" where
  "encapsulation_dot1q_vlan_outer_tag_change_tag_type E c w = accept_change c w"

definition encapsulation_dot1q_vlan_second_tag_change_vlan_id :: "env \<Rightarrow> handler" where
  "encapsulation_dot1q_vlan_second_tag_change_vlan_id E c w = accept_change c w"

definition encapsulation_dot1q_vlan_second_tag_change_tag_type :: "env \<Rightarrow> handler" where
  "encapsulation_dot1q_vlan_second_tag_change_tag_type E c w = accept_change c w"

text \<open>The leaves and the handlers that are there for them.\<close>

definition unhandled_table :: "(cstr \<times> (env \<Rightarrow> handler)) list" where
  "unhandled_table =
    [(''ipv6/dup-addr-detect-transmits'', ipv6_change_dup_addr_detect_transmits),
     (''ipv6/neighbor'', ipv6_change_neighbor),
     (''ipv6/address'', ipv6_change_address),
     (''ipv6/mtu'', ipv6_change_mtu),
     (''ipv6/forwarding'', ipv6_change_forwarding),
     (''ipv6/enabled'', ipv6_change_enabled),
     (''ipv6/autoconf/temporary-preferred-lifetime'', ipv6_autoconf_change_temporary_preferred_lifetime),
     (''ipv6/autoconf/temporary-valid-lifetime'', ipv6_autoconf_change_temporary_valid_lifetime),
     (''ipv6/autoconf/create-temporary-addresses'', ipv6_autoconf_change_create_temporary_addresses),
     (''ipv6/autoconf/create-global-addresses'', ipv6_autoconf_change_create_global_addresses),
     (''carrier-delay/up'', carrier_delay_change_up),
     (''carrier-delay/down'', carrier_delay_change_down),
     (''dampening/max-suppress-time'', dampening_change_max_suppress_time),
     (''dampening/suppress'', dampening_change_suppress),
     (''dampening/reuse'', dampening_change_reuse),
     (''dampening/half-life'', dampening_change_half_life),
     (''encapsulation/dot1q-vlan/outer-tag/vlan-id'', encapsulation_dot1q_vlan_outer_tag_change_vlan_id),
     (''encapsulation/dot1q-vlan/outer-tag/tag-type'', encapsulation_dot1q_vlan_outer_tag_change_tag_type),
     (''encapsulation/dot1q-vlan/second-tag/vlan-id'', encapsulation_dot1q_vlan_second_tag_change_vlan_id),
     (''encapsulation/dot1q-vlan/second-tag/tag-type'', encapsulation_dot1q_vlan_second_tag_change_tag_type)]"

section \<open>Lemmas\<close>

lemma accept_change: "accept_change c w = Ret (0, w)"
  by (cases "ch_operation c") (simp_all add: accept_change_def)

lemma unhandled_accepts: "(leaf, h) \<in> set unhandled_table \<Longrightarrow> h E c w = Ret (0, w)"
  unfolding unhandled_table_def
  by (auto simp: accept_change ipv6_change_dup_addr_detect_transmits_def
    ipv6_change_neighbor_def
    ipv6_change_address_def
    ipv6_change_mtu_def
    ipv6_change_forwarding_def
    ipv6_change_enabled_def
    ipv6_autoconf_change_temporary_preferred_lifetime_def
    ipv6_autoconf_change_temporary_valid_lifetime_def
    ipv6_autoconf_change_create_temporary_addresses_def
    ipv6_autoconf_change_create_global_addresses_def
    carrier_delay_change_up_def carrier_delay_change_down_def dampening_change_max_suppress_time_def
    dampening_change_suppress_def dampening_change_reuse_def dampening_change_half_life_def
    encapsulation_dot1q_vlan_outer_tag_change_vlan_id_def encapsulation_dot1q_vlan_outer_tag_change_tag_type_def encapsulation_dot1q_vlan_second_tag_change_vlan_id_def
    encapsulation_dot1q_vlan_second_tag_change_tag_type_def)

lemma unhandled_silent: "(leaf, h) \<in> set unhandled_table \<Longrightarrow> change_handler h \<and> silent (h E)"
  by (auto simp: silent_def unhandled_accepts intro!: change_handler.intro exI [of _ "[]"])

lemma quiet_iteration:
  assumes "iterate_law E" "silent cb" "en_iterate E x cb (Some (change_interface_init E)) (Some change_interface_free) w = Ret (e, w')"
  shows "requests w' = requests w"
proof -
  from assms(1,3) obtain cs e1 w1 e2 w2 where i: "change_interface_init E w = (e1, w1)"
    and s: "if e1 \<noteq> 0 then e2 = e1 \<and> w2 = w1 else iterate_list cb cs w1 = Ret (e2, w2)"
    and w': "w' = w2 \<or> w' = change_interface_free w2"
    unfolding iterate_law_def by fastforce
  have "w_trace w2 = w_trace w1" using s iterate_list_trace [OF assms(2), of cs w1 e2 w2] by (auto split: if_splits)
  then have "requests w2 = requests w1" by (rule requests_trace)
  then have "requests w2 = requests w" using init_requests [of E w] i by simp
  then show ?thesis using w' free_requests by auto
qed

lemma quiet_changes:
  assumes "iterate_law E" "\<And>leaf h. (leaf, h) \<in> set hs \<Longrightarrow> silent (h E)"
  shows "run_changes E xpath hs w = Ret (e, w') \<Longrightarrow> requests w' = requests w"
  using assms(2)
proof (induction hs arbitrary: w)
  case (Cons x hs)
  obtain leaf h where x: "x = (leaf, h)" by fastforce
  have s: "silent (h E)" using Cons.prems(2) x by auto
  obtain e1 w1 where call: "en_iterate E (cbuf PATH_MAX (xpath @ ''/'' @ leaf)) (h E)
        (Some (change_interface_init E)) (Some change_interface_free) w = Ret (e1, w1)"
    using Cons.prems(1) x by (auto simp: safe_run_def obind_eq_Ret)
  have "w' = w1 \<or> run_changes E xpath hs w1 = Ret (e, w')"
    using Cons.prems(1) x call by (auto simp: safe_run_def split: if_splits)
  moreover have "requests w1 = requests w" by (rule quiet_iteration [OF assms(1) s call])
  ultimately show ?case using Cons.IH [of w1] Cons.prems(2) by auto
qed simp

text \<open>None of these leaves is among those that the change subscription looks at; if they were added to it, they would
  send nothing.\<close>

theorem unhandled_leaves:
  assumes "iterate_law E" "run_changes E xpath unhandled_table w = Ret (e, w')"
  shows "requests w' = requests w \<and> fst ` set unhandled_table \<inter> fst ` set change_table = {}"
proof
  show "requests w' = requests w"
    by (rule quiet_changes [OF assms(1) _ assms(2)]) (use unhandled_silent in blast)
  show "fst ` set unhandled_table \<inter> fst ` set change_table = {}"
    by (simp add: unhandled_table_def change_table_def)
qed

end
