(* ===== verification/Memory.thy ===== *)
theory Memory
  imports Prelude
begin

text \<open>
  The allocation wrappers of \<^verbatim>\<open>src/utils/memory.c\<close>.  What the C library answers is the last argument: the
  block, or \<^verbatim>\<open>None\<close> for \<^verbatim>\<open>NULL\<close>.  A wrapper never returns \<^verbatim>\<open>NULL\<close>: it ends the program when the
  library does, and also when it is asked for an empty block.
\<close>

section \<open>Wrappers\<close>

definition or_abort :: "'b option \<Rightarrow> 'b outcome" where
  "or_abort res = (case res of None \<Rightarrow> Abort | Some p \<Rightarrow> Ret p)"

definition xmalloc :: "nat \<Rightarrow> 'b option \<Rightarrow> 'b outcome" where
  "xmalloc size' res = (if size' = 0 then Abort else or_abort res)"

definition xrealloc :: "'b \<Rightarrow> nat \<Rightarrow> 'b option \<Rightarrow> 'b outcome" where
  "xrealloc ptr size' res = (if size' = 0 then Abort else or_abort res)"

text \<open>The number of members is not checked.\<close>

definition xcalloc :: "nat \<Rightarrow> nat \<Rightarrow> 'b option \<Rightarrow> 'b outcome" where
  "xcalloc nmemb size' res = (if size' = 0 then Abort else or_abort res)"

text \<open>\<^verbatim>\<open>strdup\<close> reads its argument; the flag tells whether there is memory for the copy.\<close>

definition xstrdup :: "cptr \<Rightarrow> bool \<Rightarrow> cptr outcome" where
  "xstrdup s memory = (case s of Ptr t \<Rightarrow> or_abort (if memory then Some (Ptr t) else None) | _ \<Rightarrow> Undef)"

definition xstrndup :: "cptr \<Rightarrow> nat \<Rightarrow> bool \<Rightarrow> cptr outcome" where
  "xstrndup s n memory = (case s of Ptr t \<Rightarrow> or_abort (if memory then Some (Ptr (take n t)) else None) | _ \<Rightarrow> Undef)"

section \<open>Lemmas\<close>

lemma or_abort_simps [simp]: "or_abort None = Abort" "or_abort (Some p) = Ret p"
  by (simp_all add: or_abort_def)

text \<open>A request for a block of some size is answered with the block or ends the program, and with memory every
  request but an empty one is answered; the copies are the text, up to the length that is asked for.\<close>

lemma allocation_answers:
  "xmalloc n res = Ret p \<longleftrightarrow> 0 < n \<and> res = Some p"
  "xrealloc q n res = Ret p \<longleftrightarrow> 0 < n \<and> res = Some p"
  "xcalloc m n res = Ret p \<longleftrightarrow> 0 < n \<and> res = Some p"
  "xmalloc n res \<noteq> Undef" "xrealloc q n res \<noteq> Undef" "xcalloc m n res \<noteq> Undef"
  by (cases res; auto simp: xmalloc_def xrealloc_def xcalloc_def)+

lemma copies_answer:
  "xstrdup s memory = Ret c \<longleftrightarrow> memory \<and> c = s \<and> (\<exists>t. s = Ptr t)"
  "xstrndup s n memory = Ret c \<longleftrightarrow> memory \<and> (\<exists>t. s = Ptr t \<and> c = Ptr (take n t))"
  by (cases s; auto simp: xstrdup_def xstrndup_def)+

lemma xstrndup_long: "length t \<le> n \<Longrightarrow> xstrndup (Ptr t) n memory = xstrdup (Ptr t) memory"
  by (simp add: xstrdup_def xstrndup_def)

end
