(* ===== verification/PutTable.thy ===== *)
theory PutTable
  imports KeyedTable
begin

text \<open>
  The interface of the tables that the routing plugin fills by key: an insertion creates the entry
  of a new key behind the others and merges into the entry of a known one.  The list of routing
  tables and the routes of a table are its two providers.  An insertion has a precondition, as C
  code may be undefined on some arguments.
\<close>

locale put_table =
  fixes key :: "'e \<Rightarrow> 'k"
    and get :: "'e list \<Rightarrow> 'k \<Rightarrow> 'e option outcome"
    and put :: "'k \<Rightarrow> 'x \<Rightarrow> 'e list \<Rightarrow> 'e list outcome"
    and ok :: "'k \<Rightarrow> 'x \<Rightarrow> bool"
    and make :: "'k \<Rightarrow> 'x \<Rightarrow> 'e"
    and merge :: "'x \<Rightarrow> 'e \<Rightarrow> 'e"
  assumes get_find: "ok k x \<Longrightarrow> get t k = Ret (hash_find key k t)"
    and put_new: "ok k x \<Longrightarrow> k \<notin> key ` set t \<Longrightarrow> put k x t = Ret (t @ [make k x])"
    and put_old: "ok k x \<Longrightarrow> k \<in> key ` set t \<Longrightarrow> distinct (map key t) \<Longrightarrow>
      put k x t = Ret (hash_update key k (merge x) t)"
    and key_make: "ok k x \<Longrightarrow> key (make k x) = k"
    and key_merge: "key (merge x e) = key e"
begin

text \<open>What an insertion makes of the entry of its key, and of the whole table.\<close>

definition entry :: "'k \<Rightarrow> 'x \<Rightarrow> 'e option \<Rightarrow> 'e" where
  "entry k x prev = (case prev of None \<Rightarrow> make k x | Some e \<Rightarrow> merge x e)"

definition put_pure :: "'k \<Rightarrow> 'x \<Rightarrow> 'e list \<Rightarrow> 'e list" where
  "put_pure k x t = (if k \<in> key ` set t then hash_update key k (merge x) t else t @ [make k x])"

lemma put_Ret: "ok k x \<Longrightarrow> distinct (map key t) \<Longrightarrow> put k x t = Ret (put_pure k x t)"
  by (simp add: put_pure_def put_new put_old)

lemma keys_put: "ok k x \<Longrightarrow>
    map key (put_pure k x t) = map key t @ (if k \<in> key ` set t then [] else [k])"
  by (simp add: put_pure_def key_make key_merge)

lemma distinct_put: "ok k x \<Longrightarrow> distinct (map key t) \<Longrightarrow> distinct (map key (put_pure k x t))"
  by (auto simp: keys_put)

lemma find_put:
  assumes "ok k x"
  shows "hash_find key j (put_pure k x t) =
    (if j = k then Some (entry k x (hash_find key k t)) else hash_find key j t)"
proof (cases "k \<in> key ` set t")
  case True
  then obtain e where "hash_find key k t = Some e"
    using hash_find_None_iff [of key k t] by (cases "hash_find key k t") auto
  then show ?thesis using True by (simp add: put_pure_def entry_def hash_update_find key_merge)
next
  case False
  then have "hash_find key k t = None" by (simp add: hash_find_None_iff)
  then show ?thesis
    using False assms by (auto simp: put_pure_def entry_def table_simps key_make split: option.splits)
qed

text \<open>A sequence of insertions.\<close>

fun puts :: "('k \<times> 'x) list \<Rightarrow> 'e list \<Rightarrow> 'e list outcome" where
  "puts [] t = Ret t"
| "puts ((k, x) # kxs) t = obind (put k x t) (puts kxs)"

definition puts_pure :: "('k \<times> 'x) list \<Rightarrow> 'e list \<Rightarrow> 'e list" where
  "puts_pure kxs t = fold (\<lambda>(k, x). put_pure k x) kxs t"

lemma puts_Ret:
  "\<forall>(k, x)\<in>set kxs. ok k x \<Longrightarrow> distinct (map key t) \<Longrightarrow>
    puts kxs t = Ret (puts_pure kxs t) \<and> distinct (map key (puts_pure kxs t))"
  by (induction kxs t rule: puts.induct) (auto simp: puts_pure_def put_Ret distinct_put)

lemma find_puts:
  "\<forall>(k, x)\<in>set kxs. ok k x \<Longrightarrow>
    hash_find key j (puts_pure kxs t) =
      fold (\<lambda>x prev. Some (entry j x prev)) (map snd (filter (\<lambda>kx. fst kx = j) kxs)) (hash_find key j t)"
  by (induction kxs arbitrary: t) (auto simp: puts_pure_def find_put)

text \<open>The keys, in the order in which they were first inserted.\<close>

fun new_keys :: "'k list \<Rightarrow> 'k list \<Rightarrow> 'k list" where
  "new_keys seen [] = []"
| "new_keys seen (k # ks) = (if k \<in> set seen then new_keys seen ks else k # new_keys (k # seen) ks)"

lemma new_keys_cong: "set s = set s' \<Longrightarrow> new_keys s ks = new_keys s' ks"
proof (induction ks arbitrary: s s')
  case (Cons k ks)
  have a: "new_keys (k # s) ks = new_keys (k # s') ks" by (rule Cons.IH) (simp add: Cons.prems)
  have b: "new_keys s ks = new_keys s' ks" by (rule Cons.IH) (rule Cons.prems)
  show ?case by (simp add: a b Cons.prems)
qed simp

lemma keys_puts:
  "\<forall>(k, x)\<in>set kxs. ok k x \<Longrightarrow>
    map key (puts_pure kxs t) = map key t @ new_keys (map key t) (map fst kxs)"
proof (induction kxs arbitrary: t)
  case (Cons kx kxs)
  obtain k x where kx: "kx = (k, x)" by (cases kx)
  have k: "ok k x" using Cons.prems kx by auto
  have "map key (puts_pure (kx # kxs) t)
      = map key (put_pure k x t) @ new_keys (map key (put_pure k x t)) (map fst kxs)"
    using Cons.IH [of "put_pure k x t"] Cons.prems kx by (auto simp: puts_pure_def)
  moreover have "new_keys (map key t @ [k]) (map fst kxs) = new_keys (k # map key t) (map fst kxs)"
    by (rule new_keys_cong) auto
  ultimately show ?case using k kx by (simp add: keys_put)
qed (simp add: puts_pure_def)

end

end
