(* ===== verification/RtData.thy ===== *)
theory RtData
  imports PutTable
begin

text \<open>
  The data of the routing plugin: \<^verbatim>\<open>route/next_hop.c\<close>, \<^verbatim>\<open>route.c\<close>, \<^verbatim>\<open>route/list.c\<close>,
  \<^verbatim>\<open>route/list_hash.c\<close>, \<^verbatim>\<open>rib.c\<close>, \<^verbatim>\<open>rib/list.c\<close> and \<^verbatim>\<open>control_plane_protocol.c\<close>.
\<close>

section \<open>Addresses\<close>

text \<open>An address of libnl: its family, what \<^verbatim>\<open>nl_addr2str\<close> prints for it, and its prefix length.
  \<^verbatim>\<open>nl_addr_cmp\<close> is 0 on equal addresses, and a clone is equal to the original.\<close>

record nl_addr =
  na_family :: int
  na_text :: cstr
  na_prefixlen :: nat

abbreviation AF_INET4 :: int where "AF_INET4 \<equiv> 2"
abbreviation AF_INET_6 :: int where "AF_INET_6 \<equiv> 10"

section \<open>Next hops\<close>

datatype next_hop_kind = kind_none | kind_simple | kind_special | kind_list

record next_hop_simple =
  hs_addr :: "nl_addr option"
  hs_ifindex :: int
  hs_if_name :: "cstr option"

text \<open>The members of the union are kept apart; which of them is live says the kind.\<close>

record next_hop =
  nh_kind :: next_hop_kind
  nh_simple :: next_hop_simple
  nh_special :: "cstr option"
  nh_list :: "next_hop_simple list"

definition zero_simple :: next_hop_simple where
  "zero_simple = \<lparr> hs_addr = None, hs_ifindex = 0, hs_if_name = None \<rparr>"

definition zero_next_hop :: next_hop where
  "zero_next_hop = \<lparr> nh_kind = kind_none, nh_simple = zero_simple, nh_special = None, nh_list = [] \<rparr>"

definition route_next_hop_init :: "next_hop \<Rightarrow> next_hop" where
  "route_next_hop_init nh = nh\<lparr>nh_kind := kind_none\<rparr>"

definition route_next_hop_set_simple_gateway :: "next_hop \<Rightarrow> nl_addr option \<Rightarrow> next_hop" where
  "route_next_hop_set_simple_gateway nh gw =
    nh\<lparr>nh_kind := kind_simple, nh_simple := (nh_simple nh)\<lparr>hs_addr := gw\<rparr>\<rparr>"

text \<open>\<^verbatim>\<open>xstrdup(NULL)\<close> is undefined.  The kind is not set here.\<close>

definition route_next_hop_set_simple_interface :: "next_hop \<Rightarrow> int \<Rightarrow> cstr option \<Rightarrow> next_hop outcome" where
  "route_next_hop_set_simple_interface nh ifindex if_name =
    (case if_name of
       None \<Rightarrow> Undef
     | Some s \<Rightarrow> Ret (nh\<lparr>nh_simple := (nh_simple nh)\<lparr>hs_ifindex := ifindex, hs_if_name := Some s\<rparr>\<rparr>))"

definition route_next_hop_set_simple :: "next_hop \<Rightarrow> int \<Rightarrow> cstr option \<Rightarrow> nl_addr option \<Rightarrow> next_hop outcome" where
  "route_next_hop_set_simple nh ifindex if_name gw =
    route_next_hop_set_simple_interface (route_next_hop_set_simple_gateway nh gw) ifindex if_name"

definition route_next_hop_set_special :: "next_hop \<Rightarrow> cstr option \<Rightarrow> next_hop" where
  "route_next_hop_set_special nh v =
    (let nh1 = nh\<lparr>nh_kind := kind_special\<rparr>
     in case v of Some s \<Rightarrow> nh1\<lparr>nh_special := Some s\<rparr> | None \<Rightarrow> nh1)"

text \<open>On a next hop of another kind the append would follow a pointer of that kind.\<close>

definition route_next_hop_add_list :: "next_hop \<Rightarrow> int \<Rightarrow> cstr option \<Rightarrow> nl_addr option \<Rightarrow> next_hop outcome" where
  "route_next_hop_add_list nh ifindex if_name gw =
    (let nh1 = (if nh_kind nh = kind_none then nh\<lparr>nh_kind := kind_list, nh_list := []\<rparr> else nh)
     in case if_name of
       None \<Rightarrow> Undef
     | Some s \<Rightarrow>
         if nh_kind nh1 \<noteq> kind_list then Undef
         else Ret (nh1\<lparr>nh_list := nh_list nh1 @ [\<lparr> hs_addr = gw, hs_ifindex = ifindex, hs_if_name = Some s \<rparr>]\<rparr>))"

fun clone_list :: "next_hop \<Rightarrow> next_hop_simple list \<Rightarrow> next_hop outcome" where
  "clone_list out [] = Ret out"
| "clone_list out (list_iter # hs) =
    obind (route_next_hop_add_list out (hs_ifindex list_iter) (hs_if_name list_iter) (hs_addr list_iter))
      (\<lambda>out'. clone_list out' hs)"

definition route_next_hop_clone :: "next_hop \<Rightarrow> next_hop outcome" where
  "route_next_hop_clone nh =
    (case nh_kind nh of
       kind_none \<Rightarrow> Ret zero_next_hop
     | kind_simple \<Rightarrow> route_next_hop_set_simple zero_next_hop (hs_ifindex (nh_simple nh)) (hs_if_name (nh_simple nh)) (hs_addr (nh_simple nh))
     | kind_special \<Rightarrow> Ret (route_next_hop_set_special zero_next_hop (nh_special nh))
     | kind_list \<Rightarrow> clone_list zero_next_hop (nh_list nh))"

definition route_next_hop_free :: "next_hop \<Rightarrow> next_hop" where
  "route_next_hop_free nh = route_next_hop_init
    (case nh_kind nh of
       kind_none \<Rightarrow> nh
     | kind_simple \<Rightarrow> nh\<lparr>nh_simple := (nh_simple nh)\<lparr>hs_if_name := None\<rparr>\<rparr>
     | kind_special \<Rightarrow> nh\<lparr>nh_special := None\<rparr>
     | kind_list \<Rightarrow> nh\<lparr>nh_list := []\<rparr>)"

section \<open>Routes\<close>

record route =
  rt_preference :: "32 word"
  rt_active :: bool
  rt_source_protocol :: "cstr option"
  rt_last_updated :: "cstr option"
  rt_description :: "cstr option"
  rt_next_hop :: next_hop

definition zero_route :: route where
  "zero_route = \<lparr> rt_preference = 0, rt_active = False, rt_source_protocol = None, rt_last_updated = None,
     rt_description = None, rt_next_hop = zero_next_hop \<rparr>"

definition route_init :: "route \<Rightarrow> route" where
  "route_init r = r\<lparr>rt_preference := 0, rt_active := False, rt_source_protocol := None, rt_last_updated := None,
     rt_description := None, rt_next_hop := route_next_hop_init (rt_next_hop r)\<rparr>"

definition route_set_preference :: "route \<Rightarrow> 32 word \<Rightarrow> route" where
  "route_set_preference r pref = r\<lparr>rt_preference := pref\<rparr>"

definition route_set_active :: "route \<Rightarrow> bool \<Rightarrow> route" where
  "route_set_active r active = r\<lparr>rt_active := active\<rparr>"

definition route_set_source_protocol :: "route \<Rightarrow> cstr option \<Rightarrow> route" where
  "route_set_source_protocol r proto = (case proto of Some s \<Rightarrow> r\<lparr>rt_source_protocol := Some s\<rparr> | None \<Rightarrow> r)"

text \<open>As the code has it: the date goes into the source protocol.\<close>

definition route_set_last_updated :: "route \<Rightarrow> cstr option \<Rightarrow> route" where
  "route_set_last_updated r last_up = (case last_up of Some s \<Rightarrow> r\<lparr>rt_source_protocol := Some s\<rparr> | None \<Rightarrow> r)"

definition route_set_description :: "route \<Rightarrow> cstr option \<Rightarrow> route" where
  "route_set_description r description = (case description of Some s \<Rightarrow> r\<lparr>rt_description := Some s\<rparr> | None \<Rightarrow> r)"

text \<open>\<^verbatim>\<open>out\<close> is not initialised, but every member is written before the clone is returned.\<close>

definition route_clone :: "route \<Rightarrow> route outcome" where
  "route_clone r =
    (let o0 = route_init zero_route;
         o1 = route_set_preference o0 (rt_preference r);
         o2 = route_set_active o1 (rt_active r);
         o3 = route_set_source_protocol o2 (rt_source_protocol r);
         o4 = route_set_last_updated o3 (rt_last_updated r);
         o5 = route_set_description o4 (rt_description r)
     in obind (route_next_hop_clone (rt_next_hop r)) (\<lambda>nh. Ret (o5\<lparr>rt_next_hop := nh\<rparr>)))"

definition route_free :: "route \<Rightarrow> route" where
  "route_free r = route_init (r\<lparr>rt_source_protocol := None, rt_last_updated := None, rt_description := None,
     rt_next_hop := route_next_hop_free (rt_next_hop r)\<rparr>)"

section \<open>Lists of routes, and routes by prefix\<close>

definition route_list_is_empty :: "route list \<Rightarrow> bool" where
  "route_list_is_empty head = (head = [])"

definition route_list_add :: "route list \<Rightarrow> route \<Rightarrow> route list outcome" where
  "route_list_add head r = obind (route_clone r) (\<lambda>n. Ret (n # head))"

definition route_list_free :: "route list \<Rightarrow> route list" where
  "route_list_free head = []"

record route_entry =
  re_prefix :: nl_addr
  re_routes :: "route list"

type_synonym route_hash = "route_entry list"

definition route_list_hash_init :: route_hash where
  "route_list_hash_init = []"

text \<open>The pointer to the list found: the entry of the prefix.\<close>

definition route_list_hash_get :: "route_hash \<Rightarrow> nl_addr \<Rightarrow> route_entry option" where
  "route_list_hash_get head addr = hash_find re_prefix addr head"

definition route_list_hash_add :: "route_hash \<Rightarrow> nl_addr \<Rightarrow> route \<Rightarrow> route_hash outcome" where
  "route_list_hash_add head addr r =
    (case route_list_hash_get head addr of
       Some e \<Rightarrow> obind (route_list_add (re_routes e) r)
         (\<lambda>rs. Ret (hash_update re_prefix addr (\<lambda>e. e\<lparr>re_routes := rs\<rparr>) head))
     | None \<Rightarrow> obind (route_list_add [] r) (\<lambda>rs. Ret (head @ [\<lparr> re_prefix = addr, re_routes = rs \<rparr>])))"

definition route_list_hash_free :: "route_hash \<Rightarrow> route_hash" where
  "route_list_hash_free head = []"

section \<open>Routing tables\<close>

text \<open>The two arrays of characters are the strings they hold.\<close>

record rib =
  rib_name :: cstr
  rib_description :: cstr
  rib_address_family :: int
  rib_default_rib :: int
  rib_routes_head :: route_hash

definition rib_init :: rib where
  "rib_init = \<lparr> rib_name = [], rib_description = [], rib_address_family = 0, rib_default_rib = 0,
     rib_routes_head = route_list_hash_init \<rparr>"

definition rib_set_address_family :: "rib \<Rightarrow> int \<Rightarrow> rib" where
  "rib_set_address_family r af = r\<lparr>rib_address_family := af\<rparr>"

text \<open>\<^verbatim>\<open>memcpy\<close> of the characters without the terminating zero: what was there behind them stays,
  and a string as long as the array ends somewhere behind it.\<close>

definition rib_set_description :: "rib \<Rightarrow> cstr \<Rightarrow> rib outcome" where
  "rib_set_description r desc =
    (if length desc < 256 then Ret (r\<lparr>rib_description := desc @ drop (length desc) (rib_description r)\<rparr>) else Undef)"

definition rib_set_default :: "rib \<Rightarrow> int \<Rightarrow> rib" where
  "rib_set_default r d = r\<lparr>rib_default_rib := d\<rparr>"

definition rib_set_name :: "rib \<Rightarrow> cstr \<Rightarrow> rib outcome" where
  "rib_set_name r buff =
    (if length buff < 32 then Ret (r\<lparr>rib_name := buff @ drop (length buff) (rib_name r)\<rparr>) else Undef)"

definition rib_free :: "rib \<Rightarrow> rib" where
  "rib_free r = r\<lparr>rib_routes_head := route_list_hash_free (rib_routes_head r)\<rparr>"

type_synonym rib_list = "rib list"

definition rib_key :: "rib \<Rightarrow> cstr \<times> int" where
  "rib_key r = (rib_name r, rib_address_family r)"

definition rib_list_get :: "rib_list \<Rightarrow> cstr \<Rightarrow> int \<Rightarrow> rib option outcome" where
  "rib_list_get head name af =
    obind (rib_set_name rib_init name) (\<lambda>f. Ret (hash_find rib_key (rib_key (rib_set_address_family f af)) head))"

definition rib_list_add :: "rib_list \<Rightarrow> cstr \<Rightarrow> int \<Rightarrow> rib_list outcome" where
  "rib_list_add head name af =
    obind (rib_list_get head name af) (\<lambda>found. case found of
       Some r \<Rightarrow> Ret head
     | None \<Rightarrow> obind (rib_set_name rib_init name) (\<lambda>r. Ret (head @ [rib_set_address_family r af])))"

text \<open>Writing through the pointer to the table that was found.\<close>

definition rib_update :: "rib \<Rightarrow> rib \<Rightarrow> rib_list \<Rightarrow> rib_list" where
  "rib_update old new head = hash_update rib_key (rib_key old) (\<lambda>_. new) head"

definition rib_list_set_description :: "rib_list \<Rightarrow> cstr \<Rightarrow> int \<Rightarrow> cstr \<Rightarrow> (int \<times> rib_list) outcome" where
  "rib_list_set_description head name af desc =
    obind (rib_list_get head name af) (\<lambda>found. case found of
       Some r \<Rightarrow> obind (rib_set_description r desc) (\<lambda>r'. Ret (0, rib_update r r' head))
     | None \<Rightarrow> Ret (-1, head))"

definition rib_list_set_default :: "rib_list \<Rightarrow> cstr \<Rightarrow> int \<Rightarrow> int \<Rightarrow> (int \<times> rib_list) outcome" where
  "rib_list_set_default head name af d =
    obind (rib_list_get head name af) (\<lambda>found. case found of
       Some r \<Rightarrow> Ret (0, rib_update r (rib_set_default r d) head)
     | None \<Rightarrow> Ret (-1, head))"

definition rib_list_free :: "rib_list \<Rightarrow> rib_list" where
  "rib_list_free head = []"

section \<open>Control plane protocols\<close>

record control_plane_protocol =
  cp_type :: "cstr option"
  cp_description :: "cstr option"
  cp_name :: cstr
  cp_initialized :: int

definition control_plane_protocol_init :: "control_plane_protocol \<Rightarrow> control_plane_protocol" where
  "control_plane_protocol_init c = c\<lparr>cp_type := None, cp_description := None, cp_name := [], cp_initialized := 0\<rparr>"

definition control_plane_protocol_free :: "control_plane_protocol \<Rightarrow> control_plane_protocol" where
  "control_plane_protocol_free c = control_plane_protocol_init (c\<lparr>cp_type := None, cp_description := None\<rparr>)"

section \<open>Lemmas: copies\<close>

text \<open>What a copy of a next hop and of a route holds; a copy is defined when the names that
  \<^verbatim>\<open>xstrdup\<close> reads are there.\<close>

definition next_hop_names :: "next_hop \<Rightarrow> bool" where
  "next_hop_names nh = (case nh_kind nh of
       kind_simple \<Rightarrow> hs_if_name (nh_simple nh) \<noteq> None
     | kind_list \<Rightarrow> (\<forall>h\<in>set (nh_list nh). hs_if_name h \<noteq> None)
     | _ \<Rightarrow> True)"

definition next_hop_copy :: "next_hop \<Rightarrow> next_hop" where
  "next_hop_copy nh = (case nh_kind nh of
       kind_none \<Rightarrow> zero_next_hop
     | kind_simple \<Rightarrow> zero_next_hop\<lparr>nh_kind := kind_simple, nh_simple := nh_simple nh\<rparr>
     | kind_special \<Rightarrow> zero_next_hop\<lparr>nh_kind := kind_special, nh_special := nh_special nh\<rparr>
     | kind_list \<Rightarrow> if nh_list nh = [] then zero_next_hop
         else zero_next_hop\<lparr>nh_kind := kind_list, nh_list := nh_list nh\<rparr>)"

definition route_copy :: "route \<Rightarrow> route" where
  "route_copy r = r\<lparr>rt_source_protocol := (if rt_last_updated r = None then rt_source_protocol r else rt_last_updated r),
     rt_last_updated := None, rt_next_hop := next_hop_copy (rt_next_hop r)\<rparr>"

lemma simple_eta: "\<lparr> hs_addr = hs_addr h, hs_ifindex = hs_ifindex h, hs_if_name = hs_if_name h \<rparr> = h"
  by (cases h) simp

lemma clone_list_ok:
  "nh_kind out = kind_list \<Longrightarrow> \<forall>h\<in>set hs. hs_if_name h \<noteq> None \<Longrightarrow>
    clone_list out hs = Ret (out\<lparr>nh_list := nh_list out @ hs\<rparr>)"
proof (induction hs arbitrary: out)
  case (Cons h hs)
  have "route_next_hop_add_list out (hs_ifindex h) (hs_if_name h) (hs_addr h) = Ret (out\<lparr>nh_list := nh_list out @ [h]\<rparr>)"
    using Cons.prems simple_eta [of h] by (auto simp: route_next_hop_add_list_def)
  then show ?case using Cons by simp
qed simp

lemma clone_list_undef: "\<exists>h\<in>set hs. hs_if_name h = None \<Longrightarrow> clone_list out hs = Undef"
proof (induction hs arbitrary: out)
  case (Cons h hs)
  show ?case
  proof (cases "hs_if_name h")
    case None
    then show ?thesis by (simp add: route_next_hop_add_list_def Let_def)
  next
    case (Some s)
    then have "clone_list out' hs = Undef" for out' using Cons by auto
    then show ?thesis using Some by (auto simp: route_next_hop_add_list_def Let_def)
  qed
qed simp

lemma next_hop_clone_eq:
  "route_next_hop_clone nh = (if next_hop_names nh then Ret (next_hop_copy nh) else Undef)"
proof (cases "nh_kind nh")
  case kind_list
  show ?thesis
  proof (cases "nh_list nh")
    case Nil
    then show ?thesis
      using kind_list by (simp add: route_next_hop_clone_def next_hop_names_def next_hop_copy_def)
  next
    case (Cons h hs)
    show ?thesis
    proof (cases "\<forall>h\<in>set (nh_list nh). hs_if_name h \<noteq> None")
      case True
      then obtain s where s: "hs_if_name h = Some s" using Cons by auto
      then have h: "\<lparr> hs_addr = hs_addr h, hs_ifindex = hs_ifindex h, hs_if_name = Some s \<rparr> = h"
        using simple_eta [of h] by simp
      have "clone_list (zero_next_hop\<lparr>nh_kind := kind_list,
            nh_list := [\<lparr> hs_addr = hs_addr h, hs_ifindex = hs_ifindex h, hs_if_name = Some s \<rparr>]\<rparr>) hs
          = Ret (zero_next_hop\<lparr>nh_kind := kind_list, nh_list := h # hs\<rparr>)"
        unfolding h using True Cons by (simp add: clone_list_ok)
      then show ?thesis
        using True Cons kind_list s
        by (simp add: route_next_hop_clone_def next_hop_names_def next_hop_copy_def route_next_hop_add_list_def)
          (simp add: zero_next_hop_def)
    next
      case False
      then show ?thesis
        using kind_list clone_list_undef [of "nh_list nh"] by (auto simp: route_next_hop_clone_def next_hop_names_def)
    qed
  qed
qed (auto simp: route_next_hop_clone_def next_hop_names_def next_hop_copy_def route_next_hop_set_simple_def
    route_next_hop_set_simple_interface_def route_next_hop_set_simple_gateway_def route_next_hop_set_special_def
    zero_next_hop_def zero_simple_def simple_eta Let_def split: option.splits)

lemma route_clone_eq:
  "route_clone r = (if next_hop_names (rt_next_hop r) then Ret (route_copy r) else Undef)"
  by (cases r) (auto simp: route_clone_def route_copy_def next_hop_clone_eq Let_def route_init_def zero_route_def
      route_set_preference_def route_set_active_def route_set_source_protocol_def route_set_last_updated_def
      route_set_description_def split: option.splits)

lemma zero_route_copy [simp]: "route_copy zero_route = zero_route" "next_hop_names (rt_next_hop zero_route)"
  by (simp_all add: route_copy_def next_hop_copy_def next_hop_names_def zero_route_def zero_next_hop_def)

section \<open>Lemmas: tables\<close>

lemma hash_update_cong:
  "(\<And>e. e \<in> set t \<Longrightarrow> key e = k \<Longrightarrow> f e = g e) \<Longrightarrow> hash_update key k f t = hash_update key k g t"
  by (simp add: hash_update_def)

lemma hash_update_same: "(\<And>e. e \<in> set t \<Longrightarrow> key e = k \<Longrightarrow> f e = e) \<Longrightarrow> hash_update key k f t = t"
  unfolding hash_update_def by (rule map_idI) auto

lemma hash_find_present:
  assumes "k \<in> key ` set t"
  shows "\<exists>e. hash_find key k t = Some e \<and> e \<in> set t \<and> key e = k"
proof -
  have "hash_find key k t \<noteq> None" using assms hash_find_None_iff [of key k t] by blast
  then obtain e where "hash_find key k t = Some e" by blast
  with hash_find_SomeD [OF this] show ?thesis by blast
qed

lemma hash_find_only: "distinct (map key t) \<Longrightarrow> e \<in> set t \<Longrightarrow> e' \<in> set t \<Longrightarrow> key e = key e' \<Longrightarrow> e = e'"
  by (auto simp: distinct_map dest: inj_onD)

lemma route_hash_add_old:
  assumes "next_hop_names (rt_next_hop r)" "addr \<in> re_prefix ` set t" "distinct (map re_prefix t)"
  shows "route_list_hash_add t addr r = Ret (hash_update re_prefix addr (\<lambda>e. e\<lparr>re_routes := route_copy r # re_routes e\<rparr>) t)"
proof -
  obtain e where e: "hash_find re_prefix addr t = Some e" "e \<in> set t" "re_prefix e = addr"
    using hash_find_present [OF assms(2)] by blast
  have "e' = e" if "e' \<in> set t" "re_prefix e' = addr" for e'
    using hash_find_only [OF assms(3) that(1) e(2)] that e by simp
  then have "hash_update re_prefix addr (\<lambda>e'. e'\<lparr>re_routes := route_copy r # re_routes e\<rparr>) t
      = hash_update re_prefix addr (\<lambda>e. e\<lparr>re_routes := route_copy r # re_routes e\<rparr>) t"
    by (intro hash_update_cong) auto
  then show ?thesis
    using assms(1) e by (simp add: route_list_hash_add_def route_list_hash_get_def route_list_add_def route_clone_eq)
qed

interpretation rh: put_table re_prefix "\<lambda>t k. Ret (route_list_hash_get t k)" "\<lambda>k r t. route_list_hash_add t k r"
  "\<lambda>k r. next_hop_names (rt_next_hop r)" "\<lambda>k r. \<lparr> re_prefix = k, re_routes = [route_copy r] \<rparr>"
  "\<lambda>r e. e\<lparr>re_routes := route_copy r # re_routes e\<rparr>"
proof unfold_locales
  fix k and r :: route and t :: route_hash
  assume "next_hop_names (rt_next_hop r)" "k \<notin> re_prefix ` set t"
  then show "route_list_hash_add t k r = Ret (t @ [\<lparr> re_prefix = k, re_routes = [route_copy r] \<rparr>])"
    using hash_find_None_iff [of re_prefix k t]
    by (simp add: route_list_hash_add_def route_list_hash_get_def route_list_add_def route_clone_eq)
qed (simp_all add: route_list_hash_get_def route_hash_add_old)

definition fresh_rib :: "cstr \<times> int \<Rightarrow> rib" where
  "fresh_rib k = rib_init\<lparr>rib_name := fst k, rib_address_family := snd k\<rparr>"

lemma fresh_rib_key [simp]: "rib_key (fresh_rib k) = k"
  by (simp add: fresh_rib_def rib_key_def)

lemma rib_list_get_eq:
  "rib_list_get t n af = (if length n < 32 then Ret (hash_find rib_key (n, af) t) else Undef)"
  by (simp add: rib_list_get_def rib_set_name_def rib_init_def rib_set_address_family_def rib_key_def)

lemma rib_list_add_eq:
  "rib_list_add t n af = (if length n < 32
     then Ret (if (n, af) \<in> rib_key ` set t then t else t @ [fresh_rib (n, af)]) else Undef)"
  using hash_find_None_iff [of rib_key "(n, af)" t]
  by (auto simp: rib_list_add_def rib_list_get_eq fresh_rib_def rib_set_name_def rib_init_def
      rib_set_address_family_def split: option.splits)

interpretation rl: put_table rib_key "\<lambda>t k. rib_list_get t (fst k) (snd k)" "\<lambda>k x t. rib_list_add t (fst k) (snd k)"
  "\<lambda>k x. length (fst k) < 32" "\<lambda>k x. fresh_rib k" "\<lambda>x e. e"
  by unfold_locales (simp_all add: rib_list_get_eq rib_list_add_eq hash_update_same)

end
