(* ===== verification/RtCommon.thy ===== *)
theory RtCommon
  imports RtData
begin

text \<open>
  The first half of \<^verbatim>\<open>routing/common.c\<close>: the routing tables and the routes of the system are
  collected from the route cache of libnl.
\<close>

section \<open>What libnl answers\<close>

record nl_nexthop =
  nn_ifindex :: int
  nn_gateway :: "nl_addr option"

record nl_route =
  nr_table :: int
  nr_type :: int
  nr_family :: int
  nr_priority :: "32 word"
  nr_protocol :: int
  nr_dst :: nl_addr
  nr_nexthops :: "nl_nexthop list"

text \<open>The name of a link is \<^verbatim>\<open>None\<close> when there is no such link: its name is then read through
  \<^verbatim>\<open>NULL\<close>.  Each call of \<^verbatim>\<open>foreach_nexthop\<close> has a socket and a link cache of its own.\<close>

record hop_env =
  he_socket :: bool
  he_connect :: int
  he_alloc_cache :: int
  he_link_name :: "int \<Rightarrow> cstr option"

record rib_env =
  rv_table2str :: "int \<Rightarrow> cstr"
  rv_str2table :: "cstr \<Rightarrow> int"
  rv_link_name :: "int \<Rightarrow> cstr option"
  rv_hop :: "nl_nexthop \<Rightarrow> hop_env"

abbreviation RTN_LOCAL :: int where "RTN_LOCAL \<equiv> 2"
abbreviation RTN_BLACKHOLE :: int where "RTN_BLACKHOLE \<equiv> 6"
abbreviation RTN_UNREACHABLE :: int where "RTN_UNREACHABLE \<equiv> 7"
abbreviation RTN_PROHIBIT :: int where "RTN_PROHIBIT \<equiv> 8"
abbreviation RTPROT_STATIC :: int where "RTPROT_STATIC \<equiv> 4"
abbreviation RT_TABLE_DEFAULT :: int where "RT_TABLE_DEFAULT \<equiv> 253"
abbreviation RT_TABLE_MAIN :: int where "RT_TABLE_MAIN \<equiv> 254"
abbreviation RT_TABLE_LOCAL :: int where "RT_TABLE_LOCAL \<equiv> 255"

section \<open>Routing tables\<close>

definition routing_is_rib_known :: "int \<Rightarrow> bool" where
  "routing_is_rib_known table = (table = RT_TABLE_DEFAULT \<or> table = RT_TABLE_LOCAL \<or> table = RT_TABLE_MAIN)"

definition family_name :: "int \<Rightarrow> cstr" where
  "family_name af = (if af = AF_INET4 then ''ipv4'' else ''ipv6'')"

definition default_descriptions :: "(cstr \<times> cstr) list" where
  "default_descriptions = [
    (''ipv4-main'', ''main routing table - normal routing table containing all non-policy routes (ipv4 only)''),
    (''ipv6-main'', ''main routing table - normal routing table containing all non-policy routes (ipv6 only)''),
    (''ipv4-default'', ''default routing table - empty and reserved for post-processing if previous default rules did not select the packet (ipv4 only)''),
    (''ipv6-default'', ''default routing table - empty and reserved for post-processing if previous default rules did not select the packet (ipv6 only)''),
    (''ipv4-local'', ''local routing table - maintained by the kernel, containing high priority control routes for local and broadcast addresses (ipv4 only)''),
    (''ipv6-local'', ''local routing table - maintained by the kernel, containing high priority control routes for local and broadcast addresses (ipv6 only)'')]"

text \<open>\<^verbatim>\<open>strncmp\<close> with the length of \<^verbatim>\<open>name_buffer\<close>: the names are compared up to there.\<close>

definition rib_description_name :: "rib_env \<Rightarrow> rib \<Rightarrow> cstr" where
  "rib_description_name E r = cbuf 37
    (if routing_is_rib_known (rv_str2table E (rib_name r)) then family_name (rib_address_family r) @ ''-'' @ rib_name r
     else rib_name r)"

definition describe_rib :: "rib_env \<Rightarrow> rib \<Rightarrow> rib" where
  "describe_rib E r =
    (case List.find (\<lambda>pair. take (length (rib_description_name E r)) (fst pair) = rib_description_name E r) default_descriptions of
       Some pair \<Rightarrow> r\<lparr>rib_description := snd pair\<rparr>
     | None \<Rightarrow> r)"

definition routing_build_rib_descriptions :: "rib_env \<Rightarrow> rib_list \<Rightarrow> int \<times> rib_list" where
  "routing_build_rib_descriptions E ribs = (0, map (describe_rib E) ribs)"

definition table_buffer :: "rib_env \<Rightarrow> nl_route \<Rightarrow> cstr" where
  "table_buffer E r = cbuf 32 (rv_table2str E (nr_table r))"

fun collect_ribs_loop :: "rib_env \<Rightarrow> nl_route list \<Rightarrow> rib_list \<Rightarrow> rib_list outcome" where
  "collect_ribs_loop E [] ribs = Ret ribs"
| "collect_ribs_loop E (r # rs) ribs =
    (let name = table_buffer E r; af = nr_family r
     in obind (rib_list_add ribs name af) (\<lambda>ribs1.
        obind (if take 4 name = ''main'' then rib_list_set_default ribs1 name af 1 else Ret (0, ribs1))
          (\<lambda>(rc, ribs2). collect_ribs_loop E rs ribs2)))"

definition routing_collect_ribs :: "rib_env \<Rightarrow> nl_route list \<Rightarrow> rib_list \<Rightarrow> (int \<times> rib_list) outcome" where
  "routing_collect_ribs E routes_cache ribs_head =
    obind (collect_ribs_loop E routes_cache ribs_head) (\<lambda>ribs. Ret (routing_build_rib_descriptions E ribs))"

section \<open>Routes\<close>

definition foreach_nexthop :: "hop_env \<Rightarrow> nl_nexthop \<Rightarrow> next_hop \<Rightarrow> next_hop outcome" where
  "foreach_nexthop H nh nexthop =
    (if \<not> he_socket H then Ret nexthop
     else if he_connect H \<noteq> 0 then Ret nexthop
     else if he_alloc_cache H \<noteq> 0 then Ret nexthop
     else case he_link_name H (nn_ifindex nh) of
       None \<Rightarrow> Undef
     | Some if_name \<Rightarrow> route_next_hop_add_list nexthop (nn_ifindex nh) (Some if_name) (nn_gateway nh))"

fun foreach_nexthops :: "rib_env \<Rightarrow> nl_nexthop list \<Rightarrow> next_hop \<Rightarrow> next_hop outcome" where
  "foreach_nexthops E [] nexthop = Ret nexthop"
| "foreach_nexthops E (nh # nhs) nexthop = obind (foreach_nexthop (rv_hop E nh) nh nexthop) (foreach_nexthops E nhs)"

definition collect_next_hops :: "rib_env \<Rightarrow> nl_route \<Rightarrow> next_hop \<Rightarrow> next_hop outcome" where
  "collect_next_hops E r nexthop =
    (case nr_nexthops r of
       [nh] \<Rightarrow> (case rv_link_name E (nn_ifindex nh) of
           None \<Rightarrow> Undef
         | Some if_name \<Rightarrow> route_next_hop_set_simple nexthop (nn_ifindex nh) (Some if_name) (nn_gateway nh))
     | nhs \<Rightarrow> foreach_nexthops E nhs nexthop)"

definition collect_next_hop :: "rib_env \<Rightarrow> nl_route \<Rightarrow> next_hop \<Rightarrow> next_hop outcome" where
  "collect_next_hop E r nexthop =
    (if nr_type r = RTN_BLACKHOLE then Ret (route_next_hop_set_special nexthop (Some ''blackhole''))
     else if nr_type r = RTN_UNREACHABLE then Ret (route_next_hop_set_special nexthop (Some ''unreachable''))
     else if nr_type r = RTN_PROHIBIT then Ret (route_next_hop_set_special nexthop (Some ''prohibit''))
     else if nr_type r = RTN_LOCAL then Ret (route_next_hop_set_special nexthop (Some ''local''))
     else collect_next_hops E r nexthop)"

definition protocol_name :: "int \<Rightarrow> cstr" where
  "protocol_name p = (if p = RTPROT_STATIC then ''ietf-routing:static'' else ''ietf-routing:direct'')"

text \<open>\<^verbatim>\<open>tmp_route\<close> is reused from route to route.\<close>

fun collect_routes_loop :: "rib_env \<Rightarrow> nl_route list \<Rightarrow> route \<Rightarrow> rib_list \<Rightarrow> (int \<times> rib_list) outcome" where
  "collect_routes_loop E [] tmp_route ribs = Ret (0, ribs)"
| "collect_routes_loop E (r # rs) tmp_route ribs =
    obind (rib_list_get ribs (table_buffer E r) (nr_family r)) (\<lambda>tmp_rib. case tmp_rib of
       None \<Rightarrow> Ret (-1, ribs)
     | Some rib \<Rightarrow>
         let t1 = route_set_preference (route_init tmp_route) (nr_priority r)
         in obind (collect_next_hop E r (rt_next_hop t1)) (\<lambda>nh.
           let t2 = route_set_source_protocol (t1\<lparr>rt_next_hop := nh\<rparr>) (Some (protocol_name (nr_protocol r)))
           in obind (route_list_hash_add (rib_routes_head rib) (nr_dst r) t2) (\<lambda>h.
              collect_routes_loop E rs (route_free t2) (rib_update rib (rib\<lparr>rib_routes_head := h\<rparr>) ribs))))"

text \<open>The route with the smallest preference, the first of them in the list.\<close>

fun preferred_from :: "nat \<Rightarrow> 32 word \<Rightarrow> nat \<Rightarrow> route list \<Rightarrow> nat" where
  "preferred_from i pref j [] = i"
| "preferred_from i pref j (r # rs) =
    (if rt_preference r < pref then preferred_from j (rt_preference r) (Suc j) rs
     else preferred_from i pref (Suc j) rs)"

definition mark_active :: "route list \<Rightarrow> route list" where
  "mark_active rs = (case rs of
       [] \<Rightarrow> []
     | r # _ \<Rightarrow> let i = preferred_from 0 (rt_preference r) 0 rs in rs[i := (rs ! i)\<lparr>rt_active := True\<rparr>])"

definition mark_ribs :: "rib_list \<Rightarrow> rib_list" where
  "mark_ribs ribs = map (\<lambda>r. r\<lparr>rib_routes_head := map (\<lambda>e. e\<lparr>re_routes := mark_active (re_routes e)\<rparr>) (rib_routes_head r)\<rparr>) ribs"

definition routing_collect_routes :: "rib_env \<Rightarrow> nl_route list \<Rightarrow> rib_list \<Rightarrow> (int \<times> rib_list) outcome" where
  "routing_collect_routes E routes_cache ribs_head =
    obind (routing_collect_ribs E routes_cache ribs_head) (\<lambda>(e1, ribs1).
     if e1 \<noteq> 0 then Ret (e1, ribs1) else
     obind (collect_routes_loop E routes_cache zero_route ribs1) (\<lambda>(e2, ribs2).
     if e2 \<noteq> 0 then Ret (e2, ribs2) else Ret (0, mark_ribs ribs2)))"

section \<open>Lemmas: the preferred route\<close>

lemma preferred_from_spec:
  assumes "i < length done" "pref = rt_preference (done ! i)" "\<forall>k<length done. pref \<le> rt_preference (done ! k)"
    "\<forall>k<i. pref < rt_preference (done ! k)"
  shows "let n = preferred_from i pref (length done) rs; all = done @ rs in n < length all
    \<and> (\<forall>k<length all. rt_preference (all ! n) \<le> rt_preference (all ! k))
    \<and> (\<forall>k<n. rt_preference (all ! n) < rt_preference (all ! k))"
  using assms
proof (induction rs arbitrary: i pref "done")
  case Nil
  then show ?case by (simp add: Let_def)
next
  case (Cons r rs)
  show ?case
  proof (cases "rt_preference r < pref")
    case True
    have "\<forall>k<length (done @ [r]). rt_preference r \<le> rt_preference ((done @ [r]) ! k)"
      using Cons.prems True by (auto simp: nth_append less_Suc_eq intro: order.trans [OF order.strict_implies_order])
    moreover have "\<forall>k<length done. rt_preference r < rt_preference ((done @ [r]) ! k)"
      using Cons.prems True by (auto simp: nth_append intro: less_le_trans)
    ultimately show ?thesis
      using Cons.IH [of "length done" "done @ [r]" "rt_preference r"] True by (simp add: Let_def)
  next
    case False
    have "\<forall>k<length (done @ [r]). pref \<le> rt_preference ((done @ [r]) ! k)"
      using Cons.prems False by (auto simp: nth_append less_Suc_eq)
    moreover have "\<forall>k<i. pref < rt_preference ((done @ [r]) ! k)"
      using Cons.prems by (auto simp: nth_append)
    ultimately show ?thesis
      using Cons.IH [of i "done @ [r]" pref] Cons.prems(1,2) False by (simp add: Let_def nth_append)
  qed
qed

lemma mark_active_spec:
  assumes "rs \<noteq> []"
  shows "\<exists>n<length rs. mark_active rs = rs[n := (rs ! n)\<lparr>rt_active := True\<rparr>]
    \<and> (\<forall>k<length rs. rt_preference (rs ! n) \<le> rt_preference (rs ! k))
    \<and> (\<forall>k<n. rt_preference (rs ! n) < rt_preference (rs ! k))"
proof -
  obtain r rs' where rs: "rs = r # rs'" using assms by (cases rs) auto
  have "preferred_from 0 (rt_preference r) 0 rs = preferred_from 0 (rt_preference r) (length [r]) rs'"
    by (simp add: rs)
  then show ?thesis
    using preferred_from_spec [of 0 "[r]" "rt_preference r" rs'] by (auto simp: mark_active_def rs Let_def)
qed

section \<open>Lemmas: one route\<close>

text \<open>The route that is collected for a route of the system, and when its links can be read.\<close>

definition hop_read :: "rib_env \<Rightarrow> nl_nexthop \<Rightarrow> bool" where
  "hop_read E nh = (he_socket (rv_hop E nh) \<and> he_connect (rv_hop E nh) = 0 \<and> he_alloc_cache (rv_hop E nh) = 0)"

definition hop_of :: "cstr option \<Rightarrow> nl_nexthop \<Rightarrow> next_hop_simple" where
  "hop_of name nh = \<lparr> hs_addr = nn_gateway nh, hs_ifindex = nn_ifindex nh, hs_if_name = name \<rparr>"

definition hops_of :: "rib_env \<Rightarrow> nl_nexthop list \<Rightarrow> next_hop_simple list" where
  "hops_of E nhs = map (\<lambda>nh. hop_of (he_link_name (rv_hop E nh) (nn_ifindex nh)) nh) (filter (hop_read E) nhs)"

definition special_name :: "int \<Rightarrow> cstr option" where
  "special_name t = (if t = RTN_BLACKHOLE then Some ''blackhole'' else if t = RTN_UNREACHABLE then Some ''unreachable''
     else if t = RTN_PROHIBIT then Some ''prohibit'' else if t = RTN_LOCAL then Some ''local'' else None)"

definition next_hop_of :: "rib_env \<Rightarrow> nl_route \<Rightarrow> next_hop" where
  "next_hop_of E r = (case special_name (nr_type r) of
      Some s \<Rightarrow> zero_next_hop\<lparr>nh_kind := kind_special, nh_special := Some s\<rparr>
    | None \<Rightarrow> (case nr_nexthops r of
        [nh] \<Rightarrow> zero_next_hop\<lparr>nh_kind := kind_simple, nh_simple := hop_of (rv_link_name E (nn_ifindex nh)) nh\<rparr>
      | nhs \<Rightarrow> if hops_of E nhs = [] then zero_next_hop
               else zero_next_hop\<lparr>nh_kind := kind_list, nh_list := hops_of E nhs\<rparr>))"

definition route_of :: "rib_env \<Rightarrow> nl_route \<Rightarrow> route" where
  "route_of E r = zero_route\<lparr>rt_preference := nr_priority r, rt_source_protocol := Some (protocol_name (nr_protocol r)),
     rt_next_hop := next_hop_of E r\<rparr>"

definition links_known :: "rib_env \<Rightarrow> nl_route \<Rightarrow> bool" where
  "links_known E r = (special_name (nr_type r) = None \<longrightarrow> (case nr_nexthops r of
      [nh] \<Rightarrow> rv_link_name E (nn_ifindex nh) \<noteq> None
    | nhs \<Rightarrow> \<forall>nh\<in>set nhs. hop_read E nh \<longrightarrow> he_link_name (rv_hop E nh) (nn_ifindex nh) \<noteq> None))"

lemma foreach_nexthops_list:
  "nh_kind hop = kind_list \<Longrightarrow>
    \<forall>nh\<in>set nhs. hop_read E nh \<longrightarrow> he_link_name (rv_hop E nh) (nn_ifindex nh) \<noteq> None \<Longrightarrow>
    foreach_nexthops E nhs hop = Ret (hop\<lparr>nh_list := nh_list hop @ hops_of E nhs\<rparr>)"
  by (induction nhs arbitrary: hop)
    (auto simp: foreach_nexthop_def hop_read_def hops_of_def hop_of_def route_next_hop_add_list_def)

lemma foreach_nexthops_none:
  "nh_kind hop = kind_none \<Longrightarrow>
    \<forall>nh\<in>set nhs. hop_read E nh \<longrightarrow> he_link_name (rv_hop E nh) (nn_ifindex nh) \<noteq> None \<Longrightarrow>
    foreach_nexthops E nhs hop = Ret (if hops_of E nhs = [] then hop else hop\<lparr>nh_kind := kind_list, nh_list := hops_of E nhs\<rparr>)"
proof (induction nhs)
  case (Cons nh nhs)
  show ?case
  proof (cases "hop_read E nh")
    case True
    then obtain name where name: "he_link_name (rv_hop E nh) (nn_ifindex nh) = Some name" using Cons.prems by auto
    have "foreach_nexthops E (nh # nhs) hop
        = foreach_nexthops E nhs (hop\<lparr>nh_kind := kind_list, nh_list := [hop_of (Some name) nh]\<rparr>)"
      using True name Cons.prems(1)
      by (simp add: foreach_nexthop_def hop_read_def route_next_hop_add_list_def hop_of_def)
    then show ?thesis
      using foreach_nexthops_list [of "hop\<lparr>nh_kind := kind_list, nh_list := [hop_of (Some name) nh]\<rparr>" nhs E]
        True name Cons.prems by (simp add: hops_of_def)
  next
    case False
    then have "foreach_nexthops E (nh # nhs) hop = foreach_nexthops E nhs hop"
      by (auto simp: foreach_nexthop_def hop_read_def)
    then show ?thesis using False Cons by (simp add: hops_of_def)
  qed
qed (simp add: hops_of_def)

lemma hops_named:
  "\<forall>nh\<in>set nhs. hop_read E nh \<longrightarrow> he_link_name (rv_hop E nh) (nn_ifindex nh) \<noteq> None \<Longrightarrow>
    h \<in> set (hops_of E nhs) \<Longrightarrow> hs_if_name h \<noteq> None"
  by (auto simp: hops_of_def hop_of_def)

lemma next_hops_several:
  assumes "\<forall>nh\<in>set nhs. hop_read E nh \<longrightarrow> he_link_name (rv_hop E nh) (nn_ifindex nh) \<noteq> None" "nh_kind hop = kind_none"
  shows "\<exists>h. foreach_nexthops E nhs hop = Ret h \<and> next_hop_names h
    \<and> next_hop_copy h = (if hops_of E nhs = [] then zero_next_hop else zero_next_hop\<lparr>nh_kind := kind_list, nh_list := hops_of E nhs\<rparr>)"
  using foreach_nexthops_none [OF assms(2,1)] hops_named [OF assms(1)] assms(2)
  by (auto simp: next_hop_names_def next_hop_copy_def)

lemma collect_next_hop_ok:
  assumes "links_known E r" "nh_kind hop = kind_none"
  shows "\<exists>h. collect_next_hop E r hop = Ret h \<and> next_hop_names h \<and> next_hop_copy h = next_hop_of E r"
proof (cases "special_name (nr_type r)")
  case (Some s)
  then show ?thesis
    by (auto simp: collect_next_hop_def special_name_def next_hop_of_def route_next_hop_set_special_def Let_def
        next_hop_names_def next_hop_copy_def split: if_splits)
next
  case None
  then have n: "collect_next_hop E r hop = collect_next_hops E r hop"
    by (auto simp: collect_next_hop_def special_name_def split: if_splits)
  consider (one) nh where "nr_nexthops r = [nh]" | (other) "\<nexists>nh. nr_nexthops r = [nh]" by blast
  then show ?thesis
  proof cases
    case one
    then show ?thesis
      using assms(1) None n
      by (auto simp: links_known_def collect_next_hops_def next_hop_of_def hop_of_def next_hop_names_def next_hop_copy_def
          route_next_hop_set_simple_def route_next_hop_set_simple_gateway_def route_next_hop_set_simple_interface_def)
  next
    case other
    then have c: "collect_next_hops E r hop = foreach_nexthops E (nr_nexthops r) hop"
      and k: "\<forall>nh\<in>set (nr_nexthops r). hop_read E nh \<longrightarrow> he_link_name (rv_hop E nh) (nn_ifindex nh) \<noteq> None"
      and o: "next_hop_of E r = (if hops_of E (nr_nexthops r) = [] then zero_next_hop
        else zero_next_hop\<lparr>nh_kind := kind_list, nh_list := hops_of E (nr_nexthops r)\<rparr>)"
      using assms(1) None by (auto simp: collect_next_hops_def links_known_def next_hop_of_def split: list.splits)
    show ?thesis using next_hops_several [OF k assms(2)] n c o by simp
  qed
qed

section \<open>Lemmas: all routes\<close>

definition rib_of :: "rib_env \<Rightarrow> nl_route \<Rightarrow> cstr \<times> int" where
  "rib_of E r = (table_buffer E r, nr_family r)"

text \<open>The routes of a table with a prefix, newest first.\<close>

definition routes_for :: "rib_env \<Rightarrow> nl_route list \<Rightarrow> cstr \<times> int \<Rightarrow> nl_addr \<Rightarrow> route list" where
  "routes_for E rs k p = rev (map (route_of E) (filter (\<lambda>r. rib_of E r = k \<and> nr_dst r = p) rs))"

definition routes_at :: "route_hash \<Rightarrow> nl_addr \<Rightarrow> route list" where
  "routes_at h p = (case hash_find re_prefix p h of None \<Rightarrow> [] | Some e \<Rightarrow> re_routes e)"

definition holds_routes :: "rib_env \<Rightarrow> nl_route list \<Rightarrow> rib \<Rightarrow> bool" where
  "holds_routes E rs b = (distinct (map re_prefix (rib_routes_head b))
     \<and> (\<forall>e\<in>set (rib_routes_head b). re_routes e \<noteq> [])
     \<and> (\<forall>p. routes_at (rib_routes_head b) p = routes_for E rs (rib_key b) p))"

definition without_routes :: "rib \<Rightarrow> rib" where
  "without_routes b = b\<lparr>rib_routes_head := []\<rparr>"

lemma table_buffer_short [simp]: "length (table_buffer E r) < 32"
  by (simp add: table_buffer_def cbuf_def)

lemma routes_at_put:
  assumes "next_hop_names (rt_next_hop r)" "distinct (map re_prefix h)" "\<forall>e\<in>set h. re_routes e \<noteq> []"
  shows "\<exists>h'. route_list_hash_add h p r = Ret h' \<and> distinct (map re_prefix h') \<and> (\<forall>e\<in>set h'. re_routes e \<noteq> [])
    \<and> (\<forall>q. routes_at h' q = (if q = p then route_copy r # routes_at h p else routes_at h q))"
proof (intro exI conjI)
  let ?h = "rh.put_pure p r h"
  show "route_list_hash_add h p r = Ret ?h" using rh.put_Ret [OF assms(1,2)] .
  show "distinct (map re_prefix ?h)" using rh.distinct_put [OF assms(1,2)] .
  show "\<forall>e\<in>set ?h. re_routes e \<noteq> []" using assms(3) by (auto simp: rh.put_pure_def hash_update_def)
  show "\<forall>q. routes_at ?h q = (if q = p then route_copy r # routes_at h p else routes_at h q)"
    using rh.find_put [OF assms(1)] by (auto simp: routes_at_def rh.entry_def split: option.splits)
qed

lemma rib_update_routes:
  assumes "distinct (map rib_key ribs)" "b \<in> set ribs"
  shows "map without_routes (rib_update b (b\<lparr>rib_routes_head := h\<rparr>) ribs) = map without_routes ribs"
    and "c \<in> set (rib_update b (b\<lparr>rib_routes_head := h\<rparr>) ribs) \<Longrightarrow>
      c = b\<lparr>rib_routes_head := h\<rparr> \<or> (c \<in> set ribs \<and> rib_key c \<noteq> rib_key b)"
proof -
  have "c = b" if "c \<in> set ribs" "rib_key c = rib_key b" for c
    using hash_find_only [OF assms(1) that(1) assms(2) that(2)] .
  then show "map without_routes (rib_update b (b\<lparr>rib_routes_head := h\<rparr>) ribs) = map without_routes ribs"
    by (auto simp: rib_update_def hash_update_def without_routes_def)
qed (auto simp: rib_update_def hash_update_def split: if_splits)

lemma without_routes_key: "rib_key (without_routes b) = rib_key b"
  by (simp add: without_routes_def rib_key_def)

lemma without_routes_keys: "map without_routes bs = map without_routes cs \<Longrightarrow> map rib_key bs = map rib_key cs"
proof -
  assume "map without_routes bs = map without_routes cs"
  then have "map rib_key (map without_routes bs) = map rib_key (map without_routes cs)" by (rule arg_cong)
  then show ?thesis by (simp add: comp_def without_routes_key)
qed

lemma collect_step:
  assumes "distinct (map rib_key ribs)" "\<forall>b\<in>set ribs. holds_routes E rs b" "rib_of E r \<in> rib_key ` set ribs" "links_known E r"
  shows "\<exists>t ribs'. (\<forall>tail. collect_routes_loop E (r # tail) tmp ribs = collect_routes_loop E tail t ribs')
    \<and> map without_routes ribs' = map without_routes ribs \<and> (\<forall>b\<in>set ribs'. holds_routes E (rs @ [r]) b)"
proof -
  obtain b where b: "hash_find rib_key (rib_of E r) ribs = Some b" "b \<in> set ribs" "rib_key b = rib_of E r"
    using hash_find_present [OF assms(3)] by blast
  then have found: "rib_list_get ribs (table_buffer E r) (nr_family r) = Ret (Some b)"
    by (simp add: rib_list_get_eq rib_of_def)
  let ?t1 = "route_set_preference (route_init tmp) (nr_priority r)"
  have "nh_kind (rt_next_hop ?t1) = kind_none"
    by (simp add: route_set_preference_def route_init_def route_next_hop_init_def)
  then obtain nh where nh: "collect_next_hop E r (rt_next_hop ?t1) = Ret nh" "next_hop_names nh" "next_hop_copy nh = next_hop_of E r"
    using collect_next_hop_ok [OF assms(4)] by blast
  let ?t2 = "route_set_source_protocol (?t1\<lparr>rt_next_hop := nh\<rparr>) (Some (protocol_name (nr_protocol r)))"
  have copy: "route_copy ?t2 = route_of E r"
    by (simp add: route_copy_def route_of_def nh(3) route_set_source_protocol_def route_set_preference_def route_init_def zero_route_def)
  have names: "next_hop_names (rt_next_hop ?t2)" using nh(2) by (simp add: route_set_source_protocol_def)
  have hb: "holds_routes E rs b" using assms(2) b(2) by blast
  obtain h where h: "route_list_hash_add (rib_routes_head b) (nr_dst r) ?t2 = Ret h" "distinct (map re_prefix h)"
    "\<forall>e\<in>set h. re_routes e \<noteq> []"
    "\<And>q. routes_at h q = (if q = nr_dst r then route_of E r # routes_at (rib_routes_head b) (nr_dst r) else routes_at (rib_routes_head b) q)"
    using routes_at_put [OF names, of "rib_routes_head b" "nr_dst r"] hb copy unfolding holds_routes_def by auto
  let ?b = "b\<lparr>rib_routes_head := h\<rparr>"
  have new: "holds_routes E (rs @ [r]) ?b"
    using hb h(2-4) b(3) by (auto simp: holds_routes_def rib_key_def routes_for_def)
  have old: "holds_routes E (rs @ [r]) c" if "c \<in> set ribs" "rib_key c \<noteq> rib_key b" for c
    using assms(2) that b(3) by (auto simp: holds_routes_def routes_for_def)
  have "\<forall>c\<in>set (rib_update b ?b ribs). holds_routes E (rs @ [r]) c"
    using rib_update_routes(2) [OF assms(1) b(2)] new old by blast
  moreover have "collect_routes_loop E (r # tail) tmp ribs
      = collect_routes_loop E tail (route_free ?t2) (rib_update b ?b ribs)" for tail
    by (simp add: found nh(1) h(1) Let_def)
  ultimately show ?thesis using rib_update_routes(1) [OF assms(1) b(2)] by blast
qed

lemma collect_routes_loop_ok:
  assumes "distinct (map rib_key ribs)" "\<forall>b\<in>set ribs. holds_routes E rs b"
    "\<forall>r\<in>set tail. rib_of E r \<in> rib_key ` set ribs \<and> links_known E r"
  shows "\<exists>ribs'. collect_routes_loop E tail tmp ribs = Ret (0, ribs')
    \<and> map without_routes ribs' = map without_routes ribs \<and> (\<forall>b\<in>set ribs'. holds_routes E (rs @ tail) b)"
  using assms
proof (induction tail arbitrary: rs tmp ribs)
  case (Cons r tail)
  obtain t ribs' where s: "\<And>tail. collect_routes_loop E (r # tail) tmp ribs = collect_routes_loop E tail t ribs'"
    "map without_routes ribs' = map without_routes ribs" "\<forall>b\<in>set ribs'. holds_routes E (rs @ [r]) b"
    using collect_step [OF Cons.prems(1,2), of r tmp] Cons.prems(3) by auto
  have k: "map rib_key ribs' = map rib_key ribs" using s(2) by (rule without_routes_keys)
  then have "rib_key ` set ribs' = rib_key ` set ribs" by (metis list.set_map)
  then show ?case
    using Cons.IH [of ribs' "rs @ [r]" t] s k Cons.prems by auto
qed simp

text \<open>The tables that are collected, without routes.\<close>

fun new_ribs :: "(cstr \<times> int) list \<Rightarrow> (cstr \<times> int) list \<Rightarrow> (cstr \<times> int) list" where
  "new_ribs seen [] = []"
| "new_ribs seen (k # ks) = (if k \<in> set seen then new_ribs seen ks else k # new_ribs (seen @ [k]) ks)"

definition collected_rib :: "cstr \<times> int \<Rightarrow> rib" where
  "collected_rib k = (fresh_rib k)\<lparr>rib_default_rib := (if take 4 (fst k) = ''main'' then 1 else 0)\<rparr>"

lemma collected_rib_key [simp]: "rib_key (collected_rib k) = k"
  using fresh_rib_key [of k] by (simp add: collected_rib_def rib_key_def)

lemma collect_ribs_step:
  assumes "distinct seen"
  shows "collect_ribs_loop E (r # rs) (map collected_rib seen) =
    collect_ribs_loop E rs (map collected_rib (if rib_of E r \<in> set seen then seen else seen @ [rib_of E r]))"
proof -
  let ?k = "rib_of E r" and ?t = "map collected_rib seen"
  have keys: "rib_key ` set ?t = set seen" by force
  let ?seen = "if ?k \<in> set seen then seen else seen @ [?k]"
  have put: "rib_list_add ?t (table_buffer E r) (nr_family r) = Ret (if ?k \<in> set seen then ?t else ?t @ [fresh_rib ?k])"
    using keys by (simp add: rib_list_add_eq rib_of_def)
  let ?t1 = "if ?k \<in> set seen then ?t else ?t @ [fresh_rib ?k]"
  show ?thesis
  proof (cases "take 4 (table_buffer E r) = ''main''")
    case False
    then have "collected_rib ?k = fresh_rib ?k"
      by (simp add: collected_rib_def rib_of_def) (simp add: fresh_rib_def rib_init_def)
    then show ?thesis using put False by simp
  next
    case True
    then have c: "collected_rib ?k = rib_set_default (fresh_rib ?k) 1"
      by (simp add: collected_rib_def rib_of_def rib_set_default_def)
    have key: "rib_key (fresh_rib ?k) = ?k" by simp
    have "rib_list_set_default ?t1 (table_buffer E r) (nr_family r) 1 = Ret (0, map collected_rib ?seen)"
    proof (cases "?k \<in> set seen")
      case old: True
      have "hash_find rib_key (rib_key (collected_rib ?k)) ?t = Some (collected_rib ?k)"
        using old assms by (intro hash_find_unique) (auto simp: comp_def)
      then have f: "hash_find rib_key ?k ?t = Some (collected_rib ?k)" by simp
      have d: "rib_set_default (collected_rib ?k) 1 = collected_rib ?k" by (simp add: c) (simp add: rib_set_default_def)
      have "rib_update (collected_rib ?k) (rib_set_default (collected_rib ?k) 1) ?t = ?t"
        unfolding rib_update_def d by (rule hash_update_same) auto
      then show ?thesis using old f by (simp add: rib_list_set_default_def rib_list_get_eq rib_of_def)
    next
      case new: False
      then have f: "hash_find rib_key ?k (?t @ [fresh_rib ?k]) = Some (fresh_rib ?k)"
        using keys hash_find_None_iff [of rib_key ?k ?t] by (simp add: table_simps)
      have "rib_update (fresh_rib ?k) (collected_rib ?k) (?t @ [fresh_rib ?k]) = ?t @ [collected_rib ?k]"
        using new by (auto simp: rib_update_def hash_update_def)
      then show ?thesis using new f c by (simp add: rib_list_set_default_def rib_list_get_eq rib_of_def)
    qed
    then show ?thesis using put True by simp
  qed
qed

lemma collect_ribs_loop_ok:
  "distinct seen \<Longrightarrow> collect_ribs_loop E rs (map collected_rib seen) =
    Ret (map collected_rib (seen @ new_ribs seen (map (rib_of E) rs)))"
proof (induction rs arbitrary: seen)
  case (Cons r rs)
  then show ?case
    using Cons.IH [of "seen @ [rib_of E r]"] Cons.IH [of seen]
    by (simp add: collect_ribs_step del: collect_ribs_loop.simps)
qed simp

lemma new_ribs_set: "set (new_ribs seen ks) = set ks - set seen"
  by (induction ks arbitrary: seen) auto

lemma new_ribs_distinct: "distinct (new_ribs seen ks)"
  by (induction ks arbitrary: seen) (auto simp: new_ribs_set)

lemma describe_rib_key [simp]: "rib_key (describe_rib E b) = rib_key b" "rib_routes_head (describe_rib E b) = rib_routes_head b"
  by (auto simp: describe_rib_def rib_key_def split: option.splits)

lemma mark_active_Nil: "mark_active [] = []"
  by (simp add: mark_active_def)

lemma routes_at_mark:
  "routes_at (map (\<lambda>e. e\<lparr>re_routes := mark_active (re_routes e)\<rparr>) h) p = mark_active (routes_at h p)"
  by (induction h) (auto simp: routes_at_def table_simps mark_active_Nil split: option.splits)

lemma collected_holds: "holds_routes E [] (describe_rib E (collected_rib k))"
  by (auto simp: holds_routes_def collected_rib_def fresh_rib_def rib_init_def route_list_hash_init_def routes_at_def
      routes_for_def table_simps)

lemma collect_routes_run:
  assumes "\<forall>r\<in>set rs. links_known E r"
  shows "\<exists>ribs. routing_collect_routes E rs [] = Ret (0, mark_ribs ribs)
    \<and> map without_routes ribs = map (\<lambda>k. without_routes (describe_rib E (collected_rib k))) (new_ribs [] (map (rib_of E) rs))
    \<and> (\<forall>b\<in>set ribs. holds_routes E rs b)"
proof -
  let ?ks = "new_ribs [] (map (rib_of E) rs)"
  let ?t = "map (describe_rib E) (map collected_rib ?ks)"
  have c: "routing_collect_ribs E rs [] = Ret (0, ?t)"
    using collect_ribs_loop_ok [of "[]" E rs] by (simp add: routing_collect_ribs_def routing_build_rib_descriptions_def)
  have keys: "map rib_key ?t = ?ks" by (simp add: comp_def)
  then have "rib_key ` set ?t = rib_of E ` set rs" by (metis Diff_empty list.set(1) list.set_map new_ribs_set)
  then have "\<forall>r\<in>set rs. rib_of E r \<in> rib_key ` set ?t \<and> links_known E r" using assms by blast
  moreover have "distinct (map rib_key ?t)" by (simp only: keys new_ribs_distinct)
  moreover have "\<forall>b\<in>set ?t. holds_routes E [] b" by (auto simp: collected_holds)
  ultimately obtain ribs where "collect_routes_loop E rs zero_route ?t = Ret (0, ribs)"
    "map without_routes ribs = map without_routes ?t" "\<forall>b\<in>set ribs. holds_routes E rs b"
    using collect_routes_loop_ok [of ?t E "[]" rs zero_route] by auto
  then show ?thesis using c by (auto simp: routing_collect_routes_def comp_def)
qed

lemma mark_ribs_keys: "map rib_key (mark_ribs ribs) = map rib_key ribs"
  by (simp add: mark_ribs_def comp_def rib_key_def)

lemma collected_keys:
  assumes "map without_routes ribs = map (\<lambda>k. without_routes (describe_rib E (collected_rib k))) ks"
  shows "map rib_key (mark_ribs ribs) = ks"
proof -
  have "map rib_key (map without_routes ribs) = map rib_key (map (\<lambda>k. without_routes (describe_rib E (collected_rib k))) ks)"
    using assms by simp
  then have "map rib_key ribs = ks" by (simp add: comp_def without_routes_key)
  then show ?thesis by (simp only: mark_ribs_keys)
qed

lemma mark_ribs_member:
  assumes "b \<in> set (mark_ribs ribs)"
  obtains c where "c \<in> set ribs" "rib_key b = rib_key c"
    "rib_routes_head b = map (\<lambda>e. e\<lparr>re_routes := mark_active (re_routes e)\<rparr>) (rib_routes_head c)"
  using assms by (auto simp: mark_ribs_def rib_key_def)

lemma routes_for_inactive: "r \<in> set (routes_for E rs k p) \<Longrightarrow> \<not> rt_active r"
  by (auto simp: routes_for_def route_of_def zero_route_def)

lemma routes_at_entry: "distinct (map re_prefix h) \<Longrightarrow> e \<in> set h \<Longrightarrow> routes_at h (re_prefix e) = re_routes e"
  by (simp add: routes_at_def hash_find_unique)

lemma collected_routes:
  assumes "\<forall>r\<in>set rs. links_known E r"
  shows "\<exists>ribs. routing_collect_routes E rs [] = Ret (0, ribs)
    \<and> distinct (map rib_key ribs) \<and> rib_key ` set ribs = rib_of E ` set rs
    \<and> (\<forall>b\<in>set ribs. distinct (map re_prefix (rib_routes_head b))
         \<and> (\<forall>p. routes_at (rib_routes_head b) p = mark_active (routes_for E rs (rib_key b) p)))"
proof -
  obtain ribs where r: "routing_collect_routes E rs [] = Ret (0, mark_ribs ribs)"
    "map without_routes ribs = map (\<lambda>k. without_routes (describe_rib E (collected_rib k))) (new_ribs [] (map (rib_of E) rs))"
    "\<forall>b\<in>set ribs. holds_routes E rs b"
    using collect_routes_run [OF assms] by blast
  have keys: "map rib_key (mark_ribs ribs) = new_ribs [] (map (rib_of E) rs)" using collected_keys [OF r(2)] .
  then have "rib_key ` set (mark_ribs ribs) = rib_of E ` set rs"
    by (metis Diff_empty list.set(1) list.set_map new_ribs_set)
  moreover have "distinct (map rib_key (mark_ribs ribs))" by (simp only: keys new_ribs_distinct)
  moreover have "distinct (map re_prefix (rib_routes_head b))
      \<and> (\<forall>p. routes_at (rib_routes_head b) p = mark_active (routes_for E rs (rib_key b) p))" if "b \<in> set (mark_ribs ribs)" for b
    using that
  proof (rule mark_ribs_member)
    fix c
    assume "c \<in> set ribs" "rib_key b = rib_key c"
      "rib_routes_head b = map (\<lambda>e. e\<lparr>re_routes := mark_active (re_routes e)\<rparr>) (rib_routes_head c)"
    then show ?thesis using r(3) by (simp add: holds_routes_def comp_def routes_at_mark)
  qed
  ultimately show ?thesis using r(1) by blast
qed

lemma take_of_take: "take (length (take n xs)) xs = take n xs"
  by (cases "n \<le> length xs") auto

lemma length_take_le: "length (take n xs) \<le> length xs"
  by simp

section \<open>Properties\<close>

text \<open>C2. Collecting the routes of a system whose links are all known succeeds and loses nothing: there is
  one table per table name and family that occurs, and in it, for every destination prefix, exactly
  the routes of the system with this table, family and prefix, newest first, each with its
  preference, protocol and next hops; at most one of them is then marked.\<close>

theorem collect_routes_groups:
  assumes "\<forall>r\<in>set rs. links_known E r"
  shows "\<exists>ribs. routing_collect_routes E rs [] = Ret (0, ribs)
    \<and> distinct (map rib_key ribs) \<and> rib_key ` set ribs = rib_of E ` set rs
    \<and> (\<forall>b\<in>set ribs. distinct (map re_prefix (rib_routes_head b))
         \<and> (\<forall>p. routes_at (rib_routes_head b) p = mark_active (routes_for E rs (rib_key b) p)))"
  by (rule collected_routes [OF assms])

definition demo_rib_env :: rib_env where
  "demo_rib_env = \<lparr> rv_table2str = (\<lambda>t. if t = 254 then ''main'' else ''local''),
     rv_str2table = (\<lambda>s. if s = ''main'' then 254 else 255),
     rv_link_name = (\<lambda>i. if i = 2 then Some ''eth0'' else None),
     rv_hop = (\<lambda>_. \<lparr> he_socket = True, he_connect = 0, he_alloc_cache = 0, he_link_name = (\<lambda>_. Some ''eth1'') \<rparr>) \<rparr>"

definition demo_prefix :: nl_addr where
  "demo_prefix = \<lparr> na_family = 2, na_text = ''10.0.0.0/8'', na_prefixlen = 8 \<rparr>"

definition demo_route :: "32 word \<Rightarrow> nl_route" where
  "demo_route prio = \<lparr> nr_table = 254, nr_type = 1, nr_family = 2, nr_priority = prio, nr_protocol = 4, nr_dst = demo_prefix,
     nr_nexthops = [\<lparr> nn_ifindex = 2, nn_gateway = None \<rparr>] \<rparr>"

lemma demo_links_known: "\<forall>r\<in>set [demo_route 5, demo_route 9, demo_route 5]. links_known demo_rib_env r"
  by (simp add: links_known_def demo_route_def demo_rib_env_def special_name_def)

lemma demo_rib_of: "rib_of demo_rib_env (demo_route p) = (''main'', 2)"
  by (simp add: rib_of_def table_buffer_def demo_rib_env_def demo_route_def cbuf_def)

lemma demo_routes_for: "map rt_preference (routes_for demo_rib_env [demo_route 5, demo_route 9, demo_route 5] (''main'', 2) demo_prefix) = [5, 9, 5]"
  by (simp add: routes_for_def demo_rib_of) (simp add: demo_route_def route_of_def)

theorem collect_routes_groups_witness:
  "\<exists>ribs. routing_collect_routes demo_rib_env [demo_route 5, demo_route 9, demo_route 5] [] = Ret (0, ribs)
    \<and> rib_key ` set ribs = {(''main'', 2)}"
  using collect_routes_groups [OF demo_links_known] by (auto simp: demo_rib_of)

text \<open>C6. In every table that was collected and for every prefix in it, exactly one route is active; it has the
  smallest preference value of its prefix, and among those it is the newest.\<close>

theorem one_active_route:
  assumes "\<forall>r\<in>set rs. links_known E r" "routing_collect_routes E rs [] = Ret (0, ribs)" "b \<in> set ribs"
    and "e \<in> set (rib_routes_head b)"
  shows "\<exists>n<length (re_routes e). (\<forall>k<length (re_routes e).
      rt_active (re_routes e ! k) = (k = n) \<and> rt_preference (re_routes e ! n) \<le> rt_preference (re_routes e ! k)
      \<and> (k < n \<longrightarrow> rt_preference (re_routes e ! n) < rt_preference (re_routes e ! k)))"
proof -
  obtain ribs0 where r: "ribs = mark_ribs ribs0" "\<forall>b\<in>set ribs0. holds_routes E rs b"
    using collect_routes_run [OF assms(1)] assms(2) by auto
  obtain c where c: "c \<in> set ribs0"
    "rib_routes_head b = map (\<lambda>e. e\<lparr>re_routes := mark_active (re_routes e)\<rparr>) (rib_routes_head c)"
    using mark_ribs_member [of b ribs0] assms(3) r(1) by metis
  obtain e0 where e0: "e0 \<in> set (rib_routes_head c)" "re_routes e = mark_active (re_routes e0)"
    using assms(4) c(2) by auto
  have h: "holds_routes E rs c" using r(2) c(1) by blast
  then have l: "re_routes e0 = routes_for E rs (rib_key c) (re_prefix e0)" "re_routes e0 \<noteq> []"
    using routes_at_entry [OF _ e0(1)] e0(1) by (auto simp: holds_routes_def)
  obtain n where n: "n < length (re_routes e0)" "mark_active (re_routes e0) = (re_routes e0)[n := (re_routes e0 ! n)\<lparr>rt_active := True\<rparr>]"
    "\<forall>k<length (re_routes e0). rt_preference (re_routes e0 ! n) \<le> rt_preference (re_routes e0 ! k)"
    "\<forall>k<n. rt_preference (re_routes e0 ! n) < rt_preference (re_routes e0 ! k)"
    using mark_active_spec [OF l(2)] by blast
  have "\<not> rt_active (re_routes e0 ! k)" if "k < length (re_routes e0)" for k
    using routes_for_inactive l(1) nth_mem [OF that] by metis
  then show ?thesis
    using n e0(2) by (intro exI [of _ n]) (auto simp: nth_list_update)
qed

theorem one_active_route_witness:
  "\<exists>ribs. routing_collect_routes demo_rib_env [demo_route 5, demo_route 9, demo_route 5] [] = Ret (0, ribs)
    \<and> (\<forall>b\<in>set ribs. \<forall>e\<in>set (rib_routes_head b). \<exists>n<length (re_routes e). rt_active (re_routes e ! n))"
proof -
  obtain ribs where r: "routing_collect_routes demo_rib_env [demo_route 5, demo_route 9, demo_route 5] [] = Ret (0, ribs)"
    using collect_routes_run [OF demo_links_known] by auto
  show ?thesis
    using one_active_route [OF demo_links_known r] r by blast
qed

text \<open>A table that the system knows gets the description of its name and family.  A table the system does
  not know is compared only up to the length of its name: any table called by the first letters of
  \<^verbatim>\<open>ipv4-main\<close> is described as the IPv4 main table.\<close>

theorem rib_descriptions:
  assumes "rib_address_family b \<in> {AF_INET4, AF_INET_6}"
  shows "(routing_is_rib_known (rv_str2table E (rib_name b)) \<and> rib_name b \<in> {''main'', ''default'', ''local''} \<longrightarrow>
      (family_name (rib_address_family b) @ ''-'' @ rib_name b, rib_description (describe_rib E b)) \<in> set default_descriptions)
    \<and> (\<not> routing_is_rib_known (rv_str2table E (rib_name b)) \<and> rib_name b = take n ''ipv4-main'' \<longrightarrow>
      rib_description (describe_rib E b) = snd (hd default_descriptions))"
proof
  show "\<not> routing_is_rib_known (rv_str2table E (rib_name b)) \<and> rib_name b = take n ''ipv4-main'' \<longrightarrow>
      rib_description (describe_rib E b) = snd (hd default_descriptions)"
  proof
    assume a: "\<not> routing_is_rib_known (rv_str2table E (rib_name b)) \<and> rib_name b = take n ''ipv4-main''"
    then have t: "take (length (rib_name b)) ''ipv4-main'' = rib_name b" using take_of_take by metis
    have "length (rib_name b) \<le> length ''ipv4-main''" using a length_take_le by metis
    then have c: "cbuf 37 (rib_name b) = rib_name b" by (simp add: cbuf_def)
    have "rib_description_name E b = rib_name b" using conjunct1 [OF a] c by (simp add: rib_description_name_def)
    with t show "rib_description (describe_rib E b) = snd (hd default_descriptions)"
      by (simp add: describe_rib_def default_descriptions_def)
  qed
qed (use assms in \<open>auto simp: describe_rib_def rib_description_name_def default_descriptions_def cbuf_def family_name_def\<close>)

text \<open>A table called \<^verbatim>\<open>ip\<close>.\<close>

theorem rib_descriptions_witness:
  "rib_description (describe_rib (demo_rib_env\<lparr>rv_str2table := \<lambda>_. 7\<rparr>) (fresh_rib (''ip'', AF_INET_6))) = snd (hd default_descriptions)"
  using rib_descriptions [of "fresh_rib (''ip'', AF_INET_6)" "demo_rib_env\<lparr>rv_str2table := \<lambda>_. 7\<rparr>" 2]
  by (simp add: fresh_rib_def routing_is_rib_known_def demo_rib_env_def)

end
