(* ===== verification/RtTree.thy ===== *)
theory RtTree
  imports RtCommon LyTree
begin

text \<open>
  The calls of libyang that the routing plugin makes, and the control flow around them.  As in
  \<^verbatim>\<open>LyTree\<close>, the calls made so far are a log and a created node is named by the position of its
  call.
\<close>

section \<open>Calls\<close>

datatype ly_module = Uv4 | Uv6

datatype rt_call =
    New_path ly_ref cstr "cstr option"
  | New_inner ly_ref ly_module cstr
  | New_term ly_ref ly_module cstr cstr
  | New_any ly_ref ly_module cstr

type_synonym rt_log = "rt_call list"

type_synonym rt_ly = "rt_log \<Rightarrow> rt_call \<Rightarrow> int"

text \<open>A piece of a function with the variable \<^verbatim>\<open>error\<close> and the label \<^verbatim>\<open>error_out\<close>: it goes on with
  a value of the variable, or (\<^verbatim>\<open>None\<close>) jumps to the label.\<close>

type_synonym rt_code = "int \<Rightarrow> rt_log \<Rightarrow> (int option \<times> rt_log) outcome"

definition rskip :: rt_code where
  "rskip error log = Ret (Some error, log)"

definition rundef :: rt_code where
  "rundef error log = Undef"

definition rnew :: "rt_ly \<Rightarrow> rt_call \<Rightarrow> (ly_ref \<Rightarrow> rt_code) \<Rightarrow> rt_code" where
  "rnew Y c k error log =
    (if Y log c \<noteq> 0 then Ret (None, log @ [c]) else k (Created (length log)) error (log @ [c]))"

definition rset :: "int \<Rightarrow> rt_code \<Rightarrow> rt_code" where
  "rset v k error log = k v log"

definition rseq :: "rt_code \<Rightarrow> rt_code \<Rightarrow> rt_code" where
  "rseq f k error log = obind (f error log) (\<lambda>(r, log'). case r of None \<Rightarrow> Ret (None, log') | Some e \<Rightarrow> k e log')"

fun rloop :: "('a \<Rightarrow> rt_code) \<Rightarrow> 'a list \<Rightarrow> rt_code" where
  "rloop f [] = rskip"
| "rloop f (x # xs) = rseq (f x) (rloop f xs)"

section \<open>Runs in which every node can be created\<close>

text \<open>The code makes the calls of a plan, which depends on the position where it starts; it leaves the
  error variable alone, or (the third argument) it leaves a positive value in it.\<close>

definition does :: "rt_code \<Rightarrow> (nat \<Rightarrow> rt_call list) \<Rightarrow> bool \<Rightarrow> bool" where
  "does f p m = (\<forall>error log. \<exists>e. f error log = Ret (Some e, log @ p (length log)) \<and> (if m then 0 < e else e = error))"

definition then_plan :: "(nat \<Rightarrow> rt_call list) \<Rightarrow> (nat \<Rightarrow> rt_call list) \<Rightarrow> nat \<Rightarrow> rt_call list" where
  "then_plan p q b = p b @ q (b + length (p b))"

fun loop_plan :: "('a \<Rightarrow> nat \<Rightarrow> rt_call list) \<Rightarrow> 'a list \<Rightarrow> nat \<Rightarrow> rt_call list" where
  "loop_plan p [] b = []"
| "loop_plan p (x # xs) b = p x b @ loop_plan p xs (b + length (p x b))"

definition accepts_all :: "rt_ly \<Rightarrow> bool" where
  "accepts_all Y = (\<forall>log c. Y log c = 0)"

lemma does_skip: "does rskip (\<lambda>b. []) False"
  by (simp add: does_def rskip_def)

lemma does_new:
  assumes "accepts_all Y" "\<And>b. does (k (Created b)) (p b) m"
  shows "does (rnew Y c k) (\<lambda>b. c # p b (Suc b)) m"
  unfolding does_def
proof (intro allI)
  fix error log
  obtain e where "k (Created (length log)) error (log @ [c]) = Ret (Some e, (log @ [c]) @ p (length log) (length (log @ [c])))"
    "if m then 0 < e else e = error"
    using assms(2) unfolding does_def by blast
  then show "\<exists>e. rnew Y c k error log = Ret (Some e, log @ c # p (length log) (Suc (length log))) \<and> (if m then 0 < e else e = error)"
    using assms(1) by (intro exI [of _ e]) (simp add: rnew_def accepts_all_def)
qed

lemma does_set: "0 < v \<Longrightarrow> does k p False \<Longrightarrow> does (rset v k) p True"
  by (simp add: does_def rset_def)

lemma does_seq: "does f p m \<Longrightarrow> does k q n \<Longrightarrow> does (rseq f k) (then_plan p q) (m \<or> n)"
  unfolding does_def
proof (intro allI)
  fix error log
  assume f: "\<forall>error log. \<exists>e. f error log = Ret (Some e, log @ p (length log)) \<and> (if m then 0 < e else e = error)"
    and k: "\<forall>error log. \<exists>e. k error log = Ret (Some e, log @ q (length log)) \<and> (if n then 0 < e else e = error)"
  obtain e where e: "f error log = Ret (Some e, log @ p (length log))" "if m then 0 < e else e = error" using f by blast
  obtain e' where "k e (log @ p (length log)) = Ret (Some e', (log @ p (length log)) @ q (length (log @ p (length log))))"
    "if n then 0 < e' else e' = e" using k by blast
  then show "\<exists>e. rseq f k error log = Ret (Some e, log @ then_plan p q (length log)) \<and> (if m \<or> n then 0 < e else e = error)"
    using e by (intro exI [of _ e']) (auto simp: rseq_def then_plan_def split: if_splits)
qed

lemma does_cong: "does f p m \<Longrightarrow> (\<And>b. p b = q b) \<Longrightarrow> m = n \<Longrightarrow> does f q n"
  by (simp add: does_def)

lemma does_loop:
  "(\<And>x. x \<in> set xs \<Longrightarrow> does (f x) (p x) (m x)) \<Longrightarrow> does (rloop f xs) (loop_plan p xs) (\<exists>x\<in>set xs. m x)"
proof (induction xs)
  case (Cons x xs)
  have "does (rseq (f x) (rloop f xs)) (then_plan (p x) (loop_plan p xs)) (m x \<or> (\<exists>x\<in>set xs. m x))"
    using Cons by (intro does_seq) auto
  then show ?case unfolding rloop.simps by (rule does_cong) (simp_all add: then_plan_def)
qed (simp add: does_def rskip_def)

section \<open>Nodes are used after they are created\<close>

fun call_parent :: "rt_call \<Rightarrow> ly_ref" where
  "call_parent (New_path p path v) = p"
| "call_parent (New_inner p M name) = p"
| "call_parent (New_term p M name v) = p"
| "call_parent (New_any p M name) = p"

text \<open>A call that creates a leaf: it has a value, or its path names a leaf that the code also creates without a
  value.  An anydata node is not a leaf.\<close>

definition null_leaves :: "cstr set" where
  "null_leaves = {''active'', ''description'', ''source-protocol''}"

fun makes_leaf :: "rt_call \<Rightarrow> bool" where
  "makes_leaf (New_path p path v) = (v \<noteq> None \<or> path \<in> null_leaves)"
| "makes_leaf (New_inner p M name) = False"
| "makes_leaf (New_term p M name v) = True"
| "makes_leaf (New_any p M name) = False"

lemma path_inner [simp]:
  "CHR ''/'' # s \<notin> null_leaves" "CHR ''r'' # s \<notin> null_leaves" "CHR ''n'' # s \<notin> null_leaves"
  "''static-routes'' \<notin> null_leaves"
  by (simp_all add: null_leaves_def)

text \<open>A node that nodes can be created in: it is the result of an earlier call that did not create a
  leaf, or it is one of the given nodes \<^verbatim>\<open>B\<close> (the parent that sysrepo passes to a getter, or no node at
  all).  A log is scoped from a position on when every later call creates its node in such a node.\<close>

definition valid_ref :: "ly_ref set \<Rightarrow> rt_log \<Rightarrow> ly_ref \<Rightarrow> bool" where
  "valid_ref B log n = (case n of Created j \<Rightarrow> j < length log \<and> \<not> makes_leaf (log ! j) | _ \<Rightarrow> n \<in> B)"

definition scoped_from :: "nat \<Rightarrow> ly_ref set \<Rightarrow> rt_log \<Rightarrow> bool" where
  "scoped_from k B log = (\<forall>i<length log. k \<le> i \<longrightarrow> valid_ref B (take i log) (call_parent (log ! i)))"

text \<open>A tree of its own: only its first node has no parent, and all others are created below it.\<close>

definition scoped_tree :: "rt_log \<Rightarrow> bool" where
  "scoped_tree log = (log \<noteq> [] \<and> call_parent (hd log) = Root \<and> scoped_from 1 {} log)"

text \<open>The judgement: where the nodes that the code uses are valid, it only appends calls to valid nodes,
  whatever libyang answers.\<close>

definition keeps :: "ly_ref set \<Rightarrow> ly_ref set \<Rightarrow> rt_code \<Rightarrow> bool" where
  "keeps B N f = (\<forall>k error log r log'. scoped_from k B log \<longrightarrow> (\<forall>n\<in>N. valid_ref B log n) \<longrightarrow> f error log = Ret (r, log') \<longrightarrow>
     scoped_from k B log' \<and> (\<exists>ext. log' = log @ ext))"

lemma valid_ref_append: "valid_ref B log n \<Longrightarrow> valid_ref B (log @ ext) n"
  by (auto simp: valid_ref_def nth_append split: ly_ref.splits)

lemma scoped_from_snoc: "scoped_from k B (log @ [c]) \<longleftrightarrow> scoped_from k B log \<and> (k \<le> length log \<longrightarrow> valid_ref B log (call_parent c))"
  by (auto simp: scoped_from_def nth_append less_Suc_eq)

lemma keepsD:
  "keeps B N f \<Longrightarrow> scoped_from k B log \<Longrightarrow> (\<And>n. n \<in> N \<Longrightarrow> valid_ref B log n) \<Longrightarrow> f error log = Ret (r, log') \<Longrightarrow>
    scoped_from k B log' \<and> (\<exists>ext. log' = log @ ext)"
  unfolding keeps_def by blast

lemma keeps_skip: "keeps B N rskip"
  by (simp add: keeps_def rskip_def)

lemma keeps_undef: "keeps B N rundef"
  by (simp add: keeps_def rundef_def)

lemma keeps_set: "keeps B N k \<Longrightarrow> keeps B N (rset v k)"
  by (simp add: keeps_def rset_def)

lemma keeps_new:
  assumes "call_parent c \<in> N" "\<And>n. keeps B (if makes_leaf c then N else insert n N) (k n)"
  shows "keeps B N (rnew Y c k)"
  unfolding keeps_def
proof (intro allI impI)
  fix i error log r log'
  assume s: "scoped_from i B log" and v: "\<forall>n\<in>N. valid_ref B log n" and run: "rnew Y c k error log = Ret (r, log')"
  have s1: "scoped_from i B (log @ [c])" using s v assms(1) by (simp add: scoped_from_snoc)
  have v1: "valid_ref B (log @ [c]) n" if "n \<in> (if makes_leaf c then N else insert (Created (length log)) N)" for n
    using that v valid_ref_append by (auto simp: valid_ref_def split: if_splits)
  show "scoped_from i B log' \<and> (\<exists>ext. log' = log @ ext)"
  proof (cases "Y log c = 0")
    case True
    then have "k (Created (length log)) error (log @ [c]) = Ret (r, log')" using run by (simp add: rnew_def)
    then show ?thesis using keepsD [OF assms(2) s1 v1] by fastforce
  next
    case False
    then show ?thesis using run s1 by (auto simp: rnew_def)
  qed
qed

lemma keeps_weaken: "keeps B N k \<Longrightarrow> N \<subseteq> M \<Longrightarrow> keeps B M k"
  unfolding keeps_def by blast

lemma keeps_leaf: "call_parent c \<in> N \<Longrightarrow> keeps B N k \<Longrightarrow> keeps B N (rnew Y c (\<lambda>_. k))"
  by (rule keeps_new, assumption, erule keeps_weaken) auto

lemma keeps_seq:
  assumes "keeps B N f" "keeps B N k"
  shows "keeps B N (rseq f k)"
  unfolding keeps_def
proof (intro allI impI)
  fix i error log r log'
  assume s: "scoped_from i B log" and v: "\<forall>n\<in>N. valid_ref B log n" and run: "rseq f k error log = Ret (r, log')"
  obtain r1 log1 where f: "f error log = Ret (r1, log1)" "case r1 of None \<Rightarrow> r = None \<and> log' = log1 | Some e \<Rightarrow> k e log1 = Ret (r, log')"
    using run by (auto simp: rseq_def obind_eq_Ret split: option.splits)
  obtain ext where x: "scoped_from i B log1" "log1 = log @ ext" using keepsD [OF assms(1) s _ f(1)] v by blast
  show "scoped_from i B log' \<and> (\<exists>ext. log' = log @ ext)"
  proof (cases r1)
    case (Some e)
    have "valid_ref B log1 n" if "n \<in> N" for n using v that valid_ref_append x(2) by blast
    then have "scoped_from i B log' \<and> (\<exists>ext. log' = log1 @ ext)" using keepsD [OF assms(2) x(1)] f(2) Some by simp
    then show ?thesis using x(2) by auto
  qed (use f(2) x in simp)
qed

lemma keeps_loop: "(\<And>x. x \<in> set xs \<Longrightarrow> keeps B N (f x)) \<Longrightarrow> keeps B N (rloop f xs)"
  by (induction xs) (simp_all add: keeps_skip keeps_seq)

lemmas keeps_intros = keeps_skip keeps_undef keeps_set keeps_seq keeps_loop keeps_leaf keeps_new

end
