(* ===== verification/RtOper.thy ===== *)
theory RtOper
  imports RtTree IfLinkChange
begin

text \<open>
  The operational data of the routing plugin, \<^verbatim>\<open>routing/subscription/operational.c\<close>.
\<close>

section \<open>What the libraries answer\<close>

record rib_query =
  oq_socket :: bool
  oq_connect :: int
  oq_route_cache :: int
  oq_link_cache :: int
  oq_table_names :: int
  oq_protocol_names :: int
  oq_routes :: "nl_route list"
  oq_rib :: rib_env
  oq_uv4mod :: bool
  oq_uv6mod :: bool
  oq_create :: rt_ly

section \<open>Routes\<close>

text \<open>An address of at most 45 characters; the length is added where libnl prints none.\<close>

definition prefix_buffer :: "nl_addr \<Rightarrow> cstr" where
  "prefix_buffer a = (let ip_buffer = cbuf 46 (na_text a) in
     if CHR ''/'' \<notin> set ip_buffer then cbuf 50 (ip_buffer @ ''/'' @ dec (na_prefixlen a)) else cbuf 50 ip_buffer)"

definition next_hop_address :: "rib_query \<Rightarrow> int \<Rightarrow> ly_ref \<Rightarrow> nl_addr option \<Rightarrow> rt_code" where
  "next_hop_address Q af node addr =
    (case addr of
       None \<Rightarrow> rskip
     | Some a \<Rightarrow>
         if af = AF_INET4 \<and> oq_uv4mod Q then
           rnew (oq_create Q) (New_term node Uv4 ''next-hop-address'' (cbuf 46 (na_text a))) (\<lambda>_. rskip)
         else if af = AF_INET_6 \<and> oq_uv6mod Q then
           rnew (oq_create Q) (New_term node Uv6 ''next-hop-address'' (cbuf 46 (na_text a))) (\<lambda>_. rskip)
         else rskip)"

definition outgoing_interface :: "rib_query \<Rightarrow> ly_ref \<Rightarrow> int \<Rightarrow> rt_code \<Rightarrow> rt_code" where
  "outgoing_interface Q node ifindex k =
    (case rv_link_name (oq_rib Q) ifindex of
       None \<Rightarrow> rundef
     | Some nm \<Rightarrow> rnew (oq_create Q) (New_path node ''outgoing-interface'' (Some nm)) (\<lambda>_. k))"

text \<open>\<^verbatim>\<open>snprintf\<close> leaves the length of the path in \<^verbatim>\<open>error\<close>.\<close>

definition hop_path :: "next_hop_simple \<Rightarrow> cstr" where
  "hop_path h = ''next-hop/next-hop-list/next-hop[index='' @ dec_int (hs_ifindex h) @ '']''"

definition list_hop :: "rib_query \<Rightarrow> int \<Rightarrow> ly_ref \<Rightarrow> next_hop_simple \<Rightarrow> rt_code" where
  "list_hop Q af nh_node h =
    (case rv_link_name (oq_rib Q) (hs_ifindex h) of
       None \<Rightarrow> rundef
     | Some nm \<Rightarrow>
         rset (int (length (hop_path h))) (rnew (oq_create Q) (New_path nh_node (cbuf 256 (hop_path h)) None) (\<lambda>nh_list_node.
         outgoing_interface Q nh_list_node (hs_ifindex h) (next_hop_address Q af nh_list_node (hs_addr h)))))"

definition next_hops :: "rib_query \<Rightarrow> int \<Rightarrow> ly_ref \<Rightarrow> next_hop \<Rightarrow> rt_code" where
  "next_hops Q af nh_node nh =
    (case nh_kind nh of
       kind_none \<Rightarrow> rskip
     | kind_simple \<Rightarrow> outgoing_interface Q nh_node (hs_ifindex (nh_simple nh)) (next_hop_address Q af nh_node (hs_addr (nh_simple nh)))
     | kind_special \<Rightarrow> rskip
     | kind_list \<Rightarrow> rloop (list_hop Q af nh_node) (nh_list nh))"

text \<open>The default route is printed without an address; the buffer keeps the replacement for the other
  routes of the prefix, where it is not replaced again.\<close>

definition default_prefix :: "cstr \<Rightarrow> cstr \<Rightarrow> cstr" where
  "default_prefix zero s = (if take (length s) ''none/0'' = s then zero else s)"

definition destination_prefix :: "rib_query \<Rightarrow> int \<Rightarrow> ly_ref \<Rightarrow> nl_addr \<Rightarrow> rt_code" where
  "destination_prefix Q af ly_node dst =
    (if af = AF_INET4 \<and> oq_uv4mod Q then
       rnew (oq_create Q) (New_term ly_node Uv4 ''destination-prefix'' (default_prefix ''0.0.0.0/0'' (prefix_buffer dst))) (\<lambda>_. rskip)
     else if af = AF_INET_6 \<and> oq_uv6mod Q then
       rnew (oq_create Q) (New_term ly_node Uv6 ''destination-prefix'' (default_prefix ''::/0'' (prefix_buffer dst))) (\<lambda>_. rskip)
     else rskip)"

definition report_route :: "rib_query \<Rightarrow> int \<Rightarrow> ly_ref \<Rightarrow> nl_addr \<Rightarrow> route \<Rightarrow> rt_code" where
  "report_route Q af routes_node dst r =
    rnew (oq_create Q) (New_path routes_node ''routes/route'' None) (\<lambda>ly_node.
    rnew (oq_create Q) (New_path ly_node ''route-preference'' (Some (dec (unat (rt_preference r))))) (\<lambda>_.
    rnew (oq_create Q) (New_path ly_node ''next-hop'' None) (\<lambda>nh_node.
    rseq (next_hops Q af nh_node (rt_next_hop r)) (
    rseq (destination_prefix Q af ly_node dst) (
    rnew (oq_create Q) (New_path ly_node ''source-protocol'' (rt_source_protocol r)) (\<lambda>_.
    if rt_active r then rnew (oq_create Q) (New_path ly_node ''active'' None) (\<lambda>_. rskip) else rskip))))))"

definition routes_path :: "rib \<Rightarrow> cstr" where
  "routes_path b = cbuf PATH_MAX (''/ietf-routing:routing/ribs/rib[name='' @ [CHR 39]
     @ family_name (rib_address_family b) @ ''-'' @ rib_name b @ [CHR 39] @ '']/routes'')"

definition report_rib :: "rib_query \<Rightarrow> rib \<Rightarrow> rt_code" where
  "report_rib Q b =
    rnew (oq_create Q) (New_path Parent (routes_path b) None) (\<lambda>routes_node.
    rloop (\<lambda>e. rloop (report_route Q (rib_address_family b) routes_node (re_prefix e)) (re_routes e)) (rib_routes_head b))"

definition oper_get_rib_routes_cb :: "rib_query \<Rightarrow> rt_log \<Rightarrow> (int \<times> rt_log) outcome" where
  "oper_get_rib_routes_cb Q log =
    (if \<not> oq_socket Q then Ret (SR_ERR_CALLBACK_FAILED, log)
     else if oq_connect Q \<noteq> 0 then Ret (SR_ERR_CALLBACK_FAILED, log)
     else if oq_route_cache Q \<noteq> 0 then Ret (SR_ERR_CALLBACK_FAILED, log)
     else if oq_link_cache Q \<noteq> 0 then Ret (SR_ERR_CALLBACK_FAILED, log)
     else if oq_table_names Q \<noteq> 0 then Ret (SR_ERR_CALLBACK_FAILED, log)
     else if oq_protocol_names Q \<noteq> 0 then Ret (SR_ERR_CALLBACK_FAILED, log) else
     obind (routing_collect_routes (oq_rib Q) (oq_routes Q) []) (\<lambda>(e1, ribs).
     if e1 \<noteq> 0 then Ret (SR_ERR_CALLBACK_FAILED, log) else
     obind (rloop (report_rib Q) ribs e1 log) (\<lambda>(r, log').
     Ret (if r = Some 0 then 0 else SR_ERR_CALLBACK_FAILED, log'))))"

section \<open>Interfaces\<close>

text \<open>Without a parent the node that is created is not stored in it: the interfaces are then created below
  \<^verbatim>\<open>NULL\<close>.\<close>

record interfaces_query =
  iq_parent :: bool
  iq_context :: bool
  iq_request_xpath :: cstr
  iq_socket :: bool
  iq_connect :: int
  iq_link_cache :: int
  iq_names :: "cstr list"
  iq_create :: rt_ly

definition oper_get_interfaces_cb :: "interfaces_query \<Rightarrow> rt_log \<Rightarrow> (int \<times> rt_log) outcome" where
  "oper_get_interfaces_cb Q log =
    (let parent = (if iq_parent Q then Parent else Root);
         links = (\<lambda>error log.
           if \<not> iq_socket Q then Ret (None, log)
           else if iq_connect Q \<noteq> 0 then Ret (None, log)
           else if iq_link_cache Q \<noteq> 0 then Ret (None, log)
           else rloop (\<lambda>name. rnew (iq_create Q) (New_path parent ''/ietf-routing:routing/interfaces/interface'' (Some name)) (\<lambda>_. rskip))
             (iq_names Q) error log)
     in obind
       (if iq_parent Q then links 0 log
        else if \<not> iq_context Q then Ret (None, log)
        else rnew (iq_create Q) (New_path parent (iq_request_xpath Q) None) (\<lambda>_. links) 0 log)
       (\<lambda>(r, log'). Ret (if r = None then SR_ERR_CALLBACK_FAILED else 0, log')))"

section \<open>Lemmas\<close>

text \<open>What is reported of a route, when every node can be created.\<close>

definition address_plan :: "rib_query \<Rightarrow> int \<Rightarrow> ly_ref \<Rightarrow> nl_addr option \<Rightarrow> rt_call list" where
  "address_plan Q af node addr = (case addr of
       None \<Rightarrow> []
     | Some a \<Rightarrow> if af = AF_INET4 \<and> oq_uv4mod Q then [New_term node Uv4 ''next-hop-address'' (cbuf 46 (na_text a))]
         else if af = AF_INET_6 \<and> oq_uv6mod Q then [New_term node Uv6 ''next-hop-address'' (cbuf 46 (na_text a))]
         else [])"

definition list_hop_plan :: "rib_query \<Rightarrow> int \<Rightarrow> ly_ref \<Rightarrow> next_hop_simple \<Rightarrow> nat \<Rightarrow> rt_call list" where
  "list_hop_plan Q af nh_node h b =
    New_path nh_node (cbuf 256 (hop_path h)) None #
    New_path (Created b) ''outgoing-interface'' (rv_link_name (oq_rib Q) (hs_ifindex h)) # address_plan Q af (Created b) (hs_addr h)"

definition next_hops_plan :: "rib_query \<Rightarrow> int \<Rightarrow> ly_ref \<Rightarrow> next_hop \<Rightarrow> nat \<Rightarrow> rt_call list" where
  "next_hops_plan Q af nh_node nh b = (case nh_kind nh of
       kind_simple \<Rightarrow> New_path nh_node ''outgoing-interface'' (rv_link_name (oq_rib Q) (hs_ifindex (nh_simple nh)))
         # address_plan Q af nh_node (hs_addr (nh_simple nh))
     | kind_list \<Rightarrow> loop_plan (list_hop_plan Q af nh_node) (nh_list nh) b
     | _ \<Rightarrow> [])"

definition destination_plan :: "rib_query \<Rightarrow> int \<Rightarrow> ly_ref \<Rightarrow> nl_addr \<Rightarrow> rt_call list" where
  "destination_plan Q af node dst =
    (if af = AF_INET4 \<and> oq_uv4mod Q then [New_term node Uv4 ''destination-prefix'' (default_prefix ''0.0.0.0/0'' (prefix_buffer dst))]
     else if af = AF_INET_6 \<and> oq_uv6mod Q then [New_term node Uv6 ''destination-prefix'' (default_prefix ''::/0'' (prefix_buffer dst))]
     else [])"

definition route_plan :: "rib_query \<Rightarrow> int \<Rightarrow> ly_ref \<Rightarrow> nl_addr \<Rightarrow> route \<Rightarrow> nat \<Rightarrow> rt_call list" where
  "route_plan Q af routes_node dst r b =
    New_path routes_node ''routes/route'' None # New_path (Created b) ''route-preference'' (Some (dec (unat (rt_preference r))))
    # New_path (Created b) ''next-hop'' None # next_hops_plan Q af (Created (Suc (Suc b))) (rt_next_hop r) (Suc (Suc (Suc b)))
    @ destination_plan Q af (Created b) dst @ New_path (Created b) ''source-protocol'' (rt_source_protocol r)
    # (if rt_active r then [New_path (Created b) ''active'' None] else [])"

definition rib_plan :: "rib_query \<Rightarrow> rib \<Rightarrow> nat \<Rightarrow> rt_call list" where
  "rib_plan Q b n = New_path Parent (routes_path b) None #
    loop_plan (\<lambda>e. loop_plan (route_plan Q (rib_address_family b) (Created n) (re_prefix e)) (re_routes e)) (rib_routes_head b) (Suc n)"

definition multipath :: "route \<Rightarrow> bool" where
  "multipath r = (nh_kind (rt_next_hop r) = kind_list \<and> nh_list (rt_next_hop r) \<noteq> [])"

definition ready :: "rib_query \<Rightarrow> bool" where
  "ready Q = (oq_socket Q \<and> oq_connect Q = 0 \<and> oq_route_cache Q = 0 \<and> oq_link_cache Q = 0 \<and> oq_table_names Q = 0
     \<and> oq_protocol_names Q = 0 \<and> accepts_all (oq_create Q)
     \<and> (\<forall>r\<in>set (oq_routes Q). \<forall>nh\<in>set (nr_nexthops r). rv_link_name (oq_rib Q) (nn_ifindex nh) \<noteq> None))"

text \<open>The links of the next hops that are reported have a name.\<close>

definition hops_linked :: "rib_query \<Rightarrow> next_hop \<Rightarrow> bool" where
  "hops_linked Q nh = (case nh_kind nh of
       kind_simple \<Rightarrow> rv_link_name (oq_rib Q) (hs_ifindex (nh_simple nh)) \<noteq> None
     | kind_list \<Rightarrow> \<forall>h\<in>set (nh_list nh). rv_link_name (oq_rib Q) (hs_ifindex h) \<noteq> None
     | _ \<Rightarrow> True)"

lemma does_address: "accepts_all (oq_create Q) \<Longrightarrow> does (next_hop_address Q af node addr) (\<lambda>b. address_plan Q af node addr) False"
  by (auto simp: next_hop_address_def address_plan_def does_skip split: option.split intro: does_cong [OF does_new [OF _ does_skip]])

lemma does_outgoing:
  assumes "accepts_all (oq_create Q)" "rv_link_name (oq_rib Q) i \<noteq> None" "does k p m"
  shows "does (outgoing_interface Q node i k) (\<lambda>b. New_path node ''outgoing-interface'' (rv_link_name (oq_rib Q) i) # p (Suc b)) m"
  using assms does_new [OF assms(1) assms(3)] by (auto simp: outgoing_interface_def)

lemma does_list_hop:
  assumes "accepts_all (oq_create Q)" "rv_link_name (oq_rib Q) (hs_ifindex h) \<noteq> None"
  shows "does (list_hop Q af nh_node h) (list_hop_plan Q af nh_node h) True"
proof -
  have "does (rnew (oq_create Q) (New_path nh_node (cbuf 256 (hop_path h)) None) (\<lambda>n.
      outgoing_interface Q n (hs_ifindex h) (next_hop_address Q af n (hs_addr h)))) (list_hop_plan Q af nh_node h) False"
    by (rule does_cong, rule does_new [OF assms(1)], rule does_outgoing [OF assms], rule does_address [OF assms(1)])
      (simp_all add: list_hop_plan_def)
  moreover have "0 < int (length (hop_path h))" by (simp add: hop_path_def)
  ultimately show ?thesis using assms(2) does_set by (auto simp: list_hop_def)
qed

lemma does_next_hops:
  assumes "accepts_all (oq_create Q)" "hops_linked Q nh"
  shows "does (next_hops Q af nh_node nh) (next_hops_plan Q af nh_node nh) (nh_kind nh = kind_list \<and> nh_list nh \<noteq> [])"
proof (cases "nh_kind nh")
  case kind_simple
  then show ?thesis
    using does_outgoing [OF assms(1) _ does_address [OF assms(1)]] assms(2)
    by (auto simp: next_hops_def next_hops_plan_def [abs_def] hops_linked_def)
next
  case kind_list
  have "does (rloop (list_hop Q af nh_node) (nh_list nh)) (loop_plan (list_hop_plan Q af nh_node) (nh_list nh)) (\<exists>h\<in>set (nh_list nh). True)"
    using does_list_hop assms kind_list by (intro does_loop) (simp add: hops_linked_def)
  then show ?thesis
    unfolding next_hops_def kind_list next_hop_kind.case
    by (rule does_cong) (simp_all add: next_hops_plan_def kind_list ex_in_conv)
qed (simp_all add: next_hops_def next_hops_plan_def [abs_def] does_skip)

lemma does_destination:
  "accepts_all (oq_create Q) \<Longrightarrow> does (destination_prefix Q af node dst) (\<lambda>b. destination_plan Q af node dst) False"
  by (auto simp: destination_prefix_def destination_plan_def does_skip intro: does_cong [OF does_new [OF _ does_skip]])

lemma does_route:
  assumes "accepts_all (oq_create Q)" "hops_linked Q (rt_next_hop r)"
  shows "does (report_route Q af routes_node dst r) (route_plan Q af routes_node dst r) (multipath r)"
proof -
  have act: "does (if rt_active r then rnew (oq_create Q) (New_path n ''active'' None) (\<lambda>_. rskip) else rskip)
      (\<lambda>b. if rt_active r then [New_path n ''active'' None] else []) False" for n
    using does_new [OF assms(1) does_skip] does_skip by auto
  show ?thesis
    unfolding report_route_def
    by (rule does_cong, rule does_new [OF assms(1)], rule does_new [OF assms(1)], rule does_new [OF assms(1)],
        rule does_seq [OF does_next_hops [OF assms]], rule does_seq [OF does_destination [OF assms(1)]],
        rule does_new [OF assms(1)], rule act)
      (simp_all add: route_plan_def then_plan_def multipath_def)
qed

lemma does_rib:
  assumes "accepts_all (oq_create Q)" "\<forall>e\<in>set (rib_routes_head b). \<forall>r\<in>set (re_routes e). hops_linked Q (rt_next_hop r)"
  shows "does (report_rib Q b) (rib_plan Q b) (\<exists>e\<in>set (rib_routes_head b). \<exists>r\<in>set (re_routes e). multipath r)"
proof -
  have "does (report_route Q (rib_address_family b) node (re_prefix e) r) (route_plan Q (rib_address_family b) node (re_prefix e) r) (multipath r)"
    if "e \<in> set (rib_routes_head b)" "r \<in> set (re_routes e)" for e r node
    using assms that by (intro does_route) blast+
  then show ?thesis
    unfolding report_rib_def
    by (intro does_cong [OF does_new [OF assms(1) does_loop [OF does_loop]]]) (simp_all add: rib_plan_def)
qed

lemma hops_linked_next_hop_of:
  "\<forall>nh\<in>set (nr_nexthops r). rv_link_name (oq_rib Q) (nn_ifindex nh) \<noteq> None \<Longrightarrow> hops_linked Q (next_hop_of (oq_rib Q) r)"
  by (auto simp: hops_linked_def next_hop_of_def hops_of_def hop_of_def zero_next_hop_def split: option.split list.split)

text \<open>The next hops of the routes that were collected are those of the routes of the system.\<close>

lemma mark_next_hops: "rt_next_hop ` set (mark_active rs) = rt_next_hop ` set rs"
proof (cases "rs = []")
  case False
  then obtain n where n: "n < length rs" "mark_active rs = rs[n := (rs ! n)\<lparr>rt_active := True\<rparr>]"
    using mark_active_spec by blast
  have "map rt_next_hop (mark_active rs) = map rt_next_hop rs"
    using n by (intro nth_equalityI) (auto simp: nth_list_update)
  then show ?thesis by (metis list.set_map)
qed (simp add: mark_active_Nil)

definition rib_hops :: "rib \<Rightarrow> next_hop set" where
  "rib_hops b = (\<Union>e\<in>set (rib_routes_head b). rt_next_hop ` set (re_routes e))"

lemma rib_hops_at:
  assumes "distinct (map re_prefix (rib_routes_head b))"
  shows "rib_hops b = (\<Union>p. rt_next_hop ` set (routes_at (rib_routes_head b) p))"
proof
  show "rib_hops b \<subseteq> (\<Union>p. rt_next_hop ` set (routes_at (rib_routes_head b) p))"
  proof
    fix h
    assume "h \<in> rib_hops b"
    then obtain e where "e \<in> set (rib_routes_head b)" "h \<in> rt_next_hop ` set (re_routes e)" unfolding rib_hops_def by blast
    then have "h \<in> rt_next_hop ` set (routes_at (rib_routes_head b) (re_prefix e))" using routes_at_entry [OF assms] by simp
    then show "h \<in> (\<Union>p. rt_next_hop ` set (routes_at (rib_routes_head b) p))" by blast
  qed
  show "(\<Union>p. rt_next_hop ` set (routes_at (rib_routes_head b) p)) \<subseteq> rib_hops b"
  proof
    fix h
    assume "h \<in> (\<Union>p. rt_next_hop ` set (routes_at (rib_routes_head b) p))"
    then obtain p where "h \<in> rt_next_hop ` set (routes_at (rib_routes_head b) p)" by blast
    then obtain x where "hash_find re_prefix p (rib_routes_head b) = Some x" "h \<in> rt_next_hop ` set (re_routes x)"
      by (cases "hash_find re_prefix p (rib_routes_head b)") (auto simp: routes_at_def)
    moreover have "x \<in> set (rib_routes_head b)" by (rule conjunct1 [OF hash_find_SomeD [OF calculation(1)]])
    ultimately show "h \<in> rib_hops b" unfolding rib_hops_def by blast
  qed
qed

lemma collected_hops:
  assumes "rib_key ` set ribs = rib_of E ` set rs"
    and "\<forall>b\<in>set ribs. distinct (map re_prefix (rib_routes_head b))
      \<and> (\<forall>p. routes_at (rib_routes_head b) p = mark_active (routes_for E rs (rib_key b) p))"
  shows "(\<Union>b\<in>set ribs. rib_hops b) = next_hop_of E ` set rs"
proof -
  have "rib_hops b = next_hop_of E ` {r \<in> set rs. rib_of E r = rib_key b}" if "b \<in> set ribs" for b
  proof -
    have "rib_hops b = (\<Union>p. rt_next_hop ` set (routes_for E rs (rib_key b) p))"
      using rib_hops_at assms(2) that mark_next_hops by simp
    also have "\<dots> = next_hop_of E ` {r \<in> set rs. rib_of E r = rib_key b}"
      by (auto simp: routes_for_def route_of_def image_image image_iff)
    finally show ?thesis .
  qed
  then have "(\<Union>b\<in>set ribs. rib_hops b) = (\<Union>b\<in>set ribs. next_hop_of E ` {r \<in> set rs. rib_of E r = rib_key b})" by simp
  also have "\<dots> = next_hop_of E ` {r \<in> set rs. rib_of E r \<in> rib_key ` set ribs}" by auto
  also have "\<dots> = next_hop_of E ` set rs" using assms(1) by auto
  finally show ?thesis .
qed

section \<open>Lemmas: nodes are used after they are created\<close>

lemma oper_paths_inner [simp]: "cbuf 256 (hop_path h) \<notin> null_leaves" "routes_path b \<notin> null_leaves"
  by (simp_all add: hop_path_def routes_path_def cbuf_def)

lemma keeps_next_hop_address: "node \<in> N \<Longrightarrow> keeps B N (next_hop_address Q af node addr)"
  by (auto simp: next_hop_address_def intro!: keeps_skip keeps_leaf split: option.split)

lemma keeps_outgoing_interface: "node \<in> N \<Longrightarrow> keeps B N k \<Longrightarrow> keeps B N (outgoing_interface Q node i k)"
  by (auto simp: outgoing_interface_def intro!: keeps_undef keeps_leaf split: option.split)

lemma keeps_list_hop: "node \<in> N \<Longrightarrow> keeps B N (list_hop Q af node h)"
  by (auto simp: list_hop_def intro!: keeps_undef keeps_set keeps_new keeps_outgoing_interface keeps_next_hop_address split: option.split)

lemma keeps_next_hops: "node \<in> N \<Longrightarrow> keeps B N (next_hops Q af node nh)"
  by (auto simp: next_hops_def intro!: keeps_skip keeps_loop keeps_outgoing_interface keeps_next_hop_address keeps_list_hop
      split: next_hop_kind.split)

lemma keeps_destination: "node \<in> N \<Longrightarrow> keeps B N (destination_prefix Q af node dst)"
  by (auto simp: destination_prefix_def intro!: keeps_skip keeps_leaf)

lemma keeps_report_route: "node \<in> N \<Longrightarrow> keeps B N (report_route Q af node dst r)"
  by (auto simp: report_route_def intro!: keeps_new keeps_leaf keeps_seq keeps_next_hops keeps_destination keeps_skip)

lemma keeps_report_rib: "Parent \<in> N \<Longrightarrow> keeps B N (report_rib Q b)"
  by (auto simp: report_rib_def intro!: keeps_new keeps_loop keeps_report_route)

lemma rib_routes_scoped:
  assumes "oper_get_rib_routes_cb Q [] = Ret (e, log)"
  shows "scoped_from 0 {Parent} log"
proof -
  have "keeps {Parent} {Parent} (rloop (report_rib Q) ribs)" for ribs by (intro keeps_loop keeps_report_rib) simp
  moreover have s: "scoped_from 0 {Parent} []" by (simp add: scoped_from_def)
  ultimately have run: "rloop (report_rib Q) ribs e1 [] = Ret (r, log') \<Longrightarrow> scoped_from 0 {Parent} log'" for ribs e1 r log'
    using keepsD [of "{Parent}" "{Parent}" "rloop (report_rib Q) ribs" 0 "[]"] by (auto simp: valid_ref_def)
  show ?thesis
    using assms s
    by (auto simp: oper_get_rib_routes_cb_def obind_eq_Ret split: if_splits dest: run)
qed

text \<open>Without a parent the interfaces of the other getter are not created below the node that was made for
  them.\<close>

lemma interfaces_without_parent:
  assumes "\<not> iq_parent Q" "iq_context Q" "iq_socket Q" "iq_connect Q = 0" "iq_link_cache Q = 0" "accepts_all (iq_create Q)"
  shows "oper_get_interfaces_cb Q [] = Ret (0, New_path Root (iq_request_xpath Q) None
    # map (\<lambda>name. New_path Root ''/ietf-routing:routing/interfaces/interface'' (Some name)) (iq_names Q))"
proof -
  have "does (rloop (\<lambda>name. rnew (iq_create Q) (New_path Root ''/ietf-routing:routing/interfaces/interface'' (Some name)) (\<lambda>_. rskip)) (iq_names Q))
      (loop_plan (\<lambda>name b. [New_path Root ''/ietf-routing:routing/interfaces/interface'' (Some name)]) (iq_names Q)) (\<exists>x\<in>set (iq_names Q). False)"
    by (intro does_loop does_new [OF assms(6)] does_skip)
  moreover have "loop_plan (\<lambda>name b. [f name]) xs b = map f xs" for f :: "cstr \<Rightarrow> rt_call" and xs b
    by (induction xs arbitrary: b) simp_all
  ultimately show ?thesis
    using assms by (auto simp: oper_get_interfaces_cb_def rnew_def accepts_all_def does_def)
qed

section \<open>Properties\<close>

text \<open>C8. The routes of the tables are reported as they were collected, table by table and prefix by prefix, each
  route with its nodes; but as soon as one route of the system has next hops that are reported as a
  list, the whole query fails: the length of the list's path stays in the error variable.\<close>

theorem rib_routes_reported:
  assumes "ready Q" "\<forall>r\<in>set (oq_routes Q). links_known (oq_rib Q) r"
  shows "\<exists>ribs. routing_collect_routes (oq_rib Q) (oq_routes Q) [] = Ret (0, ribs)
    \<and> oper_get_rib_routes_cb Q log = Ret (
        if \<exists>r\<in>set (oq_routes Q). multipath (route_of (oq_rib Q) r) then SR_ERR_CALLBACK_FAILED else 0,
        log @ loop_plan (rib_plan Q) ribs (length log))"
proof -
  let ?E = "oq_rib Q" and ?rs = "oq_routes Q"
  obtain ribs where c: "routing_collect_routes ?E ?rs [] = Ret (0, ribs)" "rib_key ` set ribs = rib_of ?E ` set ?rs"
    "\<forall>b\<in>set ribs. distinct (map re_prefix (rib_routes_head b))
         \<and> (\<forall>p. routes_at (rib_routes_head b) p = mark_active (routes_for ?E ?rs (rib_key b) p))"
    using collected_routes [OF assms(2)] by blast
  have hops: "(\<Union>b\<in>set ribs. rib_hops b) = next_hop_of ?E ` set ?rs" using collected_hops [OF c(2,3)] .
  let ?m = "\<exists>b\<in>set ribs. \<exists>e\<in>set (rib_routes_head b). \<exists>r\<in>set (re_routes e). multipath r"
  have "hops_linked Q h" if "h \<in> (\<Union>b\<in>set ribs. rib_hops b)" for h
    using that assms(1) hops_linked_next_hop_of unfolding hops ready_def by blast
  then have "does (rloop (report_rib Q) ribs) (loop_plan (rib_plan Q) ribs) ?m"
    using assms(1) by (intro does_loop does_rib) (auto simp: ready_def rib_hops_def)
  then obtain e where e: "rloop (report_rib Q) ribs 0 log = Ret (Some e, log @ loop_plan (rib_plan Q) ribs (length log))"
    "if ?m then 0 < e else e = 0"
    unfolding does_def by blast
  have "?m = (\<exists>h\<in>\<Union>b\<in>set ribs. rib_hops b. nh_kind h = kind_list \<and> nh_list h \<noteq> [])"
    by (auto simp: rib_hops_def multipath_def)
  then have "?m = (\<exists>r\<in>set ?rs. multipath (route_of ?E r))" by (simp only: hops) (simp add: multipath_def route_of_def)
  then have "(e = 0) = (\<not> (\<exists>r\<in>set ?rs. multipath (route_of ?E r)))" using e(2) by (simp split: if_splits)
  then show ?thesis
    using c(1) e(1) assms(1) by (intro exI [of _ ribs]) (simp add: oper_get_rib_routes_cb_def ready_def)
qed

text \<open>A system with one route over two gateways.\<close>

definition demo_multipath :: nl_route where
  "demo_multipath = (demo_route 5)\<lparr>nr_nexthops := [\<lparr> nn_ifindex = 2, nn_gateway = None \<rparr>, \<lparr> nn_ifindex = 2, nn_gateway = Some demo_prefix \<rparr>]\<rparr>"

definition demo_query :: rib_query where
  "demo_query = \<lparr> oq_socket = True, oq_connect = 0, oq_route_cache = 0, oq_link_cache = 0, oq_table_names = 0, oq_protocol_names = 0,
     oq_routes = [demo_route 5, demo_multipath], oq_rib = demo_rib_env, oq_uv4mod = True, oq_uv6mod = True, oq_create = (\<lambda>_ _. 0) \<rparr>"

lemma demo_query_ready: "ready demo_query" "\<forall>r\<in>set (oq_routes demo_query). links_known (oq_rib demo_query) r"
  by (simp_all add: ready_def demo_query_def accepts_all_def demo_multipath_def demo_route_def demo_rib_env_def links_known_def special_name_def)

lemma demo_query_multipath: "\<exists>r\<in>set (oq_routes demo_query). multipath (route_of (oq_rib demo_query) r)"
  by (simp add: demo_query_def multipath_def route_of_def next_hop_of_def demo_multipath_def demo_route_def special_name_def
      hops_of_def hop_read_def demo_rib_env_def)

theorem rib_routes_reported_witness:
  "\<exists>log. oper_get_rib_routes_cb demo_query [] = Ret (SR_ERR_CALLBACK_FAILED, log)"
  using rib_routes_reported [OF demo_query_ready, of "[]"] demo_query_multipath by auto

end
