(* ===== verification/RtStartup.thy ===== *)
theory RtStartup
  imports RtOper
begin

text \<open>
  The initial data of the routing plugin, \<^verbatim>\<open>routing/startup.c\<close>: the routing tables, the control
  plane protocols and the static routes of the system are written into a tree, which is merged into
  the running datastore.
\<close>

section \<open>What the libraries answer\<close>

text \<open>\<^verbatim>\<open>sv_context\<close> is the context acquired by the n-th of the three functions; the next six fields are for
  the tables, the next three for the protocols and the five from \<^verbatim>\<open>sv_static_socket\<close> on for the static
  routes.  Tables and static routes are read from two caches, which may differ.\<close>

record startup_env =
  sv_context :: "nat \<Rightarrow> bool"
  sv_ribs_socket :: bool
  sv_ribs_connect :: int
  sv_ribs_cache :: int
  sv_ribs_table_names :: int
  sv_ribs_protocol_names :: int
  sv_ribs_routes :: "nl_route list"
  sv_table_names :: int
  sv_protocol_names :: int
  sv_proto2str :: "int \<Rightarrow> cstr"
  sv_static_socket :: bool
  sv_static_connect :: int
  sv_static_cache :: int
  sv_static_link_cache :: int
  sv_routes :: "nl_route list"
  sv_rib :: rib_env
  sv_create :: rt_ly

section \<open>Routing tables\<close>

definition rib_list_path :: "rib \<Rightarrow> cstr" where
  "rib_list_path b = cbuf PATH_MAX (''/ietf-routing:routing/ribs/rib[name='' @ [CHR 39]
     @ family_name (rib_address_family b) @ ''-'' @ rib_name b @ [CHR 39] @ '']'')"

definition load_rib :: "startup_env \<Rightarrow> ly_ref \<Rightarrow> rib \<Rightarrow> rt_code" where
  "load_rib V ribs_node b =
    rnew (sv_create V) (New_path ribs_node (rib_list_path b) None) (\<lambda>rib_node.
    rnew (sv_create V) (New_path rib_node ''address-family'' (Some (family_name (rib_address_family b)))) (\<lambda>_.
    if rib_description b \<noteq> [] then rnew (sv_create V) (New_path rib_node ''description'' (Some (rib_description b))) (\<lambda>_. rskip)
    else rskip))"

definition routing_startup_load_ribs :: "startup_env \<Rightarrow> ly_ref \<Rightarrow> rt_log \<Rightarrow> (int \<times> rt_log) outcome" where
  "routing_startup_load_ribs V routing_container_node log =
    (if \<not> sv_context V 1 then Ret (-1, log)
     else if \<not> sv_ribs_socket V then Ret (-1, log)
     else if sv_ribs_connect V \<noteq> 0 then Ret (-1, log)
     else if sv_ribs_cache V \<noteq> 0 then Ret (-1, log)
     else if sv_ribs_table_names V \<noteq> 0 then Ret (-1, log)
     else if sv_ribs_protocol_names V \<noteq> 0 then Ret (-1, log) else
     obind (routing_collect_ribs (sv_rib V) (sv_ribs_routes V) []) (\<lambda>(e1, ribs).
     if e1 \<noteq> 0 then Ret (-1, log) else
     obind (rnew (sv_create V) (New_path routing_container_node ''/ietf-routing:routing/ribs'' None)
         (\<lambda>ribs_node. rloop (load_rib V ribs_node) ribs) e1 log) (\<lambda>(r, log').
     Ret (case r of None \<Rightarrow> -1 | Some e \<Rightarrow> e, log'))))"

section \<open>Protocols\<close>

text \<open>The known protocols, with the numbers of \<^verbatim>\<open>linux/rtnetlink.h\<close>.\<close>

definition known_protocols :: "(int \<times> cstr) list" where
  "known_protocols =
    [(0, ''unspecified protocol''), (1, ''redirect protocol''), (2, ''kernel protocol''), (3, ''boot protocol''),
     (RTPROT_STATIC, ''static protocol''), (8, ''gated protocol''), (9, ''ra protocol''), (10, ''mrt protocol''),
     (11, ''zebra protocol''), (12, ''bird protocol''), (13, ''dnrouted protocol''), (14, ''xorp protocol''),
     (15, ''ntk protocol''), (16, ''dhcp protocol''), (17, ''mrouted protocol''), (42, ''babel protocol''),
     (186, ''bgp protocol''), (187, ''isis protocol''), (188, ''ospf protocol''), (189, ''rip protocol''), (192, ''eigrp protocol'')]"

definition routing_is_proto_type_known :: "int \<Rightarrow> bool" where
  "routing_is_proto_type_known type = (type \<in> {0, 1, 2, 3, RTPROT_STATIC, 8, 9, 10, 11, 12, 13, 14, 15, 16, 17, 42, 186, 187, 188, 189, 192})"

definition known_types_map :: "int \<Rightarrow> cstr option" where
  "known_types_map i = (if i \<in> fst ` set known_protocols then Some (protocol_name i) else None)"

definition build_proto :: "(int \<Rightarrow> cstr) \<Rightarrow> nat \<Rightarrow> control_plane_protocol \<Rightarrow> control_plane_protocol" where
  "build_proto proto2str i c = (if routing_is_proto_type_known (int i)
     then c\<lparr>cp_name := cbuf 32 (proto2str (int i)), cp_type := known_types_map (int i),
       cp_description := map_of known_protocols (int i), cp_initialized := 1\<rparr>
     else c)"

abbreviation ROUTING_PROTOS_COUNT :: nat where "ROUTING_PROTOS_COUNT \<equiv> 256"

definition zero_protocol :: control_plane_protocol where
  "zero_protocol = \<lparr> cp_type = None, cp_description = None, cp_name = [], cp_initialized = 0 \<rparr>"

definition routing_build_protos_map :: "(int \<Rightarrow> cstr) \<Rightarrow> control_plane_protocol list \<Rightarrow> int \<times> control_plane_protocol list" where
  "routing_build_protos_map proto2str m = (0, map (\<lambda>(i, c). build_proto proto2str i c) (enumerate 0 m))"

section \<open>Static routes of the system\<close>

fun collect_static_loop :: "rib_env \<Rightarrow> nl_route list \<Rightarrow> route \<Rightarrow> route_hash \<times> route_hash \<Rightarrow> (route_hash \<times> route_hash) outcome" where
  "collect_static_loop E [] tmp_route heads = Ret heads"
| "collect_static_loop E (r # rs) tmp_route heads =
    (if nr_protocol r = RTPROT_STATIC then
       let t1 = route_set_preference (route_init tmp_route) (nr_priority r)
       in obind (collect_next_hops E r (rt_next_hop t1)) (\<lambda>nh.
         let t2 = route_set_source_protocol (t1\<lparr>rt_next_hop := nh\<rparr>) (Some ''ietf-routing:static'')
         in obind
           (if nr_family r = AF_INET4 then
              obind (route_list_hash_add (fst heads) (nr_dst r) t2) (\<lambda>h. Ret (h, snd heads))
            else if nr_family r = AF_INET_6 then
              obind (route_list_hash_add (snd heads) (nr_dst r) t2) (\<lambda>h. Ret (fst heads, h))
            else Ret heads)
           (collect_static_loop E rs (route_free t2)))
     else collect_static_loop E rs tmp_route heads)"

definition routing_startup_collect_static_routes ::
    "startup_env \<Rightarrow> route_hash \<times> route_hash \<Rightarrow> (int \<times> route_hash \<times> route_hash) outcome" where
  "routing_startup_collect_static_routes V heads =
    (if \<not> sv_static_socket V then Ret (-1, heads)
     else if sv_static_connect V \<noteq> 0 then Ret (-1, heads)
     else if sv_static_cache V \<noteq> 0 then Ret (-1, heads)
     else if sv_static_link_cache V \<noteq> 0 then Ret (-1, heads)
     else obind (collect_static_loop (sv_rib V) (sv_routes V) zero_route heads) (\<lambda>h. Ret (0, h)))"

section \<open>Writing the static routes\<close>

definition startup_address :: "rt_ly \<Rightarrow> ly_module \<Rightarrow> ly_ref \<Rightarrow> nl_addr option \<Rightarrow> rt_code" where
  "startup_address Y M node addr = (case addr of
       None \<Rightarrow> rskip
     | Some a \<Rightarrow> rnew Y (New_term node M ''next-hop-address'' (cbuf 46 (na_text a))) (\<lambda>_. rskip))"

definition startup_interface :: "rt_ly \<Rightarrow> ly_module \<Rightarrow> ly_ref \<Rightarrow> cstr option \<Rightarrow> rt_code" where
  "startup_interface Y M node nm = (case nm of
       None \<Rightarrow> rskip
     | Some s \<Rightarrow> rnew Y (New_term node M ''outgoing-interface'' s) (\<lambda>_. rskip))"

text \<open>\<^verbatim>\<open>snprintf\<close> leaves the length of the path in \<^verbatim>\<open>error\<close>; \<^verbatim>\<open>prefix\<close> is the path up to the number.\<close>

definition startup_hop_path :: "cstr \<Rightarrow> next_hop_simple \<Rightarrow> cstr" where
  "startup_hop_path prefix h = prefix @ dec_int (hs_ifindex h) @ '']''"

definition startup_list_hop :: "rt_ly \<Rightarrow> ly_module \<Rightarrow> cstr \<Rightarrow> ly_ref \<Rightarrow> next_hop_simple \<Rightarrow> rt_code" where
  "startup_list_hop Y M prefix nh_node h =
    rset (int (length (startup_hop_path prefix h))) (
    rnew Y (New_any nh_node M (cbuf 256 (startup_hop_path prefix h))) (\<lambda>nh_list_node.
    rseq (startup_address Y M nh_list_node (hs_addr h)) (startup_interface Y M nh_list_node (hs_if_name h))))"

definition startup_next_hop :: "rt_ly \<Rightarrow> ly_module \<Rightarrow> cstr \<Rightarrow> ly_ref \<Rightarrow> next_hop \<Rightarrow> rt_code" where
  "startup_next_hop Y M prefix nh_node nh =
    (case nh_kind nh of
       kind_none \<Rightarrow> rskip
     | kind_simple \<Rightarrow> rseq (startup_address Y M nh_node (hs_addr (nh_simple nh))) (startup_interface Y M nh_node (hs_if_name (nh_simple nh)))
     | kind_special \<Rightarrow> rskip
     | kind_list \<Rightarrow> rloop (startup_list_hop Y M prefix nh_node) (nh_list nh))"

definition route_list_path :: "nl_addr \<Rightarrow> cstr" where
  "route_list_path dst = cbuf PATH_MAX (''route[destination-prefix='' @ [CHR 34] @ prefix_buffer dst @ [CHR 34] @ '']'')"

text \<open>Only the first route of a prefix is written.\<close>

definition startup_route :: "rt_ly \<Rightarrow> ly_module \<Rightarrow> cstr \<Rightarrow> ly_ref \<Rightarrow> route_entry \<Rightarrow> rt_code" where
  "startup_route Y M prefix container e =
    (case re_routes e of
       [] \<Rightarrow> rundef
     | r # _ \<Rightarrow>
         rnew Y (New_path container (route_list_path (re_prefix e)) None) (\<lambda>route_node.
         rseq (case rt_description r of None \<Rightarrow> rskip
           | Some d \<Rightarrow> rnew Y (New_term route_node M ''description'' d) (\<lambda>_. rskip)) (
         rnew Y (New_inner route_node M ''next-hop'') (\<lambda>nh_node. startup_next_hop Y M prefix nh_node (rt_next_hop r)))))"

text \<open>The path of the IPv4 list has a stray bracket.\<close>

definition startup_ipv4_route :: "rt_ly \<Rightarrow> ly_ref \<Rightarrow> route_entry \<Rightarrow> rt_code" where
  "startup_ipv4_route Y = startup_route Y Uv4 ''next-hop/next-hop-list]/next-hop[index=''"

definition startup_ipv6_route :: "rt_ly \<Rightarrow> ly_ref \<Rightarrow> route_entry \<Rightarrow> rt_code" where
  "startup_ipv6_route Y = startup_route Y Uv6 ''next-hop/next-hop-list/next-hop[index=''"

definition startup_static_routes :: "rt_ly \<Rightarrow> route_hash \<Rightarrow> route_hash \<Rightarrow> ly_ref \<Rightarrow> rt_code" where
  "startup_static_routes Y ipv4_head ipv6_head cpp_list_node =
    rnew Y (New_path cpp_list_node ''static-routes'' None) (\<lambda>static_routes_container_node.
    rnew Y (New_inner static_routes_container_node Uv4 ''ipv4'') (\<lambda>ipv4_container_node.
    rnew Y (New_inner static_routes_container_node Uv6 ''ipv6'') (\<lambda>ipv6_container_node.
    rseq (rloop (startup_ipv4_route Y ipv4_container_node) ipv4_head)
      (rloop (startup_ipv6_route Y ipv6_container_node) ipv6_head))))"

section \<open>The protocols and the whole tree\<close>

definition proto_path :: "control_plane_protocol \<Rightarrow> cstr option" where
  "proto_path c = (case cp_type c of None \<Rightarrow> None
     | Some t \<Rightarrow> Some (cbuf PATH_MAX (''/ietf-routing:routing/control-plane-protocols/control-plane-protocol[type='' @ [CHR 34] @ t @ [CHR 34]
         @ ''][name='' @ [CHR 34] @ cp_name c @ [CHR 34] @ '']'')))"

definition load_proto :: "rt_ly \<Rightarrow> route_hash \<Rightarrow> route_hash \<Rightarrow> ly_ref \<Rightarrow> control_plane_protocol \<Rightarrow> rt_code" where
  "load_proto Y ipv4_head ipv6_head cpp_container_node c =
    (if cp_initialized c = 0 then rskip else
     case proto_path c of None \<Rightarrow> rundef | Some path \<Rightarrow>
     rnew Y (New_path cpp_container_node path None) (\<lambda>cpp_list_node.
     rnew Y (New_path cpp_list_node ''description'' (cp_description c)) (\<lambda>_.
     if take 6 (cp_name c) = ''static'' then startup_static_routes Y ipv4_head ipv6_head cpp_list_node else rskip)))"

definition routing_startup_load_control_plane_protocols :: "startup_env \<Rightarrow> ly_ref \<Rightarrow> rt_log \<Rightarrow> (int \<times> rt_log) outcome" where
  "routing_startup_load_control_plane_protocols V routing_container_node log =
    (if \<not> sv_context V 2 then Ret (1, log)
     else if sv_table_names V \<noteq> 0 then Ret (1, log)
     else if sv_protocol_names V \<noteq> 0 then Ret (1, log) else
     (case routing_build_protos_map (sv_proto2str V) (replicate ROUTING_PROTOS_COUNT zero_protocol) of (e1, cpp_map) \<Rightarrow>
     if e1 \<noteq> 0 then Ret (1, log) else
     obind (routing_startup_collect_static_routes V ([], [])) (\<lambda>(e2, ipv4_head, ipv6_head).
     if e2 \<noteq> 0 then Ret (1, log) else
     obind (rnew (sv_create V) (New_path routing_container_node ''/ietf-routing:routing/control-plane-protocols'' None)
         (\<lambda>cpp_container_node. rloop (load_proto (sv_create V) ipv4_head ipv6_head cpp_container_node) cpp_map) e2 log) (\<lambda>(r, log').
     Ret (case r of None \<Rightarrow> 1 | Some e \<Rightarrow> e, log')))))"

section \<open>Loading\<close>

text \<open>The calls of sysrepo that the plugin makes, and their answers.  The tree that is edited in is the list of
  the calls that built it; the configuration is copied with the startup session or without one.\<close>

datatype sr_request =
    Start_startup_session
  | Edit_batch rt_log
  | Apply_changes
  | Copy_config bool
  | Subscribe_protocols
  | Subscribe_interfaces
  | Subscribe_ribs
  | Subscribe_active_route
  | Stop_session

type_synonym sr_calls = "sr_request list"

type_synonym sr_answers = "sr_calls \<Rightarrow> sr_request \<Rightarrow> int"

definition routing_startup_load_data :: "startup_env \<Rightarrow> sr_answers \<Rightarrow> sr_calls \<Rightarrow> (int \<times> sr_calls) outcome" where
  "routing_startup_load_data V A calls =
    (if \<not> sv_context V 0 then Ret (0, calls)
     else if sv_create V [] (New_path Root ''/ietf-routing:routing'' None) \<noteq> 0 then Ret (0, calls) else
     obind (routing_startup_load_ribs V (Created 0) [New_path Root ''/ietf-routing:routing'' None]) (\<lambda>(e1, log1).
     if e1 \<noteq> 0 then Ret (e1, calls) else
     obind (routing_startup_load_control_plane_protocols V (Created 0) log1) (\<lambda>(e2, log2).
     if e2 \<noteq> 0 then Ret (e2, calls) else
     let e3 = A calls (Edit_batch log2); calls1 = calls @ [Edit_batch log2]
     in if e3 \<noteq> 0 then Ret (e3, calls1)
        else Ret (A calls1 Apply_changes, calls1 @ [Apply_changes]))))"

section \<open>Lemmas: nodes are used after they are created\<close>

lemma startup_paths_inner [simp]: "rib_list_path b \<notin> null_leaves" "route_list_path dst \<notin> null_leaves"
  "proto_path c = Some path \<Longrightarrow> path \<notin> null_leaves"
  by (auto simp: rib_list_path_def route_list_path_def proto_path_def cbuf_def split: option.splits)

lemma keeps_load_rib: "node \<in> N \<Longrightarrow> keeps B N (load_rib V node b)"
  by (auto simp: load_rib_def intro!: keeps_new keeps_leaf keeps_skip)

lemma keeps_startup_address: "node \<in> N \<Longrightarrow> keeps B N (startup_address Y M node addr)"
  by (auto simp: startup_address_def intro!: keeps_skip keeps_leaf split: option.split)

lemma keeps_startup_interface: "node \<in> N \<Longrightarrow> keeps B N (startup_interface Y M node nm)"
  by (auto simp: startup_interface_def intro!: keeps_skip keeps_leaf split: option.split)

lemma keeps_startup_next_hop: "node \<in> N \<Longrightarrow> keeps B N (startup_next_hop Y M prefix node nh)"
  by (auto simp: startup_next_hop_def startup_list_hop_def intro!: keeps_skip keeps_loop keeps_set keeps_new keeps_seq
      keeps_startup_address keeps_startup_interface split: next_hop_kind.split)

lemma keeps_startup_route: "node \<in> N \<Longrightarrow> keeps B N (startup_route Y M prefix node e)"
  by (auto simp: startup_route_def intro!: keeps_undef keeps_skip keeps_new keeps_leaf keeps_seq keeps_startup_next_hop
      split: list.split option.split)

lemma keeps_static_routes: "node \<in> N \<Longrightarrow> keeps B N (startup_static_routes Y h4 h6 node)"
  by (auto simp: startup_static_routes_def startup_ipv4_route_def startup_ipv6_route_def
      intro!: keeps_new keeps_seq keeps_loop keeps_startup_route)

lemma keeps_load_proto: "node \<in> N \<Longrightarrow> keeps B N (load_proto Y h4 h6 node c)"
  by (auto simp: load_proto_def intro!: keeps_skip keeps_undef keeps_new keeps_leaf keeps_static_routes split: option.split)

lemma load_ribs_scoped:
  assumes "scoped_from i B log" "valid_ref B log node" "routing_startup_load_ribs V node log = Ret (e, log')"
  shows "scoped_from i B log' \<and> (\<exists>ext. log' = log @ ext)"
proof -
  have k: "keeps B {node} (rnew (sv_create V) (New_path node ''/ietf-routing:routing/ribs'' None)
      (\<lambda>n. rloop (load_rib V n) ribs))" for ribs
    by (auto intro!: keeps_new keeps_loop keeps_load_rib)
  have "rnew (sv_create V) (New_path node ''/ietf-routing:routing/ribs'' None) (\<lambda>n. rloop (load_rib V n) ribs) e1 log = Ret (r, l)
      \<Longrightarrow> scoped_from i B l \<and> (\<exists>ext. l = log @ ext)" for ribs e1 r l
    using keepsD [OF k assms(1)] assms(2) by blast
  then show ?thesis
    using assms(1,3) by (auto simp: routing_startup_load_ribs_def obind_eq_Ret split: if_splits)
qed

lemma load_protocols_scoped:
  assumes "scoped_from i B log" "valid_ref B log node" "routing_startup_load_control_plane_protocols V node log = Ret (e, log')"
  shows "scoped_from i B log' \<and> (\<exists>ext. log' = log @ ext)"
proof -
  have k: "keeps B {node} (rnew (sv_create V) (New_path node ''/ietf-routing:routing/control-plane-protocols'' None)
      (\<lambda>n. rloop (load_proto (sv_create V) h4 h6 n) cpps))" for h4 h6 cpps
    by (auto intro!: keeps_new keeps_loop keeps_load_proto)
  have "rnew (sv_create V) (New_path node ''/ietf-routing:routing/control-plane-protocols'' None)
      (\<lambda>n. rloop (load_proto (sv_create V) h4 h6 n) cpps) e1 log = Ret (r, l)
      \<Longrightarrow> scoped_from i B l \<and> (\<exists>ext. l = log @ ext)" for h4 h6 cpps e1 r l
    using keepsD [OF k assms(1)] assms(2) by blast
  then show ?thesis
    using assms(1,3)
    by (auto simp: routing_startup_load_control_plane_protocols_def obind_eq_Ret split: if_splits prod.splits)
qed

text \<open>Loading makes no call of sysrepo, or edits a tree in and then applies the changes.\<close>

lemma load_data_calls:
  assumes "routing_startup_load_data V A calls = Ret (e, calls')"
  shows "calls' = calls \<or> (\<exists>log. scoped_tree log \<and> hd log = New_path Root ''/ietf-routing:routing'' None
    \<and> (calls' = calls @ [Edit_batch log] \<and> e \<noteq> 0 \<or> calls' = calls @ [Edit_batch log, Apply_changes]))"
proof -
  let ?root = "[New_path Root ''/ietf-routing:routing'' None]"
  have r: "scoped_from 1 {} ?root" "valid_ref {} ?root (Created 0)" by (simp_all add: scoped_from_def valid_ref_def)
  consider (none) "calls' = calls"
    | (sent) log1 log2 where "routing_startup_load_ribs V (Created 0) ?root = Ret (0, log1)"
      "routing_startup_load_control_plane_protocols V (Created 0) log1 = Ret (0, log2)"
      "calls' = calls @ [Edit_batch log2] \<and> e \<noteq> 0 \<or> calls' = calls @ [Edit_batch log2, Apply_changes]"
    using assms by (auto simp: routing_startup_load_data_def obind_eq_Ret Let_def split: if_splits)
  then show ?thesis
  proof cases
    case sent
    obtain ext1 where l1: "scoped_from 1 {} log1" "log1 = ?root @ ext1" using load_ribs_scoped [OF r sent(1)] by blast
    have "valid_ref {} log1 (Created 0)" using valid_ref_append [OF r(2)] l1(2) by blast
    then obtain ext2 where "scoped_from 1 {} log2" "log2 = log1 @ ext2" using load_protocols_scoped [OF l1(1) _ sent(2)] by blast
    then show ?thesis using sent(3) l1(2) by (intro disjI2 exI [of _ log2]) (auto simp: scoped_tree_def)
  qed simp
qed

section \<open>Lemmas: the calls when every node can be created\<close>

definition s_address_plan :: "ly_module \<Rightarrow> ly_ref \<Rightarrow> nl_addr option \<Rightarrow> rt_call list" where
  "s_address_plan M node addr = (case addr of None \<Rightarrow> [] | Some a \<Rightarrow> [New_term node M ''next-hop-address'' (cbuf 46 (na_text a))])"

definition s_interface_plan :: "ly_module \<Rightarrow> ly_ref \<Rightarrow> cstr option \<Rightarrow> rt_call list" where
  "s_interface_plan M node nm = (case nm of None \<Rightarrow> [] | Some s \<Rightarrow> [New_term node M ''outgoing-interface'' s])"

definition s_list_hop_plan :: "ly_module \<Rightarrow> cstr \<Rightarrow> ly_ref \<Rightarrow> next_hop_simple \<Rightarrow> nat \<Rightarrow> rt_call list" where
  "s_list_hop_plan M prefix nh_node h b = New_any nh_node M (cbuf 256 (startup_hop_path prefix h))
     # s_address_plan M (Created b) (hs_addr h) @ s_interface_plan M (Created b) (hs_if_name h)"

definition s_next_hop_plan :: "ly_module \<Rightarrow> cstr \<Rightarrow> ly_ref \<Rightarrow> next_hop \<Rightarrow> nat \<Rightarrow> rt_call list" where
  "s_next_hop_plan M prefix nh_node nh b = (case nh_kind nh of
       kind_simple \<Rightarrow> s_address_plan M nh_node (hs_addr (nh_simple nh)) @ s_interface_plan M nh_node (hs_if_name (nh_simple nh))
     | kind_list \<Rightarrow> loop_plan (s_list_hop_plan M prefix nh_node) (nh_list nh) b
     | _ \<Rightarrow> [])"

definition s_description_plan :: "ly_module \<Rightarrow> ly_ref \<Rightarrow> cstr option \<Rightarrow> rt_call list" where
  "s_description_plan M node d = (case d of None \<Rightarrow> [] | Some s \<Rightarrow> [New_term node M ''description'' s])"

definition s_route_plan :: "ly_module \<Rightarrow> cstr \<Rightarrow> ly_ref \<Rightarrow> route_entry \<Rightarrow> nat \<Rightarrow> rt_call list" where
  "s_route_plan M prefix container e b =
    (let r = hd (re_routes e); ds = s_description_plan M (Created b) (rt_description r); n = Suc (b + length ds)
     in New_path container (route_list_path (re_prefix e)) None # ds
        @ New_inner (Created b) M ''next-hop'' # s_next_hop_plan M prefix (Created n) (rt_next_hop r) (Suc n))"

definition s_static_plan :: "route_hash \<Rightarrow> route_hash \<Rightarrow> ly_ref \<Rightarrow> nat \<Rightarrow> rt_call list" where
  "s_static_plan h4 h6 node b = New_path node ''static-routes'' None
     # New_inner (Created b) Uv4 ''ipv4'' # New_inner (Created b) Uv6 ''ipv6''
     # then_plan (loop_plan (s_route_plan Uv4 ''next-hop/next-hop-list]/next-hop[index='' (Created (Suc b))) h4)
         (loop_plan (s_route_plan Uv6 ''next-hop/next-hop-list/next-hop[index='' (Created (Suc (Suc b)))) h6) (b + 3)"

definition is_static :: "control_plane_protocol \<Rightarrow> bool" where
  "is_static c = (cp_initialized c \<noteq> 0 \<and> take 6 (cp_name c) = ''static'')"

definition s_proto_plan :: "route_hash \<Rightarrow> route_hash \<Rightarrow> ly_ref \<Rightarrow> control_plane_protocol \<Rightarrow> nat \<Rightarrow> rt_call list" where
  "s_proto_plan h4 h6 node c b =
    (if cp_initialized c = 0 then []
     else New_path node (the (proto_path c)) None # New_path (Created b) ''description'' (cp_description c)
       # (if is_static c then s_static_plan h4 h6 (Created b) (b + 2) else []))"

text \<open>The routes that are written are the newest of their prefix.\<close>

definition written_multipath :: "route_hash \<Rightarrow> bool" where
  "written_multipath h = (\<exists>e\<in>set h. multipath (hd (re_routes e)))"

lemma does_leaf: "accepts_all Y \<Longrightarrow> does (rnew Y c (\<lambda>_. rskip)) (\<lambda>_. [c]) False"
  using does_new [OF _ does_skip] by blast

lemma does_startup_address: "accepts_all Y \<Longrightarrow> does (startup_address Y M node addr) (\<lambda>_. s_address_plan M node addr) False"
  by (auto simp: startup_address_def s_address_plan_def does_skip does_leaf split: option.split)

lemma does_startup_interface: "accepts_all Y \<Longrightarrow> does (startup_interface Y M node nm) (\<lambda>_. s_interface_plan M node nm) False"
  by (auto simp: startup_interface_def s_interface_plan_def does_skip does_leaf split: option.split)

lemma does_hop: "accepts_all Y \<Longrightarrow> does (rseq (startup_address Y M node addr) (startup_interface Y M node nm))
    (\<lambda>_. s_address_plan M node addr @ s_interface_plan M node nm) False"
  by (rule does_cong, rule does_seq [OF does_startup_address does_startup_interface]) (simp_all add: then_plan_def)

lemma does_startup_list_hop:
  assumes "accepts_all Y"
  shows "does (startup_list_hop Y M prefix nh_node h) (s_list_hop_plan M prefix nh_node h) True"
proof -
  have "does (rnew Y (New_any nh_node M (cbuf 256 (startup_hop_path prefix h))) (\<lambda>n.
      rseq (startup_address Y M n (hs_addr h)) (startup_interface Y M n (hs_if_name h)))) (s_list_hop_plan M prefix nh_node h) False"
    by (rule does_cong, rule does_new [OF assms], rule does_hop [OF assms]) (simp_all add: s_list_hop_plan_def)
  then show ?thesis unfolding startup_list_hop_def by (intro does_set) (simp_all add: startup_hop_path_def)
qed

lemma does_startup_next_hop:
  assumes "accepts_all Y"
  shows "does (startup_next_hop Y M prefix nh_node nh) (s_next_hop_plan M prefix nh_node nh) (nh_kind nh = kind_list \<and> nh_list nh \<noteq> [])"
proof (cases "nh_kind nh")
  case kind_list
  have "does (rloop (startup_list_hop Y M prefix nh_node) (nh_list nh)) (loop_plan (s_list_hop_plan M prefix nh_node) (nh_list nh))
      (\<exists>h\<in>set (nh_list nh). True)"
    using does_startup_list_hop assms by (intro does_loop)
  then show ?thesis
    unfolding startup_next_hop_def kind_list next_hop_kind.case
    by (rule does_cong) (simp_all add: s_next_hop_plan_def kind_list ex_in_conv)
qed (simp_all add: startup_next_hop_def s_next_hop_plan_def [abs_def] does_skip does_hop assms)

lemma does_startup_route:
  assumes "accepts_all Y" "re_routes e \<noteq> []"
  shows "does (startup_route Y M prefix container e) (s_route_plan M prefix container e) (multipath (hd (re_routes e)))"
proof -
  obtain r rs where r: "re_routes e = r # rs" using assms(2) by (cases "re_routes e") auto
  have d: "does (case rt_description r of None \<Rightarrow> rskip | Some d \<Rightarrow> rnew Y (New_term n M ''description'' d) (\<lambda>_. rskip))
      (\<lambda>_. s_description_plan M n (rt_description r)) False" for n
    using assms(1) by (auto simp: s_description_plan_def does_skip does_leaf split: option.split)
  show ?thesis
    unfolding startup_route_def r list.case
    by (rule does_cong, rule does_new [OF assms(1)], rule does_seq [OF d], rule does_new [OF assms(1)],
        rule does_startup_next_hop [OF assms(1)])
      (simp_all add: s_route_plan_def r then_plan_def multipath_def Let_def)
qed

lemma does_static_routes:
  assumes "accepts_all Y" "\<forall>e\<in>set h4 \<union> set h6. re_routes e \<noteq> []"
  shows "does (startup_static_routes Y h4 h6 node) (s_static_plan h4 h6 node) (written_multipath h4 \<or> written_multipath h6)"
proof -
  have l: "does (rloop (startup_route Y M prefix n) h) (loop_plan (s_route_plan M prefix n) h) (written_multipath h)"
    if "set h \<subseteq> set h4 \<union> set h6" for M prefix n h
    unfolding written_multipath_def using assms that by (intro does_loop does_startup_route) auto
  show ?thesis
    unfolding startup_static_routes_def startup_ipv4_route_def startup_ipv6_route_def
    by (rule does_cong, rule does_new [OF assms(1)], rule does_new [OF assms(1)], rule does_new [OF assms(1)],
        rule does_seq [OF l l]) (simp_all add: s_static_plan_def numeral_3_eq_3)
qed

lemma does_proto:
  assumes "accepts_all Y" "\<forall>e\<in>set h4 \<union> set h6. re_routes e \<noteq> []" "cp_initialized c \<noteq> 0 \<Longrightarrow> cp_type c \<noteq> None"
  shows "does (load_proto Y h4 h6 node c) (s_proto_plan h4 h6 node c) (is_static c \<and> (written_multipath h4 \<or> written_multipath h6))"
proof (cases "cp_initialized c = 0")
  case False
  then obtain p where p: "proto_path c = Some p" using assms(3) by (auto simp: proto_path_def)
  have s: "does (if take 6 (cp_name c) = ''static'' then startup_static_routes Y h4 h6 n else rskip)
      (\<lambda>b. if is_static c then s_static_plan h4 h6 n b else []) (is_static c \<and> (written_multipath h4 \<or> written_multipath h6))" for n
    using does_static_routes [OF assms(1,2)] does_skip False by (auto simp: is_static_def)
  show ?thesis
    unfolding load_proto_def p option.case if_not_P [OF False]
    by (rule does_cong, rule does_new [OF assms(1)], rule does_new [OF assms(1)], rule s) (simp_all add: s_proto_plan_def False p)
qed (simp add: load_proto_def s_proto_plan_def [abs_def] is_static_def does_skip)

section \<open>Lemmas: the static routes of the system\<close>

text \<open>The type of a route is not looked at here: every static route is read as one with gateways.\<close>

definition as_unicast :: "nl_route \<Rightarrow> nl_route" where
  "as_unicast r = r\<lparr>nr_type := 1\<rparr>"

definition static_for :: "rib_env \<Rightarrow> nl_route list \<Rightarrow> int \<Rightarrow> nl_addr \<Rightarrow> route list" where
  "static_for E rs family p =
    rev (map (\<lambda>r. route_of E (as_unicast r)) (filter (\<lambda>r. nr_protocol r = RTPROT_STATIC \<and> nr_family r = family \<and> nr_dst r = p) rs))"

definition holds_static :: "rib_env \<Rightarrow> nl_route list \<Rightarrow> int \<Rightarrow> route_hash \<Rightarrow> bool" where
  "holds_static E rs family h = (distinct (map re_prefix h) \<and> (\<forall>e\<in>set h. re_routes e \<noteq> [])
     \<and> (\<forall>p. routes_at h p = static_for E rs family p))"

lemma collect_next_hops_unicast: "collect_next_hops E r = collect_next_hop E (as_unicast r)"
  by (rule ext) (simp add: collect_next_hop_def as_unicast_def collect_next_hops_def)

lemma static_for_snoc: "static_for E (rs @ [r]) family p =
  (if nr_protocol r = RTPROT_STATIC \<and> nr_family r = family \<and> nr_dst r = p then route_of E (as_unicast r) # static_for E rs family p
   else static_for E rs family p)"
  by (simp add: static_for_def)

lemma holds_static_other:
  "holds_static E rs family h \<Longrightarrow> \<not> (nr_protocol r = RTPROT_STATIC \<and> nr_family r = family) \<Longrightarrow> holds_static E (rs @ [r]) family h"
  by (auto simp: holds_static_def static_for_snoc)

lemma static_route_collected:
  assumes "nr_protocol r = RTPROT_STATIC" "links_known E (as_unicast r)"
  shows "\<exists>t2. next_hop_names (rt_next_hop t2) \<and> route_copy t2 = route_of E (as_unicast r)
    \<and> (\<forall>rs heads. collect_static_loop E (r # rs) tmp heads = obind
           (if nr_family r = AF_INET4 then
              obind (route_list_hash_add (fst heads) (nr_dst r) t2) (\<lambda>h. Ret (h, snd heads))
            else if nr_family r = AF_INET_6 then
              obind (route_list_hash_add (snd heads) (nr_dst r) t2) (\<lambda>h. Ret (fst heads, h))
            else Ret heads)
           (collect_static_loop E rs (route_free t2)))"
proof -
  let ?t1 = "route_set_preference (route_init tmp) (nr_priority r)"
  have "nh_kind (rt_next_hop ?t1) = kind_none"
    by (simp add: route_set_preference_def route_init_def route_next_hop_init_def)
  then obtain nh where nh: "collect_next_hops E r (rt_next_hop ?t1) = Ret nh" "next_hop_names nh"
    "next_hop_copy nh = next_hop_of E (as_unicast r)"
    using collect_next_hop_ok [OF assms(2)] unfolding collect_next_hops_unicast by blast
  let ?t2 = "route_set_source_protocol (?t1\<lparr>rt_next_hop := nh\<rparr>) (Some ''ietf-routing:static'')"
  have "route_copy ?t2 = route_of E (as_unicast r)"
    by (simp add: route_copy_def route_of_def nh(3) route_set_source_protocol_def route_set_preference_def route_init_def
        zero_route_def assms(1) as_unicast_def protocol_name_def)
  moreover have "next_hop_names (rt_next_hop ?t2)" using nh(2) by (simp add: route_set_source_protocol_def)
  ultimately show ?thesis using nh(1) assms(1) by (intro exI [of _ ?t2]) (simp add: Let_def)
qed

lemma put_static:
  assumes "holds_static E rs family h" "next_hop_names (rt_next_hop t)" "route_copy t = route_of E (as_unicast r)"
    "nr_protocol r = RTPROT_STATIC" "nr_family r = family"
  shows "\<exists>h'. route_list_hash_add h (nr_dst r) t = Ret h' \<and> holds_static E (rs @ [r]) family h'"
proof -
  obtain h' where "route_list_hash_add h (nr_dst r) t = Ret h'" "distinct (map re_prefix h')" "\<forall>e\<in>set h'. re_routes e \<noteq> []"
    "\<And>q. routes_at h' q = (if q = nr_dst r then route_of E (as_unicast r) # routes_at h (nr_dst r) else routes_at h q)"
    using routes_at_put [OF assms(2), of h "nr_dst r"] assms(1,3) unfolding holds_static_def by auto
  then show ?thesis
    using assms(1,4,5) by (intro exI [of _ h']) (simp add: holds_static_def static_for_snoc)
qed

lemma collect_static_loop_ok:
  assumes "\<forall>r\<in>set tail. nr_protocol r = RTPROT_STATIC \<longrightarrow> links_known E (as_unicast r)"
    "holds_static E rs AF_INET4 h4" "holds_static E rs AF_INET_6 h6"
  shows "\<exists>h4' h6'. collect_static_loop E tail tmp (h4, h6) = Ret (h4', h6')
    \<and> holds_static E (rs @ tail) AF_INET4 h4' \<and> holds_static E (rs @ tail) AF_INET_6 h6'"
  using assms
proof (induction tail arbitrary: rs tmp h4 h6)
  case (Cons r tail)
  have step: "\<exists>t h4' h6'. collect_static_loop E (r # tail) tmp (h4, h6) = collect_static_loop E tail t (h4', h6')
    \<and> holds_static E (rs @ [r]) AF_INET4 h4' \<and> holds_static E (rs @ [r]) AF_INET_6 h6'"
  proof (cases "nr_protocol r = RTPROT_STATIC")
    case False
    then show ?thesis
      using Cons.prems(2,3) by (intro exI [of _ tmp] exI [of _ h4] exI [of _ h6]) (simp add: holds_static_other)
  next
    case True
    then obtain t where t: "next_hop_names (rt_next_hop t)" "route_copy t = route_of E (as_unicast r)"
      "\<And>rs heads. collect_static_loop E (r # rs) tmp heads = obind
           (if nr_family r = AF_INET4 then
              obind (route_list_hash_add (fst heads) (nr_dst r) t) (\<lambda>h. Ret (h, snd heads))
            else if nr_family r = AF_INET_6 then
              obind (route_list_hash_add (snd heads) (nr_dst r) t) (\<lambda>h. Ret (fst heads, h))
            else Ret heads)
           (collect_static_loop E rs (route_free t))"
      using static_route_collected [of r E tmp] Cons.prems(1) by auto
    consider (v4) "nr_family r = AF_INET4" | (v6) "nr_family r = AF_INET_6" | (other) "nr_family r \<noteq> AF_INET4" "nr_family r \<noteq> AF_INET_6"
      by blast
    then show ?thesis
    proof cases
      case v4
      obtain h' where h: "route_list_hash_add h4 (nr_dst r) t = Ret h'" "holds_static E (rs @ [r]) AF_INET4 h'"
        using put_static [OF Cons.prems(2) t(1,2) True v4] by blast
      moreover have "holds_static E (rs @ [r]) AF_INET_6 h6" by (rule holds_static_other [OF Cons.prems(3)]) (simp add: v4)
      ultimately show ?thesis
        by (intro exI [of _ "route_free t"] exI [of _ h'] exI [of _ h6]) (simp add: t(3) v4 del: collect_static_loop.simps)
    next
      case v6
      obtain h' where h: "route_list_hash_add h6 (nr_dst r) t = Ret h'" "holds_static E (rs @ [r]) AF_INET_6 h'"
        using put_static [OF Cons.prems(3) t(1,2) True v6] by blast
      moreover have "holds_static E (rs @ [r]) AF_INET4 h4" by (rule holds_static_other [OF Cons.prems(2)]) (simp add: v6)
      ultimately show ?thesis
        by (intro exI [of _ "route_free t"] exI [of _ h4] exI [of _ h']) (simp add: t(3) v6 del: collect_static_loop.simps)
    next
      case other
      then show ?thesis
        using Cons.prems(2,3) by (intro exI [of _ "route_free t"] exI [of _ h4] exI [of _ h6])
          (simp add: t(3) holds_static_other del: collect_static_loop.simps)
    qed
  qed
  then obtain t h4' h6' where s: "collect_static_loop E (r # tail) tmp (h4, h6) = collect_static_loop E tail t (h4', h6')"
    "holds_static E (rs @ [r]) AF_INET4 h4'" "holds_static E (rs @ [r]) AF_INET_6 h6'" by blast
  then show ?case using Cons.IH [of "rs @ [r]" h4' h6' t] Cons.prems(1) by auto
qed simp

lemma holds_static_empty: "holds_static E [] family []"
  by (simp add: holds_static_def static_for_def routes_at_def hash_find_def)

section \<open>Lemmas: the protocols\<close>

definition protos :: "startup_env \<Rightarrow> control_plane_protocol list" where
  "protos V = snd (routing_build_protos_map (sv_proto2str V) (replicate ROUTING_PROTOS_COUNT zero_protocol))"

lemma protos_run: "routing_build_protos_map (sv_proto2str V) (replicate ROUTING_PROTOS_COUNT zero_protocol) = (0, protos V)"
  by (simp add: protos_def routing_build_protos_map_def)

lemma known_protocols_keys: "fst ` set known_protocols = {0, 1, 2, 3, RTPROT_STATIC, 8, 9, 10, 11, 12, 13, 14, 15, 16, 17, 42, 186, 187, 188, 189, 192}"
  by (simp add: known_protocols_def)

lemma protos_nth:
  assumes "i < ROUTING_PROTOS_COUNT"
  shows "length (protos V) = ROUTING_PROTOS_COUNT \<and> protos V ! i = build_proto (sv_proto2str V) i zero_protocol"
  using assms by (simp add: protos_def routing_build_protos_map_def nth_enumerate_eq)

text \<open>A protocol is listed with its type and description exactly when it is known.\<close>

lemma protos_known:
  assumes "i < ROUTING_PROTOS_COUNT"
  shows "cp_initialized (protos V ! i) \<noteq> 0 \<longleftrightarrow> int i \<in> fst ` set known_protocols"
    and "cp_initialized (protos V ! i) \<noteq> 0 \<Longrightarrow> cp_type (protos V ! i) = Some (protocol_name (int i))
      \<and> cp_description (protos V ! i) \<noteq> None \<and> cp_name (protos V ! i) = cbuf 32 (sv_proto2str V (int i))"
proof -
  have k: "routing_is_proto_type_known (int i) = (int i \<in> fst ` set known_protocols)"
    by (simp only: routing_is_proto_type_known_def known_protocols_keys)
  show i: "cp_initialized (protos V ! i) \<noteq> 0 \<longleftrightarrow> int i \<in> fst ` set known_protocols"
    using protos_nth [OF assms] by (simp add: build_proto_def k zero_protocol_def)
  show "cp_type (protos V ! i) = Some (protocol_name (int i))
      \<and> cp_description (protos V ! i) \<noteq> None \<and> cp_name (protos V ! i) = cbuf 32 (sv_proto2str V (int i))"
    if "cp_initialized (protos V ! i) \<noteq> 0"
    using protos_nth [OF assms] that unfolding i by (simp add: build_proto_def k known_types_map_def map_of_eq_None_iff)
qed

lemma protos_typed: "c \<in> set (protos V) \<Longrightarrow> cp_initialized c \<noteq> 0 \<Longrightarrow> cp_type c \<noteq> None"
proof -
  assume c: "c \<in> set (protos V)" "cp_initialized c \<noteq> 0"
  obtain i where i: "i < length (protos V)" "c = protos V ! i" using c(1) by (auto simp: in_set_conv_nth)
  have "length (protos V) = ROUTING_PROTOS_COUNT" using protos_nth [of 0 V] by simp
  then show "cp_type c \<noteq> None" using protos_known(2) [of i V] i c(2) by simp
qed

section \<open>Properties\<close>

definition startup_ready :: "startup_env \<Rightarrow> bool" where
  "startup_ready V = (sv_context V 2 \<and> sv_table_names V = 0 \<and> sv_protocol_names V = 0 \<and> sv_static_socket V \<and> sv_static_connect V = 0
     \<and> sv_static_cache V = 0 \<and> sv_static_link_cache V = 0 \<and> accepts_all (sv_create V))"

text \<open>The newest static route of a prefix has several next hops.\<close>

definition newest_multipath :: "rib_env \<Rightarrow> nl_route list \<Rightarrow> int \<Rightarrow> bool" where
  "newest_multipath E rs family = (\<exists>r\<in>set rs. multipath (hd (static_for E rs family (nr_dst r))) \<and> static_for E rs family (nr_dst r) \<noteq> [])"

lemma written_multipath_eq:
  assumes "holds_static E rs family h"
  shows "written_multipath h = newest_multipath E rs family"
proof
  assume "written_multipath h"
  then obtain e where e: "e \<in> set h" "multipath (hd (re_routes e))" unfolding written_multipath_def by blast
  have s: "re_routes e = static_for E rs family (re_prefix e)"
    using routes_at_entry [OF _ e(1)] assms by (simp add: holds_static_def)
  then have n: "static_for E rs family (re_prefix e) \<noteq> []" using assms e(1) by (auto simp: holds_static_def)
  then obtain r where "r \<in> set rs" "nr_dst r = re_prefix e" by (auto simp: static_for_def filter_empty_conv)
  then show "newest_multipath E rs family" using e(2) n s unfolding newest_multipath_def by metis
next
  assume "newest_multipath E rs family"
  then obtain p where p: "multipath (hd (static_for E rs family p))" "static_for E rs family p \<noteq> []"
    unfolding newest_multipath_def by blast
  then have "routes_at h p = static_for E rs family p" using assms by (simp add: holds_static_def)
  then obtain e where e: "hash_find re_prefix p h = Some e" "re_routes e = static_for E rs family p"
    using p(2) by (cases "hash_find re_prefix p h") (simp_all add: routes_at_def)
  have "e \<in> set h" by (rule conjunct1 [OF hash_find_SomeD [OF e(1)]])
  then show "written_multipath h" using p(1) e(2) unfolding written_multipath_def by metis
qed

lemma load_protocols_run:
  assumes "startup_ready V" "\<forall>r\<in>set (sv_routes V). nr_protocol r = RTPROT_STATIC \<longrightarrow> links_known (sv_rib V) (as_unicast r)"
  shows "\<exists>h4 h6 e. holds_static (sv_rib V) (sv_routes V) AF_INET4 h4 \<and> holds_static (sv_rib V) (sv_routes V) AF_INET_6 h6
    \<and> routing_startup_load_control_plane_protocols V node log = Ret (e,
        log @ New_path node ''/ietf-routing:routing/control-plane-protocols'' None
          # loop_plan (s_proto_plan h4 h6 (Created (length log))) (protos V) (Suc (length log)))
    \<and> (e = 0) = (\<not> ((\<exists>c\<in>set (protos V). is_static c) \<and>
        (newest_multipath (sv_rib V) (sv_routes V) AF_INET4 \<or> newest_multipath (sv_rib V) (sv_routes V) AF_INET_6)))"
proof -
  let ?E = "sv_rib V" and ?rs = "sv_routes V"
  obtain h4 h6 where h: "collect_static_loop ?E ?rs zero_route ([], []) = Ret (h4, h6)"
    "holds_static ?E ?rs AF_INET4 h4" "holds_static ?E ?rs AF_INET_6 h6"
    using collect_static_loop_ok [OF assms(2) holds_static_empty holds_static_empty, of zero_route] unfolding append_Nil by blast
  let ?m = "written_multipath h4 \<or> written_multipath h6"
  have c: "routing_startup_collect_static_routes V ([], []) = Ret (0, h4, h6)"
    using assms(1) h(1) by (simp add: routing_startup_collect_static_routes_def startup_ready_def)
  have a: "accepts_all (sv_create V)" using assms(1) by (simp add: startup_ready_def)
  have "does (load_proto (sv_create V) h4 h6 n c) (s_proto_plan h4 h6 n c) (is_static c \<and> ?m)" if "c \<in> set (protos V)" for n c
    using h(2,3) protos_typed [OF that] by (intro does_proto [OF a]) (auto simp: holds_static_def)
  then have "does (rnew (sv_create V) (New_path node ''/ietf-routing:routing/control-plane-protocols'' None)
         (\<lambda>n. rloop (load_proto (sv_create V) h4 h6 n) (protos V)))
       (\<lambda>b. New_path node ''/ietf-routing:routing/control-plane-protocols'' None
          # loop_plan (s_proto_plan h4 h6 (Created b)) (protos V) (Suc b)) (\<exists>c\<in>set (protos V). is_static c \<and> ?m)"
    by (intro does_new [OF a] does_loop)
  then obtain e where e: "rnew (sv_create V) (New_path node ''/ietf-routing:routing/control-plane-protocols'' None)
         (\<lambda>n. rloop (load_proto (sv_create V) h4 h6 n) (protos V)) 0 log = Ret (Some e,
        log @ New_path node ''/ietf-routing:routing/control-plane-protocols'' None
          # loop_plan (s_proto_plan h4 h6 (Created (length log))) (protos V) (Suc (length log)))"
    "if \<exists>c\<in>set (protos V). is_static c \<and> ?m then 0 < e else e = 0"
    unfolding does_def by blast
  then have "(e = 0) = (\<not> ((\<exists>c\<in>set (protos V). is_static c) \<and> ?m))" by (auto split: if_splits)
  then show ?thesis
    using h(2,3) e(1) assms(1) written_multipath_eq [OF h(2)] written_multipath_eq [OF h(3)]
    by (intro exI [of _ h4] exI [of _ h6] exI [of _ e])
      (simp add: routing_startup_load_control_plane_protocols_def startup_ready_def protos_run c)
qed

text \<open>C7. When the plugin starts on an empty datastore, it writes for every protocol called static the static
  routes of the system, one per family and destination prefix, with the next hops of the newest
  route of the prefix; but when the newest route of some prefix has several next hops, the load
  ends with an error although every node was created: the length of a path stays in the error
  variable.\<close>

theorem static_routes_loaded:
  assumes "startup_ready V" "\<forall>r\<in>set (sv_routes V). nr_protocol r = RTPROT_STATIC \<longrightarrow> links_known (sv_rib V) (as_unicast r)"
  shows "\<exists>h4 h6 e. holds_static (sv_rib V) (sv_routes V) AF_INET4 h4 \<and> holds_static (sv_rib V) (sv_routes V) AF_INET_6 h6
    \<and> routing_startup_load_control_plane_protocols V node log = Ret (e,
        log @ New_path node ''/ietf-routing:routing/control-plane-protocols'' None
          # loop_plan (s_proto_plan h4 h6 (Created (length log))) (protos V) (Suc (length log)))
    \<and> (e = 0) = (\<not> ((\<exists>c\<in>set (protos V). is_static c) \<and>
        (newest_multipath (sv_rib V) (sv_routes V) AF_INET4 \<or> newest_multipath (sv_rib V) (sv_routes V) AF_INET_6)))"
  using load_protocols_run [OF assms] .

text \<open>A static route over two gateways, loaded after an older one over a single gateway.\<close>

definition demo_startup :: "nl_route list \<Rightarrow> startup_env" where
  "demo_startup rs = \<lparr> sv_context = (\<lambda>_. True), sv_ribs_socket = True, sv_ribs_connect = 0, sv_ribs_cache = 0, sv_ribs_table_names = 0,
     sv_ribs_protocol_names = 0, sv_ribs_routes = rs, sv_table_names = 0, sv_protocol_names = 0,
     sv_proto2str = (\<lambda>i. if i = RTPROT_STATIC then ''static'' else ''other''), sv_static_socket = True, sv_static_connect = 0,
     sv_static_cache = 0, sv_static_link_cache = 0, sv_routes = rs, sv_rib = demo_rib_env, sv_create = (\<lambda>_ _. 0) \<rparr>"

lemma demo_startup_ready:
  "startup_ready (demo_startup rs)"
  "\<forall>r\<in>set [demo_route 5, demo_multipath]. nr_protocol r = RTPROT_STATIC \<longrightarrow> links_known demo_rib_env (as_unicast r)"
  by (simp_all add: startup_ready_def demo_startup_def accepts_all_def demo_multipath_def demo_route_def demo_rib_env_def links_known_def
      special_name_def as_unicast_def)

lemma demo_startup_static: "\<exists>c\<in>set (protos (demo_startup rs)). is_static c"
proof -
  have p: "length (protos (demo_startup rs)) = 256" "protos (demo_startup rs) ! 4 = build_proto (sv_proto2str (demo_startup rs)) 4 zero_protocol"
    using protos_nth [of 4 "demo_startup rs"] by simp_all
  have "is_static (build_proto (sv_proto2str (demo_startup rs)) 4 zero_protocol)"
    by (simp add: is_static_def build_proto_def routing_is_proto_type_known_def demo_startup_def cbuf_def)
  moreover have "protos (demo_startup rs) ! 4 \<in> set (protos (demo_startup rs))" by (rule nth_mem) (simp add: p(1))
  ultimately have "protos (demo_startup rs) ! 4 \<in> set (protos (demo_startup rs)) \<and> is_static (protos (demo_startup rs) ! 4)"
    by (simp only: p(2))
  then show ?thesis by blast
qed

lemma demo_startup_multipath: "newest_multipath demo_rib_env [demo_route 5, demo_multipath] AF_INET4"
  by (simp add: newest_multipath_def static_for_def as_unicast_def multipath_def route_of_def next_hop_of_def demo_multipath_def
      demo_route_def special_name_def hops_of_def hop_read_def demo_rib_env_def)

theorem static_routes_loaded_witness:
  "\<exists>e log. routing_startup_load_control_plane_protocols (demo_startup [demo_route 5, demo_multipath]) (Created 0) [] = Ret (e, log) \<and> e \<noteq> 0"
proof -
  have v: "sv_rib (demo_startup rs) = demo_rib_env" "sv_routes (demo_startup rs) = rs" for rs
    by (simp_all add: demo_startup_def)
  show ?thesis
    using static_routes_loaded [of "demo_startup [demo_route 5, demo_multipath]" "Created 0" "[]", unfolded v,
        OF demo_startup_ready] demo_startup_static demo_startup_multipath by blast
qed

end
