(* ===== verification/RtApply.thy ===== *)
theory RtApply
  imports RtCommon
begin

text \<open>
  The second half of \<^verbatim>\<open>routing/common.c\<close>: the requests that add and delete routes.
\<close>

section \<open>Requests\<close>

text \<open>A next hop of a request has the interface index that was set, if one was, and the gateway.
  The scope of a new route is the one libnl guesses from its other attributes.  The last call is the one of the change subscription that
  copies the running datastore.\<close>

datatype route_scope = Scope_guessed | Scope_nowhere

record route_req =
  rq_table :: int
  rq_protocol :: int
  rq_dst :: nl_addr
  rq_priority :: "32 word"
  rq_hops :: "(int option \<times> nl_addr option) list"
  rq_scope :: route_scope

datatype route_call = Route_add route_req | Route_delete route_req | Copy_running_to_startup

text \<open>What libnl answers, given the requests made so far: is there memory for a route and for its
  n-th next hop, and the result of a request.\<close>

record apply_env =
  ap_route_alloc :: "route_call list \<Rightarrow> bool"
  ap_nh_alloc :: "route_call list \<Rightarrow> nat \<Rightarrow> bool"
  ap_request :: "route_call list \<Rightarrow> route_call \<Rightarrow> int"

section \<open>New routes\<close>

fun list_hops :: "apply_env \<Rightarrow> route_call list \<Rightarrow> nat \<Rightarrow> next_hop_simple list \<Rightarrow> (int option \<times> nl_addr option) list option" where
  "list_hops A log i [] = Some []"
| "list_hops A log i (nexthop_iter # hs) =
    (if \<not> ap_nh_alloc A log i then None
     else map_option (\<lambda>l. (Some (hs_ifindex nexthop_iter), hs_addr nexthop_iter) # l) (list_hops A log (Suc i) hs))"

definition request_hops :: "apply_env \<Rightarrow> route_call list \<Rightarrow> next_hop \<Rightarrow> (int option \<times> nl_addr option) list option" where
  "request_hops A log nh =
    (case nh_kind nh of
       kind_simple \<Rightarrow>
         if \<not> ap_nh_alloc A log 0 then None
         else if hs_if_name (nh_simple nh) = None \<and> hs_addr (nh_simple nh) = None then None
         else Some [(if hs_if_name (nh_simple nh) \<noteq> None then Some (hs_ifindex (nh_simple nh)) else None, hs_addr (nh_simple nh))]
     | kind_list \<Rightarrow> list_hops A log 0 (nh_list nh)
     | _ \<Rightarrow> Some [])"

definition send :: "apply_env \<Rightarrow> route_call \<Rightarrow> route_call list \<Rightarrow> int \<times> route_call list" where
  "send A c log = (if ap_request A log c \<noteq> 0 then -1 else 0, log @ [c])"

definition new_request :: "nl_addr \<Rightarrow> route \<Rightarrow> (int option \<times> nl_addr option) list \<Rightarrow> route_call" where
  "new_request prefix r hops = Route_add \<lparr> rq_table = RT_TABLE_MAIN, rq_protocol = RTPROT_STATIC, rq_dst = prefix,
     rq_priority = rt_preference r, rq_hops = hops, rq_scope = Scope_guessed \<rparr>"

definition apply_new_route :: "apply_env \<Rightarrow> nl_addr \<Rightarrow> route \<Rightarrow> route_call list \<Rightarrow> int \<times> route_call list" where
  "apply_new_route A prefix r log =
    (if \<not> ap_route_alloc A log then (-1, log)
     else case request_hops A log (rt_next_hop r) of
       None \<Rightarrow> (-1, log)
     | Some hops \<Rightarrow> send A (new_request prefix r hops) log)"

definition routing_apply_new_routes :: "apply_env \<Rightarrow> route_hash \<Rightarrow> route_call list \<Rightarrow> int \<times> route_call list" where
  "routing_apply_new_routes A routes_hash =
    until_fail (\<lambda>e. until_fail (apply_new_route A (re_prefix e)) (re_routes e)) routes_hash"

section \<open>Modified and deleted routes\<close>

definition routing_apply_modify_routes :: "apply_env \<Rightarrow> route_hash \<Rightarrow> route_call list \<Rightarrow> int \<times> route_call list" where
  "routing_apply_modify_routes A routes_hash log = (0, log)"

definition delete_request :: "nl_addr \<Rightarrow> route \<Rightarrow> route_call" where
  "delete_request prefix r = Route_delete \<lparr> rq_table = RT_TABLE_MAIN, rq_protocol = RTPROT_STATIC, rq_dst = prefix,
     rq_priority = rt_preference r, rq_hops = [], rq_scope = Scope_nowhere \<rparr>"

definition apply_delete_route :: "apply_env \<Rightarrow> nl_addr \<Rightarrow> route \<Rightarrow> route_call list \<Rightarrow> int \<times> route_call list" where
  "apply_delete_route A prefix r log =
    (if \<not> ap_route_alloc A log then (-1, log) else send A (delete_request prefix r) log)"

definition routing_apply_delete_routes :: "apply_env \<Rightarrow> route_hash \<Rightarrow> route_call list \<Rightarrow> int \<times> route_call list" where
  "routing_apply_delete_routes A routes_hash =
    until_fail (\<lambda>e. until_fail (apply_delete_route A (re_prefix e)) (re_routes e)) routes_hash"

section \<open>Lemmas\<close>

text \<open>What a run over a plan of requests may do: the requests are made in the order of the plan,
  the first that is refused is the last one made and its run fails, and before a request the run can
  only stop, failing, when there is no memory for it.\<close>

definition out_of_memory :: "apply_env \<Rightarrow> route_call list \<Rightarrow> bool" where
  "out_of_memory A log = (\<not> ap_route_alloc A log \<or> (\<exists>i. \<not> ap_nh_alloc A log i))"

fun sends :: "apply_env \<Rightarrow> route_call list \<Rightarrow> route_call list \<Rightarrow> int \<times> route_call list \<Rightarrow> bool" where
  "sends A [] log r = (r = (0, log))"
| "sends A (c # cs) log r =
    (if ap_request A log c \<noteq> 0 then r = (-1, log @ [c]) \<or> out_of_memory A log \<and> r = (-1, log)
     else sends A cs (log @ [c]) r \<or> out_of_memory A log \<and> r = (-1, log))"

text \<open>When nothing is refused.\<close>

definition accepts :: "apply_env \<Rightarrow> bool" where
  "accepts A = (\<forall>log c n. ap_route_alloc A log \<and> ap_nh_alloc A log n \<and> ap_request A log c = 0)"

lemma sends_accepts: "accepts A \<Longrightarrow> sends A plan log r \<Longrightarrow> r = (0, log @ plan)"
proof (induction plan arbitrary: log)
  case (Cons c plan)
  then have "sends A plan (log @ [c]) r" by (auto simp: accepts_def out_of_memory_def)
  then have "r = (0, (log @ [c]) @ plan)" using Cons.IH Cons.prems(1) by blast
  then show ?case by simp
qed simp

lemma sends_error: "sends A plan log (e, l) \<Longrightarrow> e = 0 \<or> e = -1"
  by (induction plan arbitrary: log) (auto split: if_splits)

text \<open>A loop over steps that send their plans sends the plans one after the other.\<close>

lemma sends_append:
  assumes "sends A p log (e, l)" "e = 0 \<Longrightarrow> sends A q l r" "e \<noteq> 0 \<Longrightarrow> r = (e, l)"
  shows "sends A (p @ q) log r"
  using assms by (induction p arbitrary: log) (auto split: if_splits)

lemma sends_until_fail:
  assumes "\<And>x log. x \<in> set xs \<Longrightarrow> sends A (plan x) log (f x log)"
  shows "sends A (concat (map plan xs)) log (until_fail f xs log)"
  using assms
proof (induction xs arbitrary: log)
  case (Cons x xs)
  obtain e l where f: "f x log = (e, l)" by fastforce
  have "sends A (plan x) log (e, l)" using Cons.prems [of x log] f by simp
  moreover have "sends A (concat (map plan xs)) l (until_fail f xs l)" using Cons by simp
  ultimately show ?case using f by (auto intro: sends_append)
qed simp

text \<open>The next hops of a request when nothing fails.  A simple next hop with neither an interface nor an
  address cannot be sent.\<close>

definition hops_sent :: "next_hop \<Rightarrow> (int option \<times> nl_addr option) list" where
  "hops_sent nh = (case nh_kind nh of
      kind_simple \<Rightarrow> [(if hs_if_name (nh_simple nh) \<noteq> None then Some (hs_ifindex (nh_simple nh)) else None, hs_addr (nh_simple nh))]
    | kind_list \<Rightarrow> map (\<lambda>h. (Some (hs_ifindex h), hs_addr h)) (nh_list nh)
    | _ \<Rightarrow> [])"

definition sendable :: "route \<Rightarrow> bool" where
  "sendable r = (nh_kind (rt_next_hop r) = kind_simple \<longrightarrow>
     hs_if_name (nh_simple (rt_next_hop r)) \<noteq> None \<or> hs_addr (nh_simple (rt_next_hop r)) \<noteq> None)"

lemma list_hops_result: "list_hops A log i hs = Some (map (\<lambda>h. (Some (hs_ifindex h), hs_addr h)) hs)
    \<or> list_hops A log i hs = None \<and> (\<exists>i. \<not> ap_nh_alloc A log i)"
proof (induction hs arbitrary: i)
  case (Cons h hs)
  then show ?case using Cons.IH [of "Suc i"] by auto
qed simp

lemma request_hops_result:
  assumes "sendable r"
  shows "request_hops A log (rt_next_hop r) = Some (hops_sent (rt_next_hop r))
    \<or> request_hops A log (rt_next_hop r) = None \<and> out_of_memory A log"
  using assms list_hops_result [of A log 0 "nh_list (rt_next_hop r)"]
  by (auto simp: request_hops_def hops_sent_def sendable_def out_of_memory_def split: next_hop_kind.splits)

definition new_plan :: "route_hash \<Rightarrow> route_call list" where
  "new_plan h = concat (map (\<lambda>e. map (\<lambda>r. new_request (re_prefix e) r (hops_sent (rt_next_hop r))) (re_routes e)) h)"

definition delete_plan :: "route_hash \<Rightarrow> route_call list" where
  "delete_plan h = concat (map (\<lambda>e. map (delete_request (re_prefix e)) (re_routes e)) h)"

lemma sends_new_route:
  assumes "sendable r"
  shows "sends A [new_request p r (hops_sent (rt_next_hop r))] log (apply_new_route A p r log)"
proof (cases "ap_route_alloc A log")
  case True
  then show ?thesis using request_hops_result [OF assms, of A log] by (auto simp: apply_new_route_def send_def)
qed (simp add: apply_new_route_def out_of_memory_def)

lemma sends_delete_route: "sends A [delete_request p r] log (apply_delete_route A p r log)"
  by (auto simp: apply_delete_route_def send_def out_of_memory_def)

lemma concat_singletons: "concat (map (\<lambda>x. [f x]) xs) = map f xs"
  by (induction xs) auto

lemma sends_new_routes:
  assumes "\<forall>e\<in>set h. \<forall>r\<in>set (re_routes e). sendable r"
  shows "sends A (new_plan h) log (routing_apply_new_routes A h log)"
  unfolding routing_apply_new_routes_def new_plan_def
proof (rule sends_until_fail)
  fix e log
  assume "e \<in> set h"
  then have "sends A (concat (map (\<lambda>r. [new_request (re_prefix e) r (hops_sent (rt_next_hop r))]) (re_routes e))) log
      (until_fail (apply_new_route A (re_prefix e)) (re_routes e) log)"
    using assms by (intro sends_until_fail sends_new_route) blast
  then show "sends A (map (\<lambda>r. new_request (re_prefix e) r (hops_sent (rt_next_hop r))) (re_routes e)) log
      (until_fail (apply_new_route A (re_prefix e)) (re_routes e) log)"
    by (simp only: concat_singletons)
qed

lemma sends_delete_routes: "sends A (delete_plan h) log (routing_apply_delete_routes A h log)"
  unfolding routing_apply_delete_routes_def delete_plan_def
proof (rule sends_until_fail)
  fix e log
  have "sends A (concat (map (\<lambda>r. [delete_request (re_prefix e) r]) (re_routes e))) log
      (until_fail (apply_delete_route A (re_prefix e)) (re_routes e) log)"
    by (intro sends_until_fail sends_delete_route)
  then show "sends A (map (delete_request (re_prefix e)) (re_routes e)) log
      (until_fail (apply_delete_route A (re_prefix e)) (re_routes e) log)"
    by (simp only: concat_singletons)
qed

end
