(* ===== verification/RtChange.thy ===== *)
theory RtChange
  imports RtApply IfLinkChange
begin

text \<open>
  The change subscription of the routing plugin, \<^verbatim>\<open>routing/subscription/change.c\<close>: created and
  deleted static routes are collected in two hashes and then applied.
\<close>

section \<open>What sysrepo and libnl answer\<close>

text \<open>A change: its operation, what \<^verbatim>\<open>lyd_path\<close> prints for its node, and the node's value.\<close>

record static_change =
  gc_operation :: operation
  gc_path :: "cstr option"
  gc_value :: cstr

text \<open>\<^verbatim>\<open>cv_parse\<close> is \<^verbatim>\<open>nl_addr_parse\<close>: an address, or an error.\<close>

record change_env =
  cv_iter :: "cstr \<Rightarrow> int \<times> static_change list"
  cv_node_name :: "cstr \<Rightarrow> cstr"
  cv_parse :: "cstr \<Rightarrow> int + nl_addr"
  cv_socket :: "cstr \<Rightarrow> bool"
  cv_connect :: "cstr \<Rightarrow> int"
  cv_apply :: apply_env
  cv_copy_config :: int

section \<open>Collecting the changes\<close>

text \<open>The three locals: new routes, routes to delete, and \<^verbatim>\<open>routes_head\<close>, which points into one of the
  two hashes: the list of a prefix.\<close>

record collected =
  gl_new :: route_hash
  gl_delete :: route_hash
  gl_head :: "(bool \<times> nl_addr) option"

definition no_routes :: collected where
  "no_routes = \<lparr> gl_new = route_list_hash_init, gl_delete = route_list_hash_init, gl_head = None \<rparr>"

definition the_hash :: "bool \<Rightarrow> collected \<Rightarrow> route_hash" where
  "the_hash created g = (if created then gl_new g else gl_delete g)"

definition set_hash :: "bool \<Rightarrow> route_hash \<Rightarrow> collected \<Rightarrow> collected" where
  "set_hash created h g = (if created then g\<lparr>gl_new := h\<rparr> else g\<lparr>gl_delete := h\<rparr>)"

text \<open>\<^verbatim>\<open>(*routes_head)->route\<close>, the first route of the list.\<close>

definition on_first :: "(route \<Rightarrow> route) \<Rightarrow> route_entry \<Rightarrow> route_entry" where
  "on_first f e = e\<lparr>re_routes := (case re_routes e of [] \<Rightarrow> [] | r # rs \<Rightarrow> f r # rs)\<rparr>"

definition on_head :: "(route \<Rightarrow> route) \<Rightarrow> bool \<times> nl_addr \<Rightarrow> collected \<Rightarrow> collected" where
  "on_head f ptr g = set_hash (fst ptr) (hash_update re_prefix (snd ptr) (on_first f) (the_hash (fst ptr) g)) g"

definition set_gateway :: "nl_addr \<Rightarrow> route \<Rightarrow> route" where
  "set_gateway gateway r = r\<lparr>rt_next_hop := route_next_hop_set_simple_gateway (rt_next_hop r) (Some gateway)\<rparr>"

text \<open>The code for created and for deleted nodes is the same up to the hash.  \<^verbatim>\<open>strncmp\<close> compares the
  first letters only.\<close>

definition collect_node :: "change_env \<Rightarrow> bool \<Rightarrow> cstr \<Rightarrow> cstr \<Rightarrow> collected \<Rightarrow> (int \<times> collected) outcome" where
  "collect_node V created node_name node_value g =
    (if take 18 node_name = ''destination-prefix'' then
       (case cv_parse V node_value of
          Inl e \<Rightarrow> Ret (-1, g)
        | Inr prefix \<Rightarrow> obind (route_list_hash_add (the_hash created g) prefix zero_route)
            (\<lambda>h. Ret (0, (set_hash created h g)\<lparr>gl_head := Some (created, prefix)\<rparr>)))
     else if take 11 node_name = ''description'' then
       (case gl_head g of
          None \<Rightarrow> Ret (-1, g)
        | Some ptr \<Rightarrow> Ret (0, on_head (\<lambda>r. route_set_description r (Some node_value)) ptr g))
     else if take 16 node_name = ''next-hop-address'' then
       (case gl_head g of
          None \<Rightarrow> Ret (-1, g)
        | Some ptr \<Rightarrow>
            (case cv_parse V node_value of
               Inl e \<Rightarrow> Ret (-1, g)
             | Inr gateway \<Rightarrow> Ret (0, on_head (set_gateway gateway) ptr g)))
     else Ret (0, g))"

definition collect_change :: "change_env \<Rightarrow> static_change \<Rightarrow> collected \<Rightarrow> (int \<times> collected) outcome" where
  "collect_change V c g =
    (case gc_path c of
       None \<Rightarrow> Ret (-1, g)
     | Some change_path \<Rightarrow>
         (case gc_operation c of
            SR_OP_CREATED \<Rightarrow> collect_node V True (cv_node_name V change_path) (gc_value c) g
          | SR_OP_MODIFIED \<Rightarrow> Ret (0, g)
          | SR_OP_DELETED \<Rightarrow> collect_node V False (cv_node_name V change_path) (gc_value c) g
          | SR_OP_MOVED \<Rightarrow> Ret (0, g)))"

fun collect_changes :: "change_env \<Rightarrow> static_change list \<Rightarrow> collected \<Rightarrow> (int \<times> collected) outcome" where
  "collect_changes V [] g = Ret (0, g)"
| "collect_changes V (c # cs) g =
    obind (collect_change V c g) (\<lambda>(e, g'). if e \<noteq> 0 then Ret (-1, g') else collect_changes V cs g')"

section \<open>Applying them\<close>

definition apply_collected :: "apply_env \<Rightarrow> collected \<Rightarrow> route_call list \<Rightarrow> int \<times> route_call list" where
  "apply_collected A g =
    safe_call (routing_apply_new_routes A (gl_new g)) (\<lambda>log. (-1, log)) (
    safe_call (routing_apply_modify_routes A []) (\<lambda>log. (-1, log)) (
    safe_call (routing_apply_delete_routes A (gl_delete g)) (\<lambda>log. (-1, log)) (\<lambda>log. (0, log))))"

definition apply_static_routes_changes :: "change_env \<Rightarrow> cstr \<Rightarrow> route_call list \<Rightarrow> (int \<times> route_call list) outcome" where
  "apply_static_routes_changes V xpath log =
    (case cv_iter V xpath of (e1, cs) \<Rightarrow>
     if e1 \<noteq> 0 then Ret (-1, log) else
     obind (collect_changes V cs no_routes) (\<lambda>(e2, g).
     if e2 \<noteq> 0 then Ret (-1, log)
     else if \<not> cv_socket V xpath then Ret (-1, log)
     else if cv_connect V xpath \<noteq> 0 then Ret (-1, log) else
     Ret (apply_collected (cv_apply V) g log)))"

definition static_path :: "cstr \<Rightarrow> cstr \<Rightarrow> cstr" where
  "static_path xpath v = cbuf PATH_MAX (xpath @ ''/static-routes/ietf-'' @ v @ ''-unicast-routing:'' @ v @ ''//.'')"

definition control_plane_protocol_list_change_cb ::
    "change_env \<Rightarrow> cstr \<Rightarrow> sr_event \<Rightarrow> route_call list \<Rightarrow> (int \<times> route_call list) outcome" where
  "control_plane_protocol_list_change_cb V xpath event log =
    (if event = SR_EV_ABORT then Ret (SR_ERR_CALLBACK_FAILED, log)
     else if event = SR_EV_DONE then
       Ret (if cv_copy_config V \<noteq> 0 then SR_ERR_CALLBACK_FAILED else 0, log @ [Copy_running_to_startup])
     else if event = SR_EV_CHANGE then
       obind (apply_static_routes_changes V (static_path xpath ''ipv4'') log) (\<lambda>(e1, log1).
       if e1 \<noteq> 0 then Ret (SR_ERR_CALLBACK_FAILED, log1) else
       obind (apply_static_routes_changes V (static_path xpath ''ipv6'') log1) (\<lambda>(e2, log2).
       Ret (if e2 \<noteq> 0 then SR_ERR_CALLBACK_FAILED else 0, log2)))
     else Ret (0, log))"

section \<open>The collection as a list of routes\<close>

text \<open>The reference: the routes in the order in which their prefixes came, each with what was set
  after its prefix; \<^verbatim>\<open>True\<close> marks a created route.\<close>

type_synonym pending = "(bool \<times> nl_addr \<times> route) list"

definition on_last :: "(route \<Rightarrow> route) \<Rightarrow> pending \<Rightarrow> pending option" where
  "on_last f ps = (if ps = [] then None
     else Some (butlast ps @ [(fst (last ps), fst (snd (last ps)), f (snd (snd (last ps))))]))"

definition pend_node :: "change_env \<Rightarrow> bool \<Rightarrow> cstr \<Rightarrow> cstr \<Rightarrow> pending \<Rightarrow> pending option" where
  "pend_node V created node_name node_value ps =
    (if take 18 node_name = ''destination-prefix'' then
       (case cv_parse V node_value of Inl e \<Rightarrow> None | Inr prefix \<Rightarrow> Some (ps @ [(created, prefix, zero_route)]))
     else if take 11 node_name = ''description'' then on_last (\<lambda>r. r\<lparr>rt_description := Some node_value\<rparr>) ps
     else if take 16 node_name = ''next-hop-address'' then
       (case cv_parse V node_value of Inl e \<Rightarrow> None | Inr gateway \<Rightarrow> on_last (set_gateway gateway) ps)
     else Some ps)"

definition pend_change :: "change_env \<Rightarrow> static_change \<Rightarrow> pending \<Rightarrow> pending option" where
  "pend_change V c ps = (case gc_path c of
       None \<Rightarrow> None
     | Some path \<Rightarrow>
         if gc_operation c = SR_OP_CREATED then pend_node V True (cv_node_name V path) (gc_value c) ps
         else if gc_operation c = SR_OP_DELETED then pend_node V False (cv_node_name V path) (gc_value c) ps
         else Some ps)"

fun pend_changes :: "change_env \<Rightarrow> static_change list \<Rightarrow> pending \<Rightarrow> pending option" where
  "pend_changes V [] ps = Some ps"
| "pend_changes V (c # cs) ps = (case pend_change V c ps of None \<Rightarrow> None | Some ps' \<Rightarrow> pend_changes V cs ps')"

definition pending_of :: "bool \<Rightarrow> pending \<Rightarrow> (nl_addr \<times> route) list" where
  "pending_of created ps = map snd (filter (\<lambda>x. fst x = created) ps)"

section \<open>Lemmas\<close>

definition table_routes :: "route_hash \<Rightarrow> (nl_addr \<times> route) list" where
  "table_routes h = concat (map (\<lambda>e. map (Pair (re_prefix e)) (re_routes e)) h)"

lemma table_routes_simps [simp]: "table_routes [] = []" "table_routes (e # h) = map (Pair (re_prefix e)) (re_routes e) @ table_routes h"
  "table_routes (h @ h') = table_routes h @ table_routes h'"
  by (simp_all add: table_routes_def)

lemma plans_table:
  "new_plan h = map (\<lambda>(p, r). new_request p r (hops_sent (rt_next_hop r))) (table_routes h)"
  "delete_plan h = map (\<lambda>(p, r). delete_request p r) (table_routes h)"
  by (simp_all add: new_plan_def delete_plan_def table_routes_def map_concat comp_def)

definition hash_wf :: "route_hash \<Rightarrow> bool" where
  "hash_wf h = distinct (map re_prefix h)"

lemma hash_update_append:
  "hash_update key p f (A @ e # B) = hash_update key p f A @ (if key e = p then f e else e) # hash_update key p f B"
  by (simp add: hash_update_def)

lemma hash_update_other: "p \<notin> key ` set A \<Longrightarrow> hash_update key p f A = A"
  by (rule hash_update_same) (auto simp: image_iff)

text \<open>The entry of a prefix, with the entries around it.\<close>

lemma hash_split:
  assumes "hash_wf h" "hash_find re_prefix p h = Some e"
  obtains A B where "h = A @ e # B" "re_prefix e = p" "\<And>f. hash_update re_prefix p f h = A @ f e # B"
proof -
  have e: "e \<in> set h" "re_prefix e = p" using hash_find_SomeD [OF assms(2)] by auto
  then obtain A B where h: "h = A @ e # B" by (meson split_list)
  then have "p \<notin> re_prefix ` set A" "p \<notin> re_prefix ` set B" using assms(1) e(2) by (auto simp: hash_wf_def)
  then have "hash_update re_prefix p f h = A @ f e # B" for f
    using e(2) by (simp add: h hash_update_append hash_update_other)
  with h e(2) show thesis by (rule that)
qed

lemma add_zero_route:
  assumes "hash_wf h"
  shows "\<exists>h' rs. route_list_hash_add h p zero_route = Ret h' \<and> hash_wf h'
    \<and> mset (table_routes h') = add_mset (p, zero_route) (mset (table_routes h))
    \<and> (\<exists>e. hash_find re_prefix p h' = Some e \<and> re_routes e = zero_route # rs)"
proof (intro exI conjI)
  let ?h = "rh.put_pure p zero_route h"
  show "route_list_hash_add h p zero_route = Ret ?h" using assms by (intro rh.put_Ret) (simp_all add: hash_wf_def)
  show "hash_wf ?h" using assms rh.distinct_put [of zero_route h p] by (simp add: hash_wf_def)
  show "hash_find re_prefix p ?h = Some (rh.entry p zero_route (hash_find re_prefix p h))"
    by (simp add: rh.find_put)
  show "re_routes (rh.entry p zero_route (hash_find re_prefix p h))
      = zero_route # (case hash_find re_prefix p h of None \<Rightarrow> [] | Some e \<Rightarrow> re_routes e)"
    by (simp add: rh.entry_def split: option.split)
  show "mset (table_routes ?h) = add_mset (p, zero_route) (mset (table_routes h))"
  proof (cases "hash_find re_prefix p h")
    case None
    then show ?thesis by (simp add: rh.put_pure_def hash_find_None_iff)
  next
    case (Some e)
    then have "p \<in> re_prefix ` set h" using hash_find_SomeD [OF Some] by auto
    moreover obtain A B where "h = A @ e # B" "re_prefix e = p" "\<And>f. hash_update re_prefix p f h = A @ f e # B"
      using hash_split [OF assms Some] by blast
    ultimately show ?thesis by (simp add: rh.put_pure_def)
  qed
qed

lemma on_first_table:
  assumes "hash_wf h" "hash_find re_prefix p h = Some e" "re_routes e = r # rs"
  shows "mset (table_routes (hash_update re_prefix p (on_first f) h)) + {#(p, r)#} = mset (table_routes h) + {#(p, f r)#}"
    and "hash_wf (hash_update re_prefix p (on_first f) h)"
    and "\<exists>e. hash_find re_prefix p (hash_update re_prefix p (on_first f) h) = Some e \<and> re_routes e = f r # rs"
proof -
  show "mset (table_routes (hash_update re_prefix p (on_first f) h)) + {#(p, r)#} = mset (table_routes h) + {#(p, f r)#}"
  proof -
    obtain A B where "h = A @ e # B" "re_prefix e = p" "\<And>f. hash_update re_prefix p f h = A @ f e # B"
      using hash_split [OF assms(1,2)] by blast
    then show ?thesis using assms(3) by (simp add: on_first_def)
  qed
  have k: "\<And>e. re_prefix (on_first f e) = re_prefix e" by (simp add: on_first_def)
  show "hash_wf (hash_update re_prefix p (on_first f) h)" using assms(1) k by (simp add: hash_wf_def)
  show "\<exists>e. hash_find re_prefix p (hash_update re_prefix p (on_first f) h) = Some e \<and> re_routes e = f r # rs"
    using hash_update_find [of re_prefix "on_first f", OF k] assms(2,3) by (simp add: on_first_def)
qed

text \<open>The hashes hold the pending routes, and the pointer is at the last of them.\<close>

definition collects :: "pending \<Rightarrow> collected \<Rightarrow> bool" where
  "collects ps g = ((\<forall>b. hash_wf (the_hash b g) \<and> mset (table_routes (the_hash b g)) = mset (pending_of b ps))
     \<and> (case gl_head g of
          None \<Rightarrow> ps = []
        | Some (b, p) \<Rightarrow> (\<exists>ps' r e rs. ps = ps' @ [(b, p, r)] \<and> hash_find re_prefix p (the_hash b g) = Some e \<and> re_routes e = r # rs)))"

lemma the_hash_simps [simp]:
  "the_hash b (set_hash c h g) = (if b = c then h else the_hash b g)"
  "the_hash b (g\<lparr>gl_head := x\<rparr>) = the_hash b g" "gl_head (set_hash c h g) = gl_head g"
  by (auto simp: the_hash_def set_hash_def)

lemma pending_of_append [simp]: "pending_of b (ps @ [(c, x)]) = pending_of b ps @ (if c = b then [x] else [])"
  by (simp add: pending_of_def)

lemma collects_prefix:
  assumes "collects ps g"
  shows "\<exists>h. route_list_hash_add (the_hash b g) p zero_route = Ret h
    \<and> collects (ps @ [(b, p, zero_route)]) ((set_hash b h g)\<lparr>gl_head := Some (b, p)\<rparr>)"
proof -
  have wf: "hash_wf (the_hash b g)" using assms by (simp add: collects_def)
  obtain h rs e where "route_list_hash_add (the_hash b g) p zero_route = Ret h" "hash_wf h"
    "mset (table_routes h) = add_mset (p, zero_route) (mset (table_routes (the_hash b g)))"
    "hash_find re_prefix p h = Some e" "re_routes e = zero_route # rs"
    using add_zero_route [OF wf] by blast
  then show ?thesis using assms by (auto simp: collects_def)
qed

lemma collects_on_head:
  assumes "collects ps g" "gl_head g = Some ptr"
  shows "\<exists>ps'. on_last f ps = Some ps' \<and> collects ps' (on_head f ptr g)"
proof -
  obtain b p where ptr: "ptr = (b, p)" by (cases ptr)
  obtain ps0 r e rs where l: "ps = ps0 @ [(b, p, r)]" "hash_find re_prefix p (the_hash b g) = Some e" "re_routes e = r # rs"
    using assms ptr by (auto simp: collects_def)
  let ?h = "hash_update re_prefix p (on_first f) (the_hash b g)"
  have wf: "hash_wf (the_hash b g)" "mset (table_routes (the_hash b g)) = mset (pending_of b ps0) + {#(p, r)#}"
    using assms(1) l(1) by (simp_all add: collects_def)
  note t = on_first_table [OF wf(1) l(2,3), of f]
  have "mset (table_routes ?h) = mset (pending_of b ps0) + {#(p, f r)#}"
    using t(1) wf(2) by simp
  then have "collects (ps0 @ [(b, p, f r)]) (on_head f ptr g)"
    using assms t(2,3) l(1) by (auto simp: collects_def on_head_def ptr)
  then show ?thesis using l(1) by (simp add: on_last_def)
qed

lemma collects_None: "collects ps g \<Longrightarrow> gl_head g = None \<longleftrightarrow> ps = []"
  by (auto simp: collects_def split: option.splits)

text \<open>A step of the code agrees with a step of the reference.\<close>

definition agrees :: "pending option \<Rightarrow> (int \<times> collected) outcome \<Rightarrow> bool" where
  "agrees p m = (\<exists>e g. m = Ret (e, g) \<and> (case p of None \<Rightarrow> e = -1 | Some ps \<Rightarrow> e = 0 \<and> collects ps g))"

lemma agrees_head:
  assumes "collects ps g"
  shows "agrees (on_last f ps) (case gl_head g of None \<Rightarrow> Ret (-1, g) | Some ptr \<Rightarrow> Ret (0, on_head f ptr g))"
proof (cases "gl_head g")
  case None
  then show ?thesis using collects_None [OF assms] by (simp add: agrees_def on_last_def)
next
  case (Some ptr)
  then show ?thesis using collects_on_head [OF assms Some, of f] by (auto simp: agrees_def)
qed

lemma agrees_node: "collects ps g \<Longrightarrow> agrees (pend_node V b name v ps) (collect_node V b name v g)"
proof -
  assume c: "collects ps g"
  have d: "(\<lambda>r. r\<lparr>rt_description := Some v\<rparr>) = (\<lambda>r. route_set_description r (Some v))"
    by (simp add: route_set_description_def)
  consider (prefix) "take 18 name = ''destination-prefix''"
    | (descr) "take 18 name \<noteq> ''destination-prefix''" "take 11 name = ''description''"
    | (hop) "take 18 name \<noteq> ''destination-prefix''" "take 11 name \<noteq> ''description''" "take 16 name = ''next-hop-address''"
    | (other) "take 18 name \<noteq> ''destination-prefix''" "take 11 name \<noteq> ''description''" "take 16 name \<noteq> ''next-hop-address''"
    by blast
  then show ?thesis
  proof cases
    case prefix
    show ?thesis
    proof (cases "cv_parse V v")
      case (Inr p)
      then show ?thesis using prefix collects_prefix [OF c, of b p] by (auto simp: agrees_def pend_node_def collect_node_def)
    qed (use prefix in \<open>simp add: agrees_def pend_node_def collect_node_def\<close>)
  next
    case descr
    then show ?thesis using agrees_head [OF c] by (simp add: pend_node_def collect_node_def d)
  next
    case hop
    show ?thesis
    proof (cases "cv_parse V v")
      case (Inl e)
      then show ?thesis using hop by (simp add: agrees_def pend_node_def collect_node_def split: option.split)
    next
      case (Inr gateway)
      then show ?thesis
        using hop agrees_head [OF c, of "set_gateway gateway"]
        by (cases "gl_head g") (simp_all add: pend_node_def collect_node_def)
    qed
  next
    case other
    then show ?thesis using c by (simp add: agrees_def pend_node_def collect_node_def)
  qed
qed

lemma agrees_change: "collects ps g \<Longrightarrow> agrees (pend_change V c ps) (collect_change V c g)"
  using agrees_node [of ps g V]
  by (auto simp: pend_change_def collect_change_def agrees_def split: option.splits operation.splits)

lemma agrees_changes: "collects ps g \<Longrightarrow> agrees (pend_changes V cs ps) (collect_changes V cs g)"
proof (induction cs arbitrary: ps g)
  case (Cons c cs)
  show ?case
  proof (cases "pend_change V c ps")
    case None
    then show ?thesis using agrees_change [OF Cons.prems, of V c] by (auto simp: agrees_def)
  next
    case (Some ps')
    then obtain g' where "collect_change V c g = Ret (0, g')" "collects ps' g'"
      using agrees_change [OF Cons.prems, of V c] by (auto simp: agrees_def)
    then show ?thesis using Cons.IH [of ps' g'] Some by simp
  qed
qed (simp add: agrees_def)

lemma collects_start: "collects [] no_routes"
  by (simp add: collects_def no_routes_def route_list_hash_init_def the_hash_def pending_of_def hash_wf_def)

definition add_of :: "nl_addr \<times> route \<Rightarrow> route_call" where
  "add_of x = new_request (fst x) (snd x) (hops_sent (rt_next_hop (snd x)))"

definition delete_of :: "nl_addr \<times> route \<Rightarrow> route_call" where
  "delete_of x = delete_request (fst x) (snd x)"

lemma add_of_eta: "add_of = (\<lambda>(p, r). new_request p r (hops_sent (rt_next_hop r)))"
  by (simp add: fun_eq_iff add_of_def)

lemma delete_of_eta: "delete_of = (\<lambda>(p, r). delete_request p r)"
  by (simp add: fun_eq_iff delete_of_def)

lemma collects_plans:
  assumes "collects ps g"
  shows "mset (new_plan (gl_new g)) = mset (map add_of (pending_of True ps))"
    and "mset (delete_plan (gl_delete g)) = mset (map delete_of (pending_of False ps))"
proof -
  have "mset (table_routes (gl_new g)) = mset (pending_of True ps)" "mset (table_routes (gl_delete g)) = mset (pending_of False ps)"
    using assms by (auto simp: collects_def the_hash_def dest: spec [of _ True] spec [of _ False])
  then show "mset (new_plan (gl_new g)) = mset (map add_of (pending_of True ps))"
    and "mset (delete_plan (gl_delete g)) = mset (map delete_of (pending_of False ps))"
    by (simp_all add: plans_table add_of_eta delete_of_eta)
qed

text \<open>What the requests of one subtree can be: all additions before all deletions, in this order.\<close>

definition apply_plan :: "collected \<Rightarrow> route_call list" where
  "apply_plan g = new_plan (gl_new g) @ delete_plan (gl_delete g)"

lemma sends_apply:
  assumes "\<forall>e\<in>set (gl_new g). \<forall>r\<in>set (re_routes e). sendable r"
  shows "sends A (apply_plan g) log (apply_collected A g log)"
proof -
  obtain e1 l1 where 1: "routing_apply_new_routes A (gl_new g) log = (e1, l1)" by fastforce
  obtain e2 l2 where 2: "routing_apply_delete_routes A (gl_delete g) l1 = (e2, l2)" by fastforce
  have s1: "sends A (new_plan (gl_new g)) log (e1, l1)" using sends_new_routes [OF assms, of A log] 1 by simp
  have s2: "sends A (delete_plan (gl_delete g)) l1 (e2, l2)" using sends_delete_routes [of A "gl_delete g" l1] 2 by simp
  have r: "apply_collected A g log = (if e1 \<noteq> 0 then (-1, l1) else if e2 \<noteq> 0 then (-1, l2) else (0, l2))"
    using 1 2 by (simp add: apply_collected_def safe_call_def routing_apply_modify_routes_def)
  show ?thesis
    unfolding apply_plan_def
    using sends_error [OF s1] sends_error [OF s2] s2 by (intro sends_append [OF s1]) (auto simp: r)
qed

lemma pend_sendable:
  assumes "pend_changes V cs ps = Some ps'" "\<forall>x\<in>set ps. sendable (snd (snd x))"
  shows "\<forall>x\<in>set ps'. sendable (snd (snd x))"
  using assms
proof (induction cs arbitrary: ps)
  case (Cons c cs)
  have last: "\<forall>x\<in>set qs. sendable (snd (snd x))"
    if "on_last f ps = Some qs" "\<And>r. sendable r \<Longrightarrow> sendable (f r)" for f qs
    using that Cons.prems(2) by (force simp: on_last_def dest: in_set_butlastD split: if_splits)
  have g: "sendable r \<Longrightarrow> sendable (set_gateway gw r)" for r gw
    by (simp add: sendable_def set_gateway_def route_next_hop_set_simple_gateway_def)
  have d: "sendable r \<Longrightarrow> sendable (r\<lparr>rt_description := x\<rparr>)" for r x by (simp add: sendable_def)
  have z: "sendable zero_route" by (simp add: sendable_def zero_route_def zero_next_hop_def)
  have node: "\<forall>x\<in>set qs. sendable (snd (snd x))" if "pend_node V b name v ps = Some qs" for b name v qs
    using that Cons.prems(2) last g d z by (auto simp: pend_node_def split: if_splits sum.splits)
  obtain qs where qs: "pend_change V c ps = Some qs" "pend_changes V cs qs = Some ps'"
    using Cons.prems(1) by (auto split: option.splits)
  have "\<forall>x\<in>set qs. sendable (snd (snd x))"
    using qs(1) node Cons.prems(2) by (auto simp: pend_change_def split: option.splits if_splits)
  then show ?case using Cons.IH qs(2) by blast
qed simp

lemma collects_sendable:
  assumes "pend_changes V cs [] = Some ps" "collects ps g"
  shows "\<forall>e\<in>set (gl_new g). \<forall>r\<in>set (re_routes e). sendable r"
proof -
  have "mset (table_routes (the_hash True g)) = mset (pending_of True ps)"
    using assms(2) unfolding collects_def by blast
  then have "mset (table_routes (gl_new g)) = mset (pending_of True ps)" by (simp add: the_hash_def)
  then have "set (table_routes (gl_new g)) = set (pending_of True ps)" by (rule mset_eq_setD)
  then have "\<forall>(p, r)\<in>set (table_routes (gl_new g)). sendable r"
    using pend_sendable [OF assms(1)] by (auto simp: pending_of_def)
  then show ?thesis by (auto simp: table_routes_def)
qed

section \<open>Properties\<close>

definition demo_apply_env :: apply_env where
  "demo_apply_env = \<lparr> ap_route_alloc = (\<lambda>_. True), ap_nh_alloc = (\<lambda>_ _. True), ap_request = (\<lambda>_ _. 0) \<rparr>"

text \<open>C1. The changes below one address family are a transaction on the main table: exactly the destination
  prefixes that were created are added, each with the gateway that followed its prefix and with
  preference 0, and exactly those that were deleted are deleted, all additions first.
  A change that cannot be read fails the transaction before anything is sent, and so does a missing
  socket or connection.  Otherwise the requests are made one after the other: the first that is
  refused ends the transaction with -1, what was sent before it is not taken back, only a lack of
  memory can end it earlier, and it succeeds when all were accepted.\<close>

theorem static_routes_transaction:
  assumes "cv_iter V xpath = (0, cs)"
  shows "case pend_changes V cs [] of
      None \<Rightarrow> apply_static_routes_changes V xpath log = Ret (-1, log)
    | Some ps \<Rightarrow> \<exists>adds dels r. apply_static_routes_changes V xpath log = Ret r
        \<and> mset adds = mset (map add_of (pending_of True ps)) \<and> mset dels = mset (map delete_of (pending_of False ps))
        \<and> (if cv_socket V xpath \<and> cv_connect V xpath = 0 then sends (cv_apply V) (adds @ dels) log r else r = (-1, log))
        \<and> (accepts (cv_apply V) \<and> cv_socket V xpath \<and> cv_connect V xpath = 0 \<longrightarrow> r = (0, log @ adds @ dels))"
proof (cases "pend_changes V cs []")
  case None
  then show ?thesis
    using agrees_changes [OF collects_start, of V cs] assms
    by (auto simp: agrees_def apply_static_routes_changes_def)
next
  case (Some ps)
  then obtain g where g: "collect_changes V cs no_routes = Ret (0, g)" "collects ps g"
    using agrees_changes [OF collects_start, of V cs] by (auto simp: agrees_def)
  let ?r = "if cv_socket V xpath \<and> cv_connect V xpath = 0 then apply_collected (cv_apply V) g log else (-1, log)"
  have run: "apply_static_routes_changes V xpath log = Ret ?r"
    using assms g(1) by (simp add: apply_static_routes_changes_def)
  have s: "sends (cv_apply V) (apply_plan g) log (apply_collected (cv_apply V) g log)"
    using collects_sendable [OF Some g(2)] by (rule sends_apply)
  then have "accepts (cv_apply V) \<Longrightarrow> apply_collected (cv_apply V) g log = (0, log @ apply_plan g)"
    using sends_accepts by blast
  then show ?thesis
    unfolding Some option.case
    using run s collects_plans [OF g(2)] unfolding apply_plan_def
    by (intro exI [of _ "new_plan (gl_new g)"] exI [of _ "delete_plan (gl_delete g)"] exI [of _ ?r] conjI) simp_all
qed

text \<open>A route that is created with a gateway, then one with an outgoing interface only: that is sent without
  a next hop.\<close>

definition demo_static_env :: change_env where
  "demo_static_env = \<lparr> cv_iter = (\<lambda>x. (0, [
       \<lparr> gc_operation = SR_OP_CREATED, gc_path = Some ''destination-prefix'', gc_value = ''10.0.0.0/8'' \<rparr>,
       \<lparr> gc_operation = SR_OP_CREATED, gc_path = Some ''next-hop-address'', gc_value = ''10.0.0.0/8'' \<rparr>,
       \<lparr> gc_operation = SR_OP_CREATED, gc_path = Some ''destination-prefix'', gc_value = ''10.0.0.0/8'' \<rparr>,
       \<lparr> gc_operation = SR_OP_CREATED, gc_path = Some ''outgoing-interface'', gc_value = ''eth0'' \<rparr>])),
     cv_node_name = (\<lambda>p. p), cv_parse = (\<lambda>_. Inr demo_prefix), cv_socket = (\<lambda>_. True), cv_connect = (\<lambda>_. 0),
     cv_apply = demo_apply_env, cv_copy_config = 0 \<rparr>"

theorem static_routes_transaction_witness:
  "\<exists>adds. apply_static_routes_changes demo_static_env ''x'' [] = Ret (0, adds)
     \<and> mset adds = {#add_of (demo_prefix, set_gateway demo_prefix zero_route), add_of (demo_prefix, zero_route)#}
     \<and> hops_sent (rt_next_hop zero_route) = []"
proof -
  have p: "pend_changes demo_static_env (snd (cv_iter demo_static_env ''x'')) [] =
      Some [(True, demo_prefix, set_gateway demo_prefix zero_route), (True, demo_prefix, zero_route)]"
    by (simp add: demo_static_env_def pend_change_def pend_node_def on_last_def)
  have "cv_iter demo_static_env ''x'' = (0, snd (cv_iter demo_static_env ''x''))" by (simp add: demo_static_env_def)
  from static_routes_transaction [OF this, of "[]"] show ?thesis
    unfolding p option.case
    by (auto simp: pending_of_def demo_static_env_def demo_apply_env_def accepts_def hops_sent_def zero_route_def zero_next_hop_def)
qed

text \<open>C40. A change callback of the routing plugin: an abort sends nothing and fails; after the changes are done
  only the running datastore is copied; a change applies the IPv4 routes and then, only if they all
  succeeded, the IPv6 routes, and fails exactly when one of the two fails, without taking anything back;
  and a transaction that only modifies routes succeeds without any request.\<close>

theorem control_plane_protocol_changes:
  "control_plane_protocol_list_change_cb V xpath SR_EV_ABORT log = Ret (SR_ERR_CALLBACK_FAILED, log)
   \<and> (\<exists>e. control_plane_protocol_list_change_cb V xpath SR_EV_DONE log = Ret (e, log @ [Copy_running_to_startup]))
   \<and> (apply_static_routes_changes V (static_path xpath ''ipv4'') log = Ret (e1, log1) \<and>
      apply_static_routes_changes V (static_path xpath ''ipv6'') log1 = Ret (e2, log2) \<longrightarrow>
      control_plane_protocol_list_change_cb V xpath SR_EV_CHANGE log =
        (if e1 \<noteq> 0 then Ret (SR_ERR_CALLBACK_FAILED, log1)
         else Ret (if e2 \<noteq> 0 then SR_ERR_CALLBACK_FAILED else 0, log2)))
   \<and> ((\<forall>p. \<exists>cs. cv_iter V p = (0, cs) \<and> (\<forall>c\<in>set cs. gc_operation c = SR_OP_MODIFIED \<and> gc_path c \<noteq> None)
        \<and> cv_socket V p \<and> cv_connect V p = 0) \<longrightarrow>
      control_plane_protocol_list_change_cb V xpath SR_EV_CHANGE log = Ret (0, log))"
proof -
  have m: "collect_changes V cs g = Ret (0, g)" if "\<forall>c\<in>set cs. gc_operation c = SR_OP_MODIFIED \<and> gc_path c \<noteq> None" for cs g
    using that by (induction cs) (auto simp: collect_change_def)
  have a: "apply_static_routes_changes V p log = Ret (0, log)"
    if "cv_iter V p = (0, cs) \<and> (\<forall>c\<in>set cs. gc_operation c = SR_OP_MODIFIED \<and> gc_path c \<noteq> None)
        \<and> cv_socket V p \<and> cv_connect V p = 0" for p cs
    using that m [of cs no_routes]
    by (simp add: apply_static_routes_changes_def apply_collected_def no_routes_def route_list_hash_init_def safe_call_def
        routing_apply_new_routes_def routing_apply_modify_routes_def routing_apply_delete_routes_def)
  show ?thesis
  proof (intro conjI impI)
    assume "\<forall>p. \<exists>cs. cv_iter V p = (0, cs) \<and> (\<forall>c\<in>set cs. gc_operation c = SR_OP_MODIFIED \<and> gc_path c \<noteq> None)
        \<and> cv_socket V p \<and> cv_connect V p = 0"
    then have "apply_static_routes_changes V p log = Ret (0, log)" for p using a by blast
    then show "control_plane_protocol_list_change_cb V xpath SR_EV_CHANGE log = Ret (0, log)"
      by (simp add: control_plane_protocol_list_change_cb_def)
  qed (simp_all add: control_plane_protocol_list_change_cb_def)
qed

theorem control_plane_protocol_changes_witness:
  "control_plane_protocol_list_change_cb (demo_static_env\<lparr>cv_iter := \<lambda>_. (0,
     [\<lparr> gc_operation = SR_OP_MODIFIED, gc_path = Some ''next-hop-address'', gc_value = ''10.0.0.1'' \<rparr>])\<rparr>)
     ''x'' SR_EV_CHANGE [] = Ret (0, [])"
  using control_plane_protocol_changes [of "demo_static_env\<lparr>cv_iter := \<lambda>_. (0,
     [\<lparr> gc_operation = SR_OP_MODIFIED, gc_path = Some ''next-hop-address'', gc_value = ''10.0.0.1'' \<rparr>])\<rparr>" "''x''" "[]"]
  by (simp add: demo_static_env_def)

end
