(* ===== verification/RtPersist.thy ===== *)
theory RtPersist
  imports RtChange
begin

text \<open>
  Restoring the static routes of the running datastore, \<^verbatim>\<open>routing/persist.c\<close>.
\<close>

section \<open>What sysrepo answers\<close>

text \<open>A route of the datastore: the values of its three nodes, where they exist.\<close>

record route_node =
  rn_prefix :: "cstr option"
  rn_gateway :: "cstr option"
  rn_interface :: "cstr option"

text \<open>\<^verbatim>\<open>pv_subtree\<close> is \<^verbatim>\<open>sr_get_subtree\<close> of the container of one address family, \<^verbatim>\<open>pv_ifindex\<close> is
  \<^verbatim>\<open>if_nametoindex\<close>.\<close>

record persist_env =
  pv_subtree :: "cstr \<Rightarrow> int + route_node list"
  pv_parse :: "cstr \<Rightarrow> int + nl_addr"
  pv_ifindex :: "cstr \<Rightarrow> int"
  pv_socket :: bool
  pv_connect :: int
  pv_apply :: apply_env

section \<open>Gathering\<close>

text \<open>The locals \<^verbatim>\<open>prefix\<close> and \<^verbatim>\<open>gateway\<close> keep the pointer to the address that was given back in the
  round before: a parse that fails leaves it there, or \<^verbatim>\<open>NULL\<close> at first.\<close>

datatype addr_ptr = A_null | A_stale | A_addr nl_addr

definition parse_into :: "persist_env \<Rightarrow> cstr \<Rightarrow> addr_ptr \<Rightarrow> int \<times> addr_ptr" where
  "parse_into P s old = (case pv_parse P s of Inl e \<Rightarrow> (e, old) | Inr a \<Rightarrow> (0, A_addr a))"

fun read_addr :: "addr_ptr \<Rightarrow> nl_addr option outcome" where
  "read_addr A_null = Ret None"
| "read_addr A_stale = Undef"
| "read_addr (A_addr a) = Ret (Some a)"

fun after_put :: "addr_ptr \<Rightarrow> addr_ptr" where
  "after_put A_null = A_null"
| "after_put _ = A_stale"

record gather =
  ga_error :: int
  ga_prefix :: addr_ptr
  ga_gateway :: addr_ptr
  ga_routes :: route_hash

text \<open>The first route of the list of a prefix.\<close>

definition on_route :: "(route \<Rightarrow> route) \<Rightarrow> nl_addr \<Rightarrow> route_hash \<Rightarrow> route_hash" where
  "on_route f prefix h = hash_update re_prefix prefix (on_first f) h"

definition gather_gateway :: "persist_env \<Rightarrow> nl_addr \<Rightarrow> cstr option \<Rightarrow> gather \<Rightarrow> gather outcome" where
  "gather_gateway P prefix node s =
    (case node of
       None \<Rightarrow> Ret s
     | Some v \<Rightarrow> (case parse_into P v (ga_gateway s) of (e, p) \<Rightarrow>
         obind (read_addr p) (\<lambda>gateway.
         Ret (s\<lparr>ga_error := e, ga_gateway := after_put p,
           ga_routes := on_route (\<lambda>r. r\<lparr>rt_next_hop := route_next_hop_set_simple_gateway (rt_next_hop r) gateway\<rparr>) prefix (ga_routes s)\<rparr>))))"

definition set_interface :: "persist_env \<Rightarrow> cstr \<Rightarrow> route \<Rightarrow> route" where
  "set_interface P v r = (case route_next_hop_set_simple_interface (rt_next_hop r) (pv_ifindex P v) (Some v) of
     Ret nh \<Rightarrow> r\<lparr>rt_next_hop := nh\<rparr> | _ \<Rightarrow> r)"

definition gather_interface :: "persist_env \<Rightarrow> nl_addr \<Rightarrow> cstr option \<Rightarrow> gather \<Rightarrow> gather" where
  "gather_interface P prefix node s =
    (case node of
       None \<Rightarrow> s
     | Some v \<Rightarrow> s\<lparr>ga_routes := on_route (set_interface P v) prefix (ga_routes s)\<rparr>)"

text \<open>One round.  \<^verbatim>\<open>None\<close> is the jump to \<^verbatim>\<open>error_out\<close>.  Adding a route under a \<^verbatim>\<open>NULL\<close> prefix
  clones \<^verbatim>\<open>NULL\<close>.\<close>

definition gather_route :: "persist_env \<Rightarrow> route_node \<Rightarrow> gather \<Rightarrow> gather option outcome" where
  "gather_route P n s =
    (case rn_prefix n of
       None \<Rightarrow> Ret None
     | Some v \<Rightarrow>
         if rn_interface n = None \<and> rn_gateway n = None then Ret None
         else case parse_into P v (ga_prefix s) of (e, p) \<Rightarrow>
           obind (read_addr p) (\<lambda>a. case a of
             None \<Rightarrow> Undef
           | Some prefix \<Rightarrow>
               obind (route_list_hash_add (ga_routes s) prefix zero_route) (\<lambda>h.
               obind (gather_gateway P prefix (rn_gateway n) (s\<lparr>ga_error := e, ga_prefix := after_put p, ga_routes := h\<rparr>)) (\<lambda>s1.
               Ret (Some (gather_interface P prefix (rn_interface n) s1))))))"

fun gather_loop :: "persist_env \<Rightarrow> route_node list \<Rightarrow> gather \<Rightarrow> (int \<times> route_hash) outcome" where
  "gather_loop P [] s = Ret (ga_error s, ga_routes s)"
| "gather_loop P (n # ns) s = obind (gather_route P n s) (\<lambda>r. case r of
     None \<Rightarrow> Ret (-1, ga_routes s)
   | Some s' \<Rightarrow> gather_loop P ns s')"

text \<open>Without a subtree the cleanup reads \<^verbatim>\<open>static_routes_container->tree\<close> through \<^verbatim>\<open>NULL\<close>.\<close>

definition gather_static_routes :: "persist_env \<Rightarrow> cstr \<Rightarrow> route_hash \<Rightarrow> (int \<times> route_hash) outcome" where
  "gather_static_routes P augment_path routes_head =
    (case pv_subtree P augment_path of
       Inl e \<Rightarrow> Undef
     | Inr ns \<Rightarrow> gather_loop P ns \<lparr> ga_error = 0, ga_prefix = A_null, ga_gateway = A_null, ga_routes = routes_head \<rparr>)"

section \<open>Persisting\<close>

definition static_routes_path :: "cstr \<Rightarrow> cstr" where
  "static_routes_path v = ''/ietf-routing:routing/control-plane-protocols/control-plane-protocol''
     @ ''[type=\"ietf-routing:static\"][name=\"static\"]/static-routes/ietf-'' @ v @ ''-unicast-routing:'' @ v"

definition routing_persist_static_routes :: "persist_env \<Rightarrow> route_call list \<Rightarrow> (int \<times> route_call list) outcome" where
  "routing_persist_static_routes P log =
    (if \<not> pv_socket P then Ret (-1, log)
     else if pv_connect P \<noteq> 0 then Ret (-1, log) else
     obind (gather_static_routes P (static_routes_path ''ipv4'') []) (\<lambda>(e1, h1).
     if e1 \<noteq> 0 then Ret (-1, log) else
     obind (gather_static_routes P (static_routes_path ''ipv6'') h1) (\<lambda>(e2, h2).
     if e2 \<noteq> 0 then Ret (-1, log) else
     case routing_apply_new_routes (pv_apply P) h2 log of (e3, log') \<Rightarrow>
     Ret (if e3 \<noteq> 0 then -1 else 0, log'))))"

section \<open>Lemmas\<close>

text \<open>A node that can be read, and the route that is gathered from it.\<close>

definition readable_node :: "persist_env \<Rightarrow> route_node \<Rightarrow> bool" where
  "readable_node P n = ((case rn_prefix n of None \<Rightarrow> False | Some v \<Rightarrow> \<not> isl (pv_parse P v))
     \<and> (case rn_gateway n of None \<Rightarrow> rn_interface n \<noteq> None | Some v \<Rightarrow> \<not> isl (pv_parse P v)))"

definition node_prefix :: "persist_env \<Rightarrow> route_node \<Rightarrow> nl_addr" where
  "node_prefix P n = projr (pv_parse P (the (rn_prefix n)))"

definition node_gateway :: "persist_env \<Rightarrow> route_node \<Rightarrow> route \<Rightarrow> route" where
  "node_gateway P n r = (case rn_gateway n of
       None \<Rightarrow> r
     | Some v \<Rightarrow> r\<lparr>rt_next_hop := route_next_hop_set_simple_gateway (rt_next_hop r) (Some (projr (pv_parse P v)))\<rparr>)"

definition node_interface :: "persist_env \<Rightarrow> route_node \<Rightarrow> route \<Rightarrow> route" where
  "node_interface P n r = (case rn_interface n of None \<Rightarrow> r | Some v \<Rightarrow> set_interface P v r)"

definition node_route :: "persist_env \<Rightarrow> route_node \<Rightarrow> route" where
  "node_route P n = node_interface P n (node_gateway P n zero_route)"

text \<open>The routes of a hash with the route of a prefix that was added last.\<close>

definition adds_first :: "route_hash \<Rightarrow> nl_addr \<Rightarrow> route \<Rightarrow> route_hash \<Rightarrow> bool" where
  "adds_first h p r h' = (hash_wf h' \<and> mset (table_routes h') = add_mset (p, r) (mset (table_routes h))
     \<and> (\<exists>e rs. hash_find re_prefix p h' = Some e \<and> re_routes e = r # rs))"

lemma adds_first_on_route: "adds_first h p r h' \<Longrightarrow> adds_first h p (f r) (on_route f p h')"
proof -
  assume a: "adds_first h p r h'"
  then obtain e rs where e: "hash_wf h'" "hash_find re_prefix p h' = Some e" "re_routes e = r # rs"
    by (auto simp: adds_first_def)
  note t = on_first_table [OF e, of f]
  show ?thesis
    using a t by (auto simp: adds_first_def on_route_def)
qed

lemma gather_route_ok:
  assumes "readable_node P n" "hash_wf (ga_routes s)" "ga_error s = 0"
  shows "\<exists>s'. gather_route P n s = Ret (Some s') \<and> ga_error s' = 0
    \<and> adds_first (ga_routes s) (node_prefix P n) (node_route P n) (ga_routes s')"
proof -
  obtain v where v: "rn_prefix n = Some v" "pv_parse P v = Inr (node_prefix P n)" "rn_interface n = None \<Longrightarrow> rn_gateway n \<noteq> None"
    using assms(1) by (auto simp: readable_node_def node_prefix_def split: option.splits)
  obtain h where h: "route_list_hash_add (ga_routes s) (node_prefix P n) zero_route = Ret h"
    "adds_first (ga_routes s) (node_prefix P n) zero_route h"
    using add_zero_route [OF assms(2), of "node_prefix P n"] by (auto simp: adds_first_def)
  let ?s0 = "s\<lparr>ga_error := 0, ga_prefix := A_stale, ga_routes := h\<rparr>"
  obtain s1 where s1: "gather_gateway P (node_prefix P n) (rn_gateway n) ?s0 = Ret s1" "ga_error s1 = 0"
    "adds_first (ga_routes s) (node_prefix P n) (node_gateway P n zero_route) (ga_routes s1)"
  proof (cases "rn_gateway n")
    case None
    then show ?thesis using h(2) by (intro that [of ?s0]) (simp_all add: gather_gateway_def node_gateway_def)
  next
    case (Some w)
    then obtain a where a: "pv_parse P w = Inr a"
      using assms(1) by (cases "pv_parse P w") (auto simp: readable_node_def split: option.splits)
    let ?f = "\<lambda>r. r\<lparr>rt_next_hop := route_next_hop_set_simple_gateway (rt_next_hop r) (Some a)\<rparr>"
    have "adds_first (ga_routes s) (node_prefix P n) (?f zero_route) (on_route ?f (node_prefix P n) h)"
      by (rule adds_first_on_route) (rule h(2))
    then show ?thesis
      using Some a by (intro that [of "?s0\<lparr>ga_gateway := A_stale, ga_routes := on_route ?f (node_prefix P n) h\<rparr>"])
        (simp_all add: gather_gateway_def parse_into_def node_gateway_def)
  qed
  have "adds_first (ga_routes s) (node_prefix P n) (node_route P n) (ga_routes (gather_interface P (node_prefix P n) (rn_interface n) s1))"
    using s1(3) adds_first_on_route [OF s1(3)]
    by (simp add: gather_interface_def node_route_def node_interface_def split: option.split)
  moreover have "ga_error (gather_interface P (node_prefix P n) (rn_interface n) s1) = 0"
    using s1(2) by (simp add: gather_interface_def split: option.split)
  ultimately show ?thesis
    using v(1,2) v(3) h(1) s1(1) by (auto simp: gather_route_def parse_into_def)
qed

lemma gather_loop_ok:
  "\<forall>n\<in>set ns. readable_node P n \<Longrightarrow> hash_wf (ga_routes s) \<Longrightarrow> ga_error s = 0 \<Longrightarrow>
    \<exists>h. gather_loop P ns s = Ret (0, h) \<and> hash_wf h
      \<and> mset (table_routes h) = mset (table_routes (ga_routes s)) + mset (map (\<lambda>n. (node_prefix P n, node_route P n)) ns)"
proof (induction ns arbitrary: s)
  case (Cons n ns)
  obtain s' where s': "gather_route P n s = Ret (Some s')" "ga_error s' = 0"
    "adds_first (ga_routes s) (node_prefix P n) (node_route P n) (ga_routes s')"
    using gather_route_ok [of P n s] Cons.prems by auto
  then have "hash_wf (ga_routes s')" by (simp add: adds_first_def)
  then obtain h where "gather_loop P ns s' = Ret (0, h)" "hash_wf h"
    "mset (table_routes h) = mset (table_routes (ga_routes s')) + mset (map (\<lambda>n. (node_prefix P n, node_route P n)) ns)"
    using Cons.IH [of s'] Cons.prems s'(2) by auto
  then show ?case using s' by (simp add: adds_first_def)
qed simp

lemma node_route_sent:
  "rt_preference (node_route P n) = 0 \<and> hops_sent (rt_next_hop (node_route P n)) = (case rn_gateway n of
      None \<Rightarrow> []
    | Some v \<Rightarrow> [(map_option (pv_ifindex P) (rn_interface n), Some (projr (pv_parse P v)))])"
  by (auto simp: node_route_def node_interface_def node_gateway_def set_interface_def hops_sent_def zero_route_def
      zero_next_hop_def zero_simple_def route_next_hop_set_simple_gateway_def route_next_hop_set_simple_interface_def
      split: option.splits)

definition node_request :: "persist_env \<Rightarrow> route_node \<Rightarrow> route_call" where
  "node_request P n = new_request (node_prefix P n) (zero_route)
     (case rn_gateway n of None \<Rightarrow> [] | Some v \<Rightarrow> [(map_option (pv_ifindex P) (rn_interface n), Some (projr (pv_parse P v)))])"

lemma node_request_add: "node_request P n = add_of (node_prefix P n, node_route P n)"
  using node_route_sent [of P n] by (simp add: node_request_def add_of_def new_request_def zero_route_def)

lemma node_route_sendable: "sendable (node_route P n)"
  by (auto simp: node_route_def node_interface_def node_gateway_def set_interface_def sendable_def zero_route_def
      zero_next_hop_def zero_simple_def route_next_hop_set_simple_gateway_def route_next_hop_set_simple_interface_def
      split: option.splits)

text \<open>Restoring a datastore in which every static route can be read sends one request per route of both
  families, in any order within a prefix; only a request that is refused or a lack of memory ends it
  early, and then it fails.  A route that has only an outgoing interface is sent without any next
  hop: the setter of the interface does not set the kind.\<close>

lemma persist_static_routes:
  assumes "pv_socket P" "pv_connect P = 0"
    and "pv_subtree P (static_routes_path ''ipv4'') = Inr ns4" "pv_subtree P (static_routes_path ''ipv6'') = Inr ns6"
    and "\<forall>n\<in>set (ns4 @ ns6). readable_node P n"
  shows "\<exists>adds r. routing_persist_static_routes P log = Ret r \<and> sends (pv_apply P) adds log r
    \<and> mset adds = mset (map (node_request P) (ns4 @ ns6))"
proof -
  let ?s = "\<lambda>h. \<lparr> ga_error = 0, ga_prefix = A_null, ga_gateway = A_null, ga_routes = h \<rparr>" and ?nr = "\<lambda>n. (node_prefix P n, node_route P n)"
  obtain h4 where h4: "gather_loop P ns4 (?s []) = Ret (0, h4)" "hash_wf h4" "mset (table_routes h4) = mset (map ?nr ns4)"
    using gather_loop_ok [of ns4 P "?s []"] assms(5) by (auto simp: hash_wf_def)
  obtain h6 where h6: "gather_loop P ns6 (?s h4) = Ret (0, h6)" "mset (table_routes h6) = mset (map ?nr (ns4 @ ns6))"
    using gather_loop_ok [of ns6 P "?s h4"] assms(5) h4 by auto
  have "set (table_routes h6) = set (map ?nr (ns4 @ ns6))" using h6(2) by (rule mset_eq_setD)
  then have "\<forall>(p, r)\<in>set (table_routes h6). sendable r" using node_route_sendable by auto
  then have "\<forall>e\<in>set h6. \<forall>r\<in>set (re_routes e). sendable r" by (auto simp: table_routes_def)
  then have s: "sends (pv_apply P) (new_plan h6) log (routing_apply_new_routes (pv_apply P) h6 log)" by (rule sends_new_routes)
  have "new_plan h6 = map add_of (table_routes h6)" by (simp add: plans_table add_of_eta)
  then have "mset (new_plan h6) = mset (map add_of (map ?nr (ns4 @ ns6)))"
    using h6(2) by (simp add: multiset.map_comp)
  also have "\<dots> = mset (map (node_request P) (ns4 @ ns6))" by (simp add: node_request_add [abs_def] comp_def)
  finally have m: "mset (new_plan h6) = mset (map (node_request P) (ns4 @ ns6))" .
  obtain e l where a: "routing_apply_new_routes (pv_apply P) h6 log = (e, l)" by fastforce
  then have "e = 0 \<or> e = -1" using s sends_error by metis
  then have "routing_persist_static_routes P log = Ret (e, l)"
    using assms(1-4) h4(1) h6(1) a by (auto simp: routing_persist_static_routes_def gather_static_routes_def)
  then show ?thesis using s m a by (intro exI [of _ "new_plan h6"] exI [of _ "(e, l)"]) simp
qed

end
