(* ===== verification/RtRound.thy ===== *)
theory RtRound
  imports RtStartup RtPersist LogTree
begin

text \<open>
  Loading and restoring: the static routes that \<^verbatim>\<open>routing/startup.c\<close> writes into the datastore, read again by
  \<^verbatim>\<open>routing/persist.c\<close>.  What lies between the two is libyang and sysrepo: the subtree that is read has the
  routes of the tree that was edited in.  That is the locale \<^verbatim>\<open>saved_routes\<close>; a datastore that answers
  from the log of the creation calls satisfies it.
\<close>

section \<open>The tree that was edited in\<close>

text \<open>The name of the node of a call, without the keys; a node that is given by its whole path is called by it.\<close>

fun rt_name :: "rt_call \<Rightarrow> cstr" where
  "rt_name (New_path p path v) = takeWhile (\<lambda>c. c \<noteq> CHR ''['') path"
| "rt_name (New_inner p M name) = name"
| "rt_name (New_term p M name v) = name"
| "rt_name (New_any p M name) = name"

abbreviation rt_kids :: "ly_ref \<Rightarrow> cstr \<Rightarrow> nat \<Rightarrow> rt_log \<Rightarrow> nat list" where
  "rt_kids \<equiv> kids_of call_parent rt_name"

abbreviation rt_enclosed :: "ly_ref \<Rightarrow> nat \<Rightarrow> rt_log \<Rightarrow> bool" where
  "rt_enclosed \<equiv> enclosed_of call_parent"

abbreviation rt_sits :: "rt_log \<Rightarrow> nat \<Rightarrow> rt_log \<Rightarrow> bool" where
  "rt_sits \<equiv> sits_of call_parent rt_name"

definition static_protocol_path :: cstr where
  "static_protocol_path = ''/ietf-routing:routing/control-plane-protocols/control-plane-protocol[type='' @ [CHR 34]
     @ ''ietf-routing:static'' @ [CHR 34] @ ''][name='' @ [CHR 34] @ ''static'' @ [CHR 34] @ '']''"

fun makes_static :: "rt_call \<Rightarrow> bool" where
  "makes_static (New_path p path v) = (path = static_protocol_path)"
| "makes_static _ = False"

text \<open>The container of the static routes of one family: the first protocol with the path, and below it.\<close>

definition static_container :: "rt_log \<Rightarrow> cstr \<Rightarrow> nat option" where
  "static_container log v =
    (case find (\<lambda>i. makes_static (log ! i)) [0..<length log] of
       None \<Rightarrow> None
     | Some i \<Rightarrow> (case first (rt_kids (Created i) ''static-routes'' 0 log) of
         None \<Rightarrow> None
       | Some j \<Rightarrow> first (rt_kids (Created j) v 0 log)))"

text \<open>A route of the tree: its key, and the two leaves in its next hop.\<close>

definition quoted :: "cstr \<Rightarrow> cstr" where
  "quoted path = takeWhile (\<lambda>c. c \<noteq> CHR 34) (drop 1 (dropWhile (\<lambda>c. c \<noteq> CHR 34) path))"

fun entry_key :: "rt_call \<Rightarrow> cstr option" where
  "entry_key (New_path p path v) = Some (quoted path)"
| "entry_key _ = None"

fun term_value :: "rt_call \<Rightarrow> cstr option" where
  "term_value (New_term p M name v) = Some v"
| "term_value _ = None"

definition hop_leaf :: "rt_log \<Rightarrow> nat \<Rightarrow> cstr \<Rightarrow> cstr option" where
  "hop_leaf log i s =
    (case first (rt_kids (Created i) ''next-hop'' 0 log) of
       None \<Rightarrow> None
     | Some j \<Rightarrow> (case first (rt_kids (Created j) s 0 log) of None \<Rightarrow> None | Some t \<Rightarrow> term_value (log ! t)))"

definition route_at :: "rt_log \<Rightarrow> nat \<Rightarrow> route_node" where
  "route_at log i = \<lparr> rn_prefix = entry_key (log ! i), rn_gateway = hop_leaf log i ''next-hop-address'',
     rn_interface = hop_leaf log i ''outgoing-interface'' \<rparr>"

text \<open>The order of the routes may change in the datastore.\<close>

locale saved_routes =
  fixes P :: persist_env and log :: rt_log
  assumes subtree: "v \<in> {''ipv4'', ''ipv6''} \<Longrightarrow> static_container log v = Some k \<Longrightarrow>
    \<exists>ns. pv_subtree P (static_routes_path v) = Inr ns \<and> mset ns = mset (map (route_at log) (rt_kids (Created k) ''route'' 0 log))"

definition log_subtree :: "rt_log \<Rightarrow> cstr \<Rightarrow> int + route_node list" where
  "log_subtree log path =
    (case static_container log (if path = static_routes_path ''ipv4'' then ''ipv4'' else ''ipv6'') of
       None \<Rightarrow> Inl 3
     | Some k \<Rightarrow> Inr (map (route_at log) (rt_kids (Created k) ''route'' 0 log)))"

lemma static_paths_differ: "static_routes_path ''ipv6'' \<noteq> static_routes_path ''ipv4''"
  by (simp add: static_routes_path_def)

interpretation log_routes: saved_routes "P\<lparr>pv_subtree := log_subtree log\<rparr>" log for P log
  using static_paths_differ by unfold_locales (auto simp: log_subtree_def)

section \<open>Lemmas: where the calls of the plans sit\<close>

lemma loop_plan_many: "loop_plan p xs b = plan_many (\<lambda>b x. p x b) b xs"
  by (induction xs arbitrary: b) simp_all

text \<open>The plan of a route with a single next hop and without a description, as every route of the system has it.\<close>

definition single_hop :: "route_entry \<Rightarrow> bool" where
  "single_hop e = (rt_description (hd (re_routes e)) = None \<and> nh_kind (rt_next_hop (hd (re_routes e))) = kind_simple)"

definition entry_hop :: "route_entry \<Rightarrow> next_hop_simple" where
  "entry_hop e = nh_simple (rt_next_hop (hd (re_routes e)))"

lemma single_hop_plan:
  "single_hop e \<Longrightarrow> s_route_plan M prefix container e b = New_path container (route_list_path (re_prefix e)) None
     # New_inner (Created b) M ''next-hop''
     # s_address_plan M (Created (Suc b)) (hs_addr (entry_hop e)) @ s_interface_plan M (Created (Suc b)) (hs_if_name (entry_hop e))"
  by (simp add: s_route_plan_def single_hop_def entry_hop_def s_description_plan_def s_next_hop_plan_def Let_def)

lemma leaf_plans:
  "call_parent ` set (s_address_plan M n a) \<subseteq> {n}" "call_parent ` set (s_interface_plan M n nm) \<subseteq> {n}"
  by (auto simp: s_address_plan_def s_interface_plan_def split: option.splits)

lemma enclosed_leaves: "call_parent ` set cs \<subseteq> {p} \<Longrightarrow> rt_enclosed p b cs"
  by (auto simp: enclosed_of_def)

lemma enclosed_list_hop: "rt_enclosed p b (s_list_hop_plan M prefix p h b)"
  unfolding s_list_hop_plan_def
  by (rule enclosed_node, simp, rule enclosed_leaves) (simp add: image_Un leaf_plans)

lemma enclosed_next_hop: "rt_enclosed p b (s_next_hop_plan M prefix p nh b)"
  unfolding s_next_hop_plan_def loop_plan_many
  by (cases "nh_kind nh")
    (simp_all add: enclosed_Nil enclosed_leaves leaf_plans image_Un enclosed_many enclosed_list_hop)


lemma route_plan_Cons: "s_route_plan M prefix p e b = New_path p (route_list_path (re_prefix e)) None # tl (s_route_plan M prefix p e b)"
  by (simp add: s_route_plan_def Let_def)

lemma enclosed_route_rest: "rt_enclosed (Created b) (Suc b) (tl (s_route_plan M prefix p e b))"
proof -
  let ?ds = "s_description_plan M (Created b) (rt_description (hd (re_routes e)))"
  have d: "rt_enclosed (Created b) (Suc b) ?ds"
    by (rule enclosed_leaves) (auto simp: s_description_plan_def split: option.splits)
  have "rt_enclosed (Created b) (Suc b + length ?ds) (New_inner (Created b) M ''next-hop''
      # s_next_hop_plan M prefix (Created (Suc b + length ?ds)) (rt_next_hop (hd (re_routes e))) (Suc (Suc b + length ?ds)))"
    by (rule enclosed_node) (simp_all add: enclosed_next_hop)
  then show ?thesis using enclosed_append [OF d] by (simp add: s_route_plan_def Let_def)
qed

lemma enclosed_route: "rt_enclosed p b (s_route_plan M prefix p e b)"
  by (subst route_plan_Cons, rule enclosed_node) (simp_all add: enclosed_route_rest)

lemma prefix_buffer_bounded: "length (prefix_buffer a) < 50"
  by (auto simp: prefix_buffer_def Let_def intro: cbuf_bounded)

lemma route_list_path_eq: "route_list_path dst = ''route[destination-prefix='' @ [CHR 34] @ prefix_buffer dst @ [CHR 34] @ '']''"
  using prefix_buffer_bounded [of dst] unfolding route_list_path_def by (intro cbuf_fits) simp

lemma kids_route:
  assumes "j < b"
  shows "rt_kids (Created j) s b (s_route_plan M prefix (Created j) e b) = (if s = ''route'' then [b] else [])"
proof -
  have "rt_kids (Created j) s (Suc b) (tl (s_route_plan M prefix (Created j) e b)) = []"
    by (rule enclosed_kids [OF enclosed_route_rest]) (use assms in auto)
  then show ?thesis by (subst route_plan_Cons) (auto simp: route_list_path_eq)
qed

abbreviation routes_plan :: "ly_module \<Rightarrow> cstr \<Rightarrow> nat \<Rightarrow> nat \<Rightarrow> route_hash \<Rightarrow> rt_call list" where
  "routes_plan M prefix j b h \<equiv> plan_many (\<lambda>b e. s_route_plan M prefix (Created j) e b) b h"

lemma kids_routes:
  "j < b \<Longrightarrow> rt_kids (Created j) ''route'' b (routes_plan M prefix j b h) = starts (\<lambda>b e. s_route_plan M prefix (Created j) e b) b h"
  by (subst kids_many [where nm = "''route''"]) (simp_all add: kids_route)

lemma enclosed_routes: "rt_enclosed (Created j) b (routes_plan M prefix j b h)"
  by (intro enclosed_many enclosed_route)

text \<open>A route of the tree has the data it was written with.\<close>

definition written_node :: "route_entry \<Rightarrow> route_node" where
  "written_node e = \<lparr> rn_prefix = Some (prefix_buffer (re_prefix e)),
     rn_gateway = map_option (\<lambda>a. cbuf 46 (na_text a)) (hs_addr (entry_hop e)), rn_interface = hs_if_name (entry_hop e) \<rparr>"

definition writable :: "route_entry \<Rightarrow> bool" where
  "writable e = (single_hop e \<and> CHR 34 \<notin> set (prefix_buffer (re_prefix e)))"

lemma quoted_prefix: "CHR 34 \<notin> set (prefix_buffer dst) \<Longrightarrow> quoted (route_list_path dst) = prefix_buffer dst"
  by (simp add: quoted_def route_list_path_eq takeWhile_append)

lemma route_at_plan:
  assumes "rt_sits log i (s_route_plan M prefix (Created j) e i)" "j < i" "writable e"
  shows "route_at log i = written_node e"
proof -
  have e: "single_hop e" "CHR 34 \<notin> set (prefix_buffer (re_prefix e))" using assms(3) by (auto simp: writable_def)
  let ?as = "s_address_plan M (Created (Suc i)) (hs_addr (entry_hop e))"
  let ?is = "s_interface_plan M (Created (Suc i)) (hs_if_name (entry_hop e))"
  note s = assms(1) [unfolded single_hop_plan [OF e(1)]]
  have k: "rt_kids (Created (Suc i)) t 0 log = rt_kids (Created (Suc i)) t (i + 2) (?as @ ?is)"
    "rt_kids (Created i) ''next-hop'' 0 log = [Suc i]" for t
    using sits_kids [OF s, of "Suc i"] sits_kids [OF s, of i ] assms(2)
    by (auto simp: s_address_plan_def s_interface_plan_def split: option.splits)
  have n: "log ! i = New_path (Created j) (route_list_path (re_prefix e)) None"
    "n < length (?as @ ?is) \<Longrightarrow> log ! (i + 2 + n) = (?as @ ?is) ! n" for n
    using sits_nth [OF s, of 0] sits_nth [OF s, of "n + 2"] by (simp_all add: add.commute add.left_commute)
  show ?thesis
    using n(2) [of 0] n(2) [of 1] k
    by (auto simp: route_at_def hop_leaf_def written_node_def n(1) quoted_prefix [OF e(2)] s_address_plan_def s_interface_plan_def
        split: option.splits)
qed

lemma routes_at_plan:
  assumes "rt_sits log b (routes_plan M prefix j b h)" "j < b" "\<forall>e\<in>set h. writable e"
  shows "map (route_at log) (starts (\<lambda>b e. s_route_plan M prefix (Created j) e b) b h) = map written_node h"
proof -
  have "list_all2 (\<lambda>i e. route_at log i = written_node e) (map id (starts (\<lambda>b e. s_route_plan M prefix (Created j) e b) b h)) h"
    using assms route_at_plan by (intro many_sits [OF assms(1) enclosed_route]) auto
  then show ?thesis by (simp add: list_all2_conv_all_nth list_eq_iff_nth_eq)
qed

text \<open>The static routes of a protocol, below its node \<^verbatim>\<open>Created n\<close>.\<close>

abbreviation plan4 :: "nat \<Rightarrow> route_hash \<Rightarrow> rt_call list" where
  "plan4 b h4 \<equiv> routes_plan Uv4 ''next-hop/next-hop-list]/next-hop[index='' (Suc b) (Suc (Suc (Suc b))) h4"

abbreviation plan6 :: "nat \<Rightarrow> route_hash \<Rightarrow> route_hash \<Rightarrow> rt_call list" where
  "plan6 b h4 h6 \<equiv> routes_plan Uv6 ''next-hop/next-hop-list/next-hop[index='' (Suc (Suc b)) (Suc (Suc (Suc (b + length (plan4 b h4))))) h6"

abbreviation static_head :: "ly_ref \<Rightarrow> nat \<Rightarrow> rt_call list" where
  "static_head node b \<equiv> [New_path node ''static-routes'' None, New_inner (Created b) Uv4 ''ipv4'', New_inner (Created b) Uv6 ''ipv6'']"

lemma static_plan_parts: "s_static_plan h4 h6 node b = static_head node b @ plan4 b h4 @ plan6 b h4 h6"
  by (simp add: s_static_plan_def then_plan_def loop_plan_many numeral_3_eq_3)

lemma parents_within:
  "enclosed_of R (Created j) b cs \<Longrightarrow> m \<le> j \<Longrightarrow> j < b \<Longrightarrow> b + length cs \<le> m + n \<Longrightarrow> R ` set cs \<subseteq> within m n"
  by (fastforce simp: enclosed_of_def within_def)

lemma static_parents:
  "call_parent ` set (plan4 b h4) \<subseteq> within (Suc b) (n + 2)" if "length (plan4 b h4) \<le> n"
  using parents_within [OF enclosed_routes [of "Suc b" "Suc (Suc (Suc b))"], of "Suc b"] that by simp

lemma static_parents6:
  "call_parent ` set (plan6 b h4 h6) \<subseteq> within (Suc b) (n + 2)" if "length (plan4 b h4) + length (plan6 b h4 h6) \<le> n"
  using parents_within [OF enclosed_routes [of "Suc (Suc b)" "Suc (Suc (Suc (b + length (plan4 b h4))))"], of "Suc b"] that by simp

lemma enclosed_static_rest: "call_parent ` set (tl (s_static_plan h4 h6 node b)) \<subseteq> within b (length (s_static_plan h4 h6 node b))"
proof -
  let ?n = "length (plan4 b h4) + length (plan6 b h4 h6)"
  have "within (Suc b) (?n + 2) \<subseteq> within b (length (s_static_plan h4 h6 node b))"
    by (rule within_mono) (simp_all add: static_plan_parts)
  moreover have "Created b \<in> within b (length (s_static_plan h4 h6 node b))" by (simp add: static_plan_parts)
  ultimately show ?thesis
    using static_parents [of b h4 ?n] static_parents6 [of b h4 h6 ?n] unfolding static_plan_parts by auto
qed

lemma enclosed_static: "rt_enclosed node b (s_static_plan h4 h6 node b)"
proof -
  obtain cs where cs: "s_static_plan h4 h6 node b = New_path node ''static-routes'' None # cs" by (simp add: static_plan_parts)
  show ?thesis using enclosed_static_rest [of h4 h6 node b] unfolding enclosed_of_def cs by auto
qed

lemma sits_drop:
  assumes "rt_sits log b (xs @ ys)" "\<And>c i. c \<in> set xs \<Longrightarrow> call_parent c = Created i \<Longrightarrow> i < m" "m = b + length xs"
  shows "rt_sits log m ys"
  using assms(2) unfolding assms(3) by (intro sits_append(2) [OF assms(1)]) (force simp: within_def)

lemma static_plan_sits:
  assumes "rt_sits log b (s_static_plan h4 h6 (Created n) b)" "n < b"
  shows "rt_sits log (Suc (Suc (Suc b))) (plan4 b h4)" "rt_sits log (Suc (Suc (Suc (b + length (plan4 b h4))))) (plan6 b h4 h6)"
    and "rt_kids (Created b) ''ipv4'' 0 log = [Suc b]" "rt_kids (Created b) ''ipv6'' 0 log = [Suc (Suc b)]"
    and "rt_kids (Created (Suc b)) ''route'' 0 log
        = starts (\<lambda>b' e. s_route_plan Uv4 ''next-hop/next-hop-list]/next-hop[index='' (Created (Suc b)) e b') (Suc (Suc (Suc b))) h4"
    and "rt_kids (Created (Suc (Suc b))) ''route'' 0 log
        = starts (\<lambda>b' e. s_route_plan Uv6 ''next-hop/next-hop-list/next-hop[index='' (Created (Suc (Suc b))) e b')
            (Suc (Suc (Suc (b + length (plan4 b h4))))) h6"
proof -
  note s = assms(1) [unfolded static_plan_parts]
  have r: "rt_sits log (Suc (Suc (Suc b))) (plan4 b h4 @ plan6 b h4 h6)"
    by (rule sits_drop [OF s]) (use assms(2) in auto)
  have "call_parent ` set (plan6 b h4 h6) \<inter> within (Suc (Suc (Suc b))) (length (plan4 b h4)) = {}"
    using enclosed_routes [of "Suc (Suc b)" "Suc (Suc (Suc (b + length (plan4 b h4))))"] by (fastforce simp: enclosed_of_def within_def)
  with r show "rt_sits log (Suc (Suc (Suc b))) (plan4 b h4)" by (rule sits_append(1))
  have "call_parent ` set (plan4 b h4) \<inter> within (Suc (Suc (Suc (b + length (plan4 b h4))))) (length (plan6 b h4 h6)) = {}"
    using enclosed_routes [of "Suc b" "Suc (Suc (Suc b))"] by (fastforce simp: enclosed_of_def within_def)
  then show "rt_sits log (Suc (Suc (Suc (b + length (plan4 b h4))))) (plan6 b h4 h6)" using sits_append(2) [OF r] by simp
  have none: "rt_kids (Created i) t b' (plan4 b h4) = []" if "i \<noteq> Suc b" "i < Suc (Suc (Suc b))" for i t b'
    using that by (intro enclosed_kids [OF enclosed_routes]) auto
  have none6: "rt_kids (Created i) t b' (plan6 b h4 h6) = []" if "i \<noteq> Suc (Suc b)" "i < Suc (Suc (Suc b))" for i t b'
    using that by (intro enclosed_kids [OF enclosed_routes]) auto
  show "rt_kids (Created b) ''ipv4'' 0 log = [Suc b]" "rt_kids (Created b) ''ipv6'' 0 log = [Suc (Suc b)]"
    using assms(2) by (simp_all add: sits_kids [OF s] none none6)
  show "rt_kids (Created (Suc b)) ''route'' 0 log
        = starts (\<lambda>b' e. s_route_plan Uv4 ''next-hop/next-hop-list]/next-hop[index='' (Created (Suc b)) e b') (Suc (Suc (Suc b))) h4"
    using assms(2) by (simp add: sits_kids [OF s] none6 kids_routes)
  show "rt_kids (Created (Suc (Suc b))) ''route'' 0 log
        = starts (\<lambda>b' e. s_route_plan Uv6 ''next-hop/next-hop-list/next-hop[index='' (Created (Suc (Suc b))) e b')
            (Suc (Suc (Suc (b + length (plan4 b h4))))) h6"
    using assms(2) by (simp add: sits_kids [OF s] none kids_routes)
qed

lemma rt_name_static: "rt_name (New_path p ''static-routes'' v) = ''static-routes''"
  by simp

text \<open>The protocol that has the static routes.\<close>

lemma enclosed_proto: "rt_enclosed node b (s_proto_plan h4 h6 node c b)"
proof -
  have "rt_enclosed (Created b) (Suc (Suc b)) (if is_static c then s_static_plan h4 h6 (Created b) (b + 2) else [])"
    using enclosed_static [of "Created b" "b + 2"] by (simp add: enclosed_Nil)
  then show ?thesis unfolding s_proto_plan_def by (simp add: enclosed_Nil enclosed_node enclosed_leaf)
qed

lemma static_proto_sits:
  assumes "rt_sits log b (s_proto_plan h4 h6 (Created n) c b)" "n < b" "is_static c"
  shows "rt_sits log (b + 2) (s_static_plan h4 h6 (Created b) (b + 2))" "rt_kids (Created b) ''static-routes'' 0 log = [b + 2]"
    and "log ! b = New_path (Created n) (the (proto_path c)) None" "b < length log"
proof -
  let ?hds = "[New_path (Created n) (the (proto_path c)) None, New_path (Created b) ''description'' (cp_description c)]"
  let ?st = "s_static_plan h4 h6 (Created b) (b + 2)"
  have s: "rt_sits log b (?hds @ ?st)" using assms(1,3) by (simp add: s_proto_plan_def is_static_def)
  show "log ! b = New_path (Created n) (the (proto_path c)) None" "b < length log" using sits_nth [OF s, of 0] by simp_all
  show "rt_sits log (b + 2) ?st" by (rule sits_drop [OF s]) (use assms(2) in auto)
  have "Created b \<notin> call_parent ` set (tl ?st)"
  proof
    assume "Created b \<in> call_parent ` set (tl ?st)"
    then have "Created b \<in> within (b + 2) (length ?st)" by (rule subsetD [OF enclosed_static_rest])
    then show False by simp
  qed
  then have "rt_kids (Created b) ''static-routes'' (b + 2) (New_path (Created b) ''static-routes'' None # tl ?st) = [b + 2]"
    by (simp add: kids_none)
  moreover have "New_path (Created b) ''static-routes'' None # tl ?st = ?st" by (simp add: static_plan_parts)
  ultimately have "rt_kids (Created b) ''static-routes'' (b + 2) ?st = [b + 2]" by (simp only:)
  then show "rt_kids (Created b) ''static-routes'' 0 log = [b + 2]"
    using assms(2) by (simp add: sits_kids [OF s])
qed

section \<open>Lemmas: finding the container\<close>

lemma does_load_rib:
  assumes "accepts_all (sv_create V)"
  shows "does (load_rib V node b) (\<lambda>i. New_path node (rib_list_path b) None
      # New_path (Created i) ''address-family'' (Some (family_name (rib_address_family b)))
      # (if rib_description b \<noteq> [] then [New_path (Created i) ''description'' (Some (rib_description b))] else [])) False"
proof -
  have d: "does (if rib_description b \<noteq> [] then rnew (sv_create V) (New_path n ''description'' (Some (rib_description b))) (\<lambda>_. rskip) else rskip)
      (\<lambda>_. if rib_description b \<noteq> [] then [New_path n ''description'' (Some (rib_description b))] else []) False" for n
    using does_leaf [OF assms] does_skip by simp
  show ?thesis
    unfolding load_rib_def by (rule does_cong, rule does_new [OF assms], rule does_new [OF assms], rule d) simp_all
qed

lemma loop_plan_all: "(\<And>x b c. x \<in> set xs \<Longrightarrow> c \<in> set (p x b) \<Longrightarrow> Q c) \<Longrightarrow> c \<in> set (loop_plan p xs b) \<Longrightarrow> Q c"
  by (induction xs arbitrary: b) auto

lemma static_path_nth: "static_protocol_path ! 22 = CHR ''c''"
  by (simp add: static_protocol_path_def)

lemma rib_path_differs: "rib_list_path b \<noteq> static_protocol_path"
proof
  assume "rib_list_path b = static_protocol_path"
  moreover have "rib_list_path b ! 22 = CHR ''r''" by (simp add: rib_list_path_def cbuf_def)
  ultimately show False using static_path_nth by simp
qed

lemma other_paths [simp]:
  "rib_list_path b \<noteq> static_protocol_path" "route_list_path d \<noteq> static_protocol_path"
  "''address-family'' \<noteq> static_protocol_path" "''description'' \<noteq> static_protocol_path" "''static-routes'' \<noteq> static_protocol_path"
  "''/ietf-routing:routing'' \<noteq> static_protocol_path" "''/ietf-routing:routing/ribs'' \<noteq> static_protocol_path"
  "''/ietf-routing:routing/control-plane-protocols'' \<noteq> static_protocol_path"
  by (rule rib_path_differs) (simp_all add: static_protocol_path_def route_list_path_eq)

lemma load_ribs_made:
  assumes "accepts_all (sv_create V)"
  shows "\<exists>cs. rnew (sv_create V) (New_path node ''/ietf-routing:routing/ribs'' None) (\<lambda>n. rloop (load_rib V n) ribs) e log
      = Ret (Some e, log @ cs) \<and> (\<forall>c\<in>set cs. \<not> makes_static c)"
proof -
  let ?p = "\<lambda>n b i. New_path n (rib_list_path b) None
      # New_path (Created i) ''address-family'' (Some (family_name (rib_address_family b)))
      # (if rib_description b \<noteq> [] then [New_path (Created i) ''description'' (Some (rib_description b))] else [])"
  have d: "does (rnew (sv_create V) (New_path node ''/ietf-routing:routing/ribs'' None) (\<lambda>n. rloop (load_rib V n) ribs))
      (\<lambda>b. New_path node ''/ietf-routing:routing/ribs'' None # loop_plan (?p (Created b)) ribs (Suc b)) (\<exists>b\<in>set ribs. False)"
    by (intro does_new does_loop does_load_rib assms(1))
  have p: "\<not> makes_static c" if "c \<in> set (?p n b i)" for c n b i
    using that by (auto split: if_splits)
  have l: "\<not> makes_static c" if "c \<in> set (loop_plan (?p n) ribs b)" for c n b
    by (rule loop_plan_all [OF p that])
  have n: "\<not> makes_static c" if "c \<in> set (New_path node ''/ietf-routing:routing/ribs'' None # loop_plan (?p n) ribs b)" for c n b
    using that l [of c] by auto
  show ?thesis using d [unfolded does_def, rule_format, of e log] n by auto
qed

lemma load_ribs_calls:
  assumes "accepts_all (sv_create V)" "routing_startup_load_ribs V node log = Ret (e, log')"
  shows "\<exists>cs. log' = log @ cs \<and> (\<forall>c\<in>set cs. \<not> makes_static c)"
proof -
  consider (none) "log' = log"
    | (made) ribs r where "rnew (sv_create V) (New_path node ''/ietf-routing:routing/ribs'' None)
        (\<lambda>n. rloop (load_rib V n) ribs) 0 log = Ret (r, log')"
    using assms(2) by (auto simp: routing_startup_load_ribs_def obind_eq_Ret split: if_splits)
  then show ?thesis
  proof cases
    case (made ribs r)
    then show ?thesis using load_ribs_made [OF assms(1), of node ribs 0 log] by auto
  qed (simp add: exI [of _ "[]"])
qed

text \<open>Only the protocol with the number of static routes has the path that is read.\<close>

definition quiet :: "rt_call list \<Rightarrow> bool" where
  "quiet cs = (\<forall>c\<in>set cs. \<not> makes_static c)"

lemma quiet_simps [simp]:
  "quiet []" "quiet (c # cs) \<longleftrightarrow> \<not> makes_static c \<and> quiet cs" "quiet (xs @ ys) \<longleftrightarrow> quiet xs \<and> quiet ys"
  by (auto simp: quiet_def)

lemma quiet_many: "(\<And>b x. x \<in> set xs \<Longrightarrow> quiet (f b x)) \<Longrightarrow> quiet (plan_many f b xs)"
  by (induction xs arbitrary: b) simp_all

lemma quiet_leaves [simp]: "quiet (s_address_plan M n a)" "quiet (s_interface_plan M n nm)" "quiet (s_description_plan M n d)"
  by (simp_all add: s_address_plan_def s_interface_plan_def s_description_plan_def split: option.split)

lemma quiet_route: "quiet (s_route_plan M prefix n e b)"
  by (auto simp: s_route_plan_def s_next_hop_plan_def s_list_hop_plan_def loop_plan_many Let_def intro!: quiet_many
      split: next_hop_kind.split)

lemma quiet_static: "quiet (s_static_plan h4 h6 node b)"
  by (simp add: static_plan_parts quiet_many quiet_route)

lemma proto_calls:
  assumes "i < ROUTING_PROTOS_COUNT" "i \<noteq> 4"
  shows "quiet (s_proto_plan h4 h6 (Created n) (protos V ! i) b)"
proof (cases "cp_initialized (protos V ! i) = 0")
  case False
  let ?p = "protos V ! i"
  have t: "cp_type ?p = Some ''ietf-routing:direct''" "length (cp_name ?p) < 32"
    using protos_known(2) [OF assms(1), of V] assms(2) False by (auto simp: protocol_name_def intro!: cbuf_bounded)
  have "the (proto_path ?p) = ''/ietf-routing:routing/control-plane-protocols/control-plane-protocol[type='' @ [CHR 34]
      @ ''ietf-routing:direct'' @ [CHR 34] @ ''][name='' @ [CHR 34] @ cp_name ?p @ [CHR 34] @ '']''"
    unfolding proto_path_def t option.case option.sel using t(2) by (intro cbuf_fits) simp
  then have "the (proto_path ?p) \<noteq> static_protocol_path" by (simp add: static_protocol_path_def)
  then show ?thesis by (simp add: s_proto_plan_def quiet_static)
qed (simp add: s_proto_plan_def)

lemma static_proto:
  assumes "sv_proto2str V RTPROT_STATIC = ''static''"
  shows "is_static (protos V ! 4)" "proto_path (protos V ! 4) = Some static_protocol_path"
proof -
  have p: "protos V ! 4 = build_proto (sv_proto2str V) 4 zero_protocol" using protos_nth [of 4 V] by simp
  show "is_static (protos V ! 4)"
    using assms by (simp add: p is_static_def build_proto_def routing_is_proto_type_known_def cbuf_def)
  show "proto_path (protos V ! 4) = Some static_protocol_path"
    using assms by (simp add: p proto_path_def build_proto_def routing_is_proto_type_known_def known_types_map_def known_protocols_def
        protocol_name_def static_protocol_path_def cbuf_def)
qed

lemma plan_many_append: "plan_many f b (xs @ ys) = plan_many f b xs @ plan_many f (b + length (plan_many f b xs)) ys"
  by (induction xs arbitrary: b) (simp_all add: add.assoc)

lemma starts_nth: "i < length xs \<Longrightarrow> starts f b xs ! i = b + length (plan_many f b (take i xs))"
proof (induction xs arbitrary: b i)
  case (Cons x xs)
  then show ?case by (cases i) simp_all
qed simp

lemma find_first:
  assumes "b < n" "Q b" "\<And>i. i < b \<Longrightarrow> \<not> Q i"
  shows "find Q [0..<n] = Some b"
  using assms by (auto simp: find_Some_iff intro!: exI [of _ b])

text \<open>Where the protocol sits in the whole log, and that it is found there.\<close>

lemma scoped_parent: "scoped_tree log \<Longrightarrow> k < length log \<Longrightarrow> call_parent (log ! k) = Created i \<Longrightarrow> i < k"
  by (cases k) (auto simp: scoped_tree_def scoped_from_def valid_ref_def hd_conv_nth)

lemma static_proto_found:
  assumes "log = pre @ plan_many (\<lambda>b c. s_proto_plan h4 h6 (Created n) c b) (length pre) (protos V)" "scoped_tree log" "quiet pre"
    "n < length pre" "sv_proto2str V RTPROT_STATIC = ''static''"
  shows "\<exists>b>n. rt_sits log b (s_proto_plan h4 h6 (Created n) (protos V ! 4) b)
    \<and> find (\<lambda>i. makes_static (log ! i)) [0..<length log] = Some b"
proof -
  let ?f = "\<lambda>b c. s_proto_plan h4 h6 (Created n) c b"
  have len: "length (protos V) = ROUTING_PROTOS_COUNT" using protos_nth [of 0 V] by simp
  obtain b where b: "b = length pre + length (plan_many ?f (length pre) (take 4 (protos V)))" by blast
  have parent: "i < length pre" if c: "c \<in> set pre" "call_parent c = Created i" for c i
  proof -
    obtain k where k: "k < length pre" "pre ! k = c" using c(1) by (auto simp: in_set_conv_nth)
    then have "k < length log" "log ! k = c" by (simp_all add: assms(1) nth_append)
    then show ?thesis using scoped_parent [OF assms(2), of k i] c(2) k(1) by simp
  qed
  have "rt_sits log 0 (pre @ plan_many ?f (length pre) (protos V))" using sits_all [of call_parent rt_name log] assms(1) by simp
  then have "rt_sits log (length pre) (plan_many ?f (length pre) (protos V))" by (rule sits_drop) (use parent in auto)
  then have "list_all2 (\<lambda>i c. rt_sits log i (?f i c)) (map id (starts ?f (length pre) (protos V))) (protos V)"
    using assms(4) enclosed_proto by (intro many_sits [where p = "Created n"]) auto
  then have at: "rt_sits log b (?f b (protos V ! 4))"
    using len by (auto simp: list_all2_conv_all_nth starts_nth b dest: spec [of _ 4])
  have st: "is_static (protos V ! 4)" "proto_path (protos V ! 4) = Some static_protocol_path" using static_proto [OF assms(5)] by auto
  have n: "n < b" using assms(4) b by simp
  have "quiet (plan_many ?f (length pre) (take 4 (protos V)))"
    by (rule quiet_many) (use len proto_calls in \<open>auto simp: in_set_conv_nth\<close>)
  then have q: "quiet (pre @ plan_many ?f (length pre) (take 4 (protos V)))" using assms(3) by simp
  have "protos V = take 4 (protos V) @ drop 4 (protos V)" by simp
  then obtain rest where "log = (pre @ plan_many ?f (length pre) (take 4 (protos V))) @ rest"
    using assms(1) plan_many_append [of ?f "length pre" "take 4 (protos V)" "drop 4 (protos V)"] by auto
  then have "\<not> makes_static (log ! i)" if "i < b" for i
    using q that by (auto simp: nth_append b quiet_def)
  then have "find (\<lambda>i. makes_static (log ! i)) [0..<length log] = Some b"
    using static_proto_sits(3,4) [OF at n st(1)] st(2) by (intro find_first) simp_all
  then show ?thesis using at n by blast
qed

text \<open>So the routes of the containers are the entries of the two hashes.\<close>

lemma static_tree:
  assumes "log = pre @ plan_many (\<lambda>b c. s_proto_plan h4 h6 (Created n) c b) (length pre) (protos V)" "scoped_tree log" "quiet pre"
    "n < length pre" "sv_proto2str V RTPROT_STATIC = ''static''" "\<forall>e\<in>set h4 \<union> set h6. writable e"
  shows "\<exists>k4 k6. static_container log ''ipv4'' = Some k4 \<and> static_container log ''ipv6'' = Some k6
    \<and> map (route_at log) (rt_kids (Created k4) ''route'' 0 log) = map written_node h4
    \<and> map (route_at log) (rt_kids (Created k6) ''route'' 0 log) = map written_node h6"
proof -
  obtain b where b: "n < b" "rt_sits log b (s_proto_plan h4 h6 (Created n) (protos V ! 4) b)"
    "find (\<lambda>i. makes_static (log ! i)) [0..<length log] = Some b"
    using static_proto_found [OF assms(1-5)] by blast
  note p = static_proto_sits [OF b(2,1) static_proto(1) [OF assms(5)]]
  have "b < b + 2" by simp
  note s = static_plan_sits [OF p(1) this]
  have c: "static_container log ''ipv4'' = Some (Suc (b + 2))" "static_container log ''ipv6'' = Some (Suc (Suc (b + 2)))"
    using p(2) s(3,4) by (simp_all add: static_container_def b(3))
  have "map (route_at log) (rt_kids (Created (Suc (b + 2))) ''route'' 0 log) = map written_node h4"
    using s(5) s(1) assms(6) routes_at_plan by auto
  moreover have "map (route_at log) (rt_kids (Created (Suc (Suc (b + 2)))) ''route'' 0 log) = map written_node h6"
    using s(6) s(2) assms(6) routes_at_plan by auto
  ultimately show ?thesis using c by blast
qed

section \<open>Lemmas: the newest routes\<close>

text \<open>The static routes of a family, and the newest of them for every prefix.\<close>

definition statics :: "nl_route list \<Rightarrow> int \<Rightarrow> nl_route list" where
  "statics rs family = filter (\<lambda>r. nr_protocol r = RTPROT_STATIC \<and> nr_family r = family) rs"

fun newest :: "nl_route list \<Rightarrow> nl_route list" where
  "newest [] = []"
| "newest (r # rs) = (if nr_dst r \<in> nr_dst ` set rs then newest rs else r # newest rs)"

lemma newest_prefixes: "nr_dst ` set (newest rs) = nr_dst ` set rs"
  by (induction rs) auto

lemma newest_distinct: "distinct (map nr_dst (newest rs))"
  by (induction rs) (auto simp: newest_prefixes)

lemma newest_last: "r \<in> set (newest rs) \<Longrightarrow> r = last (filter (\<lambda>x. nr_dst x = nr_dst r) rs)"
proof (induction rs)
  case (Cons x rs)
  have e: "filter (\<lambda>y. nr_dst y = nr_dst r) rs = [] \<longleftrightarrow> nr_dst r \<notin> nr_dst ` set rs"
    by (auto simp: filter_empty_conv intro: rev_image_eqI)
  show ?case
  proof (cases "r \<in> set (newest rs)")
    case True
    then have "nr_dst r \<in> nr_dst ` set rs" using newest_prefixes by blast
    then show ?thesis using Cons.IH [OF True] e by simp
  next
    case False
    then have "r = x" "nr_dst x \<notin> nr_dst ` set rs" using Cons.prems by (auto split: if_splits)
    then show ?thesis using e by simp
  qed
qed simp

lemma newest_member: "r \<in> set (newest rs) \<Longrightarrow> r \<in> set rs"
  by (induction rs) (auto split: if_splits)

lemma static_for_newest:
  "static_for E rs family p = rev (map (\<lambda>r. route_of E (as_unicast r)) (filter (\<lambda>r. nr_dst r = p) (statics rs family)))"
  by (simp add: static_for_def statics_def conj_ac)

text \<open>Two lists with the same keys.\<close>

lemma mset_by_key:
  assumes "distinct (map k xs)" "distinct (map k' ys)" "set (map k xs) = set (map k' ys)"
    "\<And>x y. x \<in> set xs \<Longrightarrow> y \<in> set ys \<Longrightarrow> k x = k' y \<Longrightarrow> g x = g' y"
  shows "mset (map g xs) = mset (map g' ys)"
proof -
  let ?F = "\<lambda>p. g' (hd (filter (\<lambda>y. k' y = p) ys))"
  have one: "filter (\<lambda>z. k' z = k' y) ys = [y]" if "y \<in> set ys" for y
    using that assms(2) by (induction ys) (auto simp: filter_empty_conv intro: rev_image_eqI)
  have gx: "g x = ?F (k x)" if x: "x \<in> set xs" for x
  proof -
    obtain y where y: "y \<in> set ys" "k x = k' y" using assms(3) x by auto
    show ?thesis using assms(4) [OF x y] one [OF y(1)] y(2) by simp
  qed
  have "mset (map k xs) = mset (map k' ys)" using assms(1-3) set_eq_iff_mset_eq_distinct by blast
  then have "mset (map ?F (map k xs)) = mset (map ?F (map k' ys))" by (simp only: mset_map)
  moreover have "map ?F (map k xs) = map g xs" using gx by simp
  moreover have "map ?F (map k' ys) = map g' ys" using one by simp
  ultimately show ?thesis by (simp only:)
qed

text \<open>A route that the datastore can carry: a single next hop on a link whose name resolves back, and addresses
  that are parsed from what they are printed as.\<close>

definition carried :: "startup_env \<Rightarrow> persist_env \<Rightarrow> nl_route \<Rightarrow> bool" where
  "carried V P r = (case nr_nexthops r of
      [nh] \<Rightarrow> (case rv_link_name (sv_rib V) (nn_ifindex nh) of None \<Rightarrow> False | Some name \<Rightarrow> pv_ifindex P name = nn_ifindex nh)
        \<and> (case nn_gateway nh of None \<Rightarrow> True | Some g \<Rightarrow> pv_parse P (cbuf 46 (na_text g)) = Inr g)
        \<and> pv_parse P (prefix_buffer (nr_dst r)) = Inr (nr_dst r) \<and> CHR 34 \<notin> set (prefix_buffer (nr_dst r))
    | _ \<Rightarrow> False)"

text \<open>What is sent for it: its gateway and link, without its priority, and without a gateway no next hop at all.\<close>

definition restored :: "nl_route \<Rightarrow> route_call" where
  "restored r = new_request (nr_dst r) zero_route (case nr_nexthops r of
      [nh] \<Rightarrow> (case nn_gateway nh of None \<Rightarrow> [] | Some g \<Rightarrow> [(Some (nn_ifindex nh), Some g)])
    | _ \<Rightarrow> [])"

lemma carried_links: "carried V P r \<Longrightarrow> links_known (sv_rib V) (as_unicast r)"
  by (auto simp: carried_def links_known_def as_unicast_def special_name_def split: list.splits option.splits)

lemma carried_entry:
  assumes "carried V P r" "re_prefix e = nr_dst r" "hd (re_routes e) = route_of (sv_rib V) (as_unicast r)"
  shows "writable e" "readable_node P (written_node e)" "node_request P (written_node e) = restored r"
proof -
  obtain nh name where n: "nr_nexthops r = [nh]" "rv_link_name (sv_rib V) (nn_ifindex nh) = Some name" "pv_ifindex P name = nn_ifindex nh"
    "\<And>g. nn_gateway nh = Some g \<Longrightarrow> pv_parse P (cbuf 46 (na_text g)) = Inr g"
    "pv_parse P (prefix_buffer (nr_dst r)) = Inr (nr_dst r)" "CHR 34 \<notin> set (prefix_buffer (nr_dst r))"
    using assms(1) by (auto simp: carried_def split: list.splits option.splits)
  have hop: "next_hop_of (sv_rib V) (as_unicast r) = zero_next_hop\<lparr>nh_kind := kind_simple, nh_simple := hop_of (Some name) nh\<rparr>"
    by (simp add: next_hop_of_def as_unicast_def special_name_def n)
  then have h: "entry_hop e = hop_of (Some name) nh" by (simp add: entry_hop_def assms(3) route_of_def)
  show "writable e" by (simp add: writable_def single_hop_def assms(2,3) n(6) route_of_def hop zero_route_def)
  show "readable_node P (written_node e)"
    using n(4) by (auto simp: readable_node_def written_node_def h hop_of_def assms(2) n(5) split: option.split)
  show "node_request P (written_node e) = restored r"
    using n(4) by (auto simp: node_request_def node_prefix_def restored_def written_node_def h hop_of_def assms(2) n(1,3,5) split: option.split)
qed

lemma static_entries:
  assumes "holds_static (sv_rib V) rs family h" "\<forall>r\<in>set (statics rs family). carried V P r"
  shows "\<forall>e\<in>set h. writable e \<and> readable_node P (written_node e)"
    "mset (map (\<lambda>e. node_request P (written_node e)) h) = mset (map restored (newest (statics rs family)))"
proof -
  let ?rs = "statics rs family"
  have routes: "re_routes e = static_for (sv_rib V) rs family (re_prefix e) \<and> re_routes e \<noteq> []" if "e \<in> set h" for e
    using routes_at_entry [OF _ that] assms(1) that by (auto simp: holds_static_def)
  have at: "hd (re_routes e) = route_of (sv_rib V) (as_unicast r)" if "e \<in> set h" "r \<in> set (newest ?rs)" "re_prefix e = nr_dst r" for e r
  proof -
    have "filter (\<lambda>x. nr_dst x = nr_dst r) ?rs \<noteq> []" using newest_member [OF that(2)] by (auto simp: filter_empty_conv)
    then show ?thesis
      using routes [OF that(1)] newest_last [OF that(2)] that(3) by (simp add: static_for_newest hd_rev last_map)
  qed
  have keys: "set (map re_prefix h) = set (map nr_dst (newest ?rs))"
  proof -
    have "p \<in> re_prefix ` set h \<longleftrightarrow> static_for (sv_rib V) rs family p \<noteq> []" for p
    proof
      assume "p \<in> re_prefix ` set h"
      then show "static_for (sv_rib V) rs family p \<noteq> []" using routes by force
    next
      assume "static_for (sv_rib V) rs family p \<noteq> []"
      then have "routes_at h p \<noteq> []" using assms(1) by (simp add: holds_static_def)
      then obtain e where "hash_find re_prefix p h = Some e" by (cases "hash_find re_prefix p h") (simp_all add: routes_at_def)
      then show "p \<in> re_prefix ` set h" using hash_find_SomeD by (metis image_eqI)
    qed
    moreover have "static_for (sv_rib V) rs family p \<noteq> [] \<longleftrightarrow> p \<in> nr_dst ` set ?rs" for p
      by (auto simp: static_for_newest filter_empty_conv)
    ultimately show ?thesis by (auto simp: newest_prefixes)
  qed
  have "writable e \<and> readable_node P (written_node e)" if e: "e \<in> set h" for e
  proof -
    have "re_prefix e \<in> set (map nr_dst (newest ?rs))" using keys e by (metis imageI list.set_map)
    then obtain r where r: "r \<in> set (newest ?rs)" "re_prefix e = nr_dst r" by auto
    then show ?thesis using carried_entry(1,2) [OF _ r(2) at [OF e r]] newest_member [OF r(1)] assms(2) by blast
  qed
  then show "\<forall>e\<in>set h. writable e \<and> readable_node P (written_node e)" by blast
  show "mset (map (\<lambda>e. node_request P (written_node e)) h) = mset (map restored (newest ?rs))"
  proof (rule mset_by_key [OF _ newest_distinct keys])
    show "distinct (map re_prefix h)" using assms(1) by (simp add: holds_static_def)
    show "node_request P (written_node e) = restored r" if "e \<in> set h" "r \<in> set (newest ?rs)" "re_prefix e = nr_dst r" for e r
      using carried_entry(3) [OF _ that(3) at [OF that]] newest_member [OF that(2)] assms(2) by blast
  qed
qed

section \<open>Properties\<close>

text \<open>C4. Loading and restoring routes: when the initial load has sent its tree to the datastore, every static route of the
  system has one next hop and its link and addresses can be read back, and the datastore gives back
  the routes of that tree, then restoring sends exactly one request for the newest static route of every prefix
  and family: only a request that is refused or a lack of memory ends it early, with -1, and it succeeds when all are
  accepted.  A request has the gateway and the link of its route, but the priority is lost, and a route
  without a gateway is sent without a next hop; the older routes of a prefix are not restored.\<close>

theorem static_routes_restored:
  assumes "routing_startup_load_data V A calls = Ret (0, calls @ [Edit_batch log, Apply_changes])" "saved_routes P log"
    and "startup_ready V" "sv_proto2str V RTPROT_STATIC = ''static''"
    and "\<forall>r\<in>set (sv_routes V). nr_protocol r = RTPROT_STATIC \<longrightarrow> carried V P r" "pv_socket P" "pv_connect P = 0"
  shows "\<exists>adds r. routing_persist_static_routes P l = Ret r \<and> sends (pv_apply P) adds l r
    \<and> (accepts (pv_apply P) \<longrightarrow> r = (0, l @ adds))
    \<and> mset adds = mset (map restored (newest (statics (sv_routes V) AF_INET4) @ newest (statics (sv_routes V) AF_INET_6)))"
proof -
  let ?root = "[New_path Root ''/ietf-routing:routing'' None]" and ?E = "sv_rib V" and ?rs = "sv_routes V"
  have ok: "accepts_all (sv_create V)" using assms(3) by (simp add: startup_ready_def)
  have scoped: "scoped_tree log" using load_data_calls [OF assms(1)] by auto
  obtain log1 where l1: "routing_startup_load_ribs V (Created 0) ?root = Ret (0, log1)"
    and l2: "routing_startup_load_control_plane_protocols V (Created 0) log1 = Ret (0, log)"
    using assms(1) by (auto simp: routing_startup_load_data_def obind_eq_Ret Let_def split: if_splits)
  obtain cs where cs: "log1 = ?root @ cs" "\<forall>c\<in>set cs. \<not> makes_static c" using load_ribs_calls [OF ok l1] by blast
  have "\<forall>r\<in>set ?rs. nr_protocol r = RTPROT_STATIC \<longrightarrow> links_known ?E (as_unicast r)" using assms(5) carried_links by blast
  then obtain h4 h6 where h: "holds_static ?E ?rs AF_INET4 h4" "holds_static ?E ?rs AF_INET_6 h6"
    "log = log1 @ New_path (Created 0) ''/ietf-routing:routing/control-plane-protocols'' None
        # loop_plan (s_proto_plan h4 h6 (Created (length log1))) (protos V) (Suc (length log1))"
    using load_protocols_run [OF assms(3), of "Created 0" log1] l2 by auto
  have c: "\<forall>r\<in>set (statics ?rs family). carried V P r" for family using assms(5) by (auto simp: statics_def)
  note e4 = static_entries [OF h(1) c] and e6 = static_entries [OF h(2) c]
  let ?pre = "log1 @ [New_path (Created 0) ''/ietf-routing:routing/control-plane-protocols'' None]"
  have "log = ?pre @ plan_many (\<lambda>b c. s_proto_plan h4 h6 (Created (length log1)) c b) (length ?pre) (protos V)"
    using h(3) by (simp add: loop_plan_many)
  moreover have "quiet ?pre" using cs by (simp add: quiet_def)
  ultimately obtain k4 k6 where k: "static_container log ''ipv4'' = Some k4" "static_container log ''ipv6'' = Some k6"
    "map (route_at log) (rt_kids (Created k4) ''route'' 0 log) = map written_node h4"
    "map (route_at log) (rt_kids (Created k6) ''route'' 0 log) = map written_node h6"
    using static_tree [OF _ scoped _ _ assms(4), of ?pre h4 h6 "length log1"] e4(1) e6(1) by auto
  obtain ns4 ns6 where ns: "pv_subtree P (static_routes_path ''ipv4'') = Inr ns4" "pv_subtree P (static_routes_path ''ipv6'') = Inr ns6"
    "mset ns4 = mset (map written_node h4)" "mset ns6 = mset (map written_node h6)"
    using saved_routes.subtree [OF assms(2) _ k(1)] saved_routes.subtree [OF assms(2) _ k(2)] k(3,4) by auto
  have "\<forall>n\<in>set (ns4 @ ns6). readable_node P n"
    using e4(1) e6(1) mset_eq_setD [OF ns(3)] mset_eq_setD [OF ns(4)] by auto
  from persist_static_routes [OF assms(6,7) ns(1,2) this, of l]
  obtain adds r where p: "routing_persist_static_routes P l = Ret r" "sends (pv_apply P) adds l r"
    "mset adds = mset (map (node_request P) (ns4 @ ns6))" by blast
  have "mset adds = image_mset (node_request P) (mset (map written_node h4)) + image_mset (node_request P) (mset (map written_node h6))"
    by (simp only: p(3) mset_map mset_append image_mset_union ns(3,4))
  also have "\<dots> = mset (map restored (newest (statics ?rs AF_INET4) @ newest (statics ?rs AF_INET_6)))"
    using e4(2) e6(2) by (simp add: multiset.map_comp comp_def)
  finally show ?thesis using p(1,2) sends_accepts by blast
qed

text \<open>A system with one static route, restored from the tree that was edited in.\<close>

definition demo_gateway :: nl_addr where
  "demo_gateway = \<lparr> na_family = 2, na_text = ''192.0.2.1'', na_prefixlen = 32 \<rparr>"

definition demo_static :: nl_route where
  "demo_static = (demo_route 5)\<lparr>nr_nexthops := [\<lparr> nn_ifindex = 2, nn_gateway = Some demo_gateway \<rparr>]\<rparr>"

definition demo_persist :: persist_env where
  "demo_persist = \<lparr> pv_subtree = (\<lambda>_. Inl 3), pv_parse = (\<lambda>s. Inr (if s = ''192.0.2.1'' then demo_gateway else demo_prefix)),
     pv_ifindex = (\<lambda>_. 2), pv_socket = True, pv_connect = 0, pv_apply = demo_apply_env \<rparr>"

lemma demo_static_load:
  "\<exists>log. routing_startup_load_data (demo_startup [demo_static]) (\<lambda>_ _. 0) [] = Ret (0, [Edit_batch log, Apply_changes])"
proof -
  let ?V = "demo_startup [demo_static]"
  have v: "sv_rib ?V = demo_rib_env" "sv_routes ?V = [demo_static]" "accepts_all (sv_create ?V)" "sv_ribs_routes ?V = [demo_static]"
    by (simp_all add: demo_startup_def accepts_all_def)
  let ?root = "[New_path Root ''/ietf-routing:routing'' None]"
  have "routing_collect_ribs demo_rib_env [demo_static] [] = Ret (0, map (describe_rib demo_rib_env) (map collected_rib [rib_of demo_rib_env demo_static]))"
    using collect_ribs_loop_ok [of "[]" demo_rib_env "[demo_static]"]
    by (simp add: routing_collect_ribs_def routing_build_rib_descriptions_def)
  moreover obtain log1 where "rnew (sv_create ?V) (New_path (Created 0) ''/ietf-routing:routing/ribs'' None)
      (\<lambda>n. rloop (load_rib ?V n) (map (describe_rib demo_rib_env) (map collected_rib [rib_of demo_rib_env demo_static]))) 0 ?root
        = Ret (Some 0, log1)"
    using load_ribs_made [OF v(3)] by blast
  moreover have "sv_context ?V 1" "sv_ribs_socket ?V" "sv_ribs_connect ?V = 0" "sv_ribs_cache ?V = 0" "sv_ribs_table_names ?V = 0"
    "sv_ribs_protocol_names ?V = 0"
    by (simp_all add: demo_startup_def)
  ultimately have l1: "routing_startup_load_ribs ?V (Created 0) ?root = Ret (0, log1)"
    by (simp only: routing_startup_load_ribs_def v(1,4) obind.simps) simp
  have "\<forall>r\<in>set [demo_static]. nr_protocol r = RTPROT_STATIC \<longrightarrow> links_known demo_rib_env (as_unicast r)"
    by (simp add: demo_static_def demo_route_def as_unicast_def links_known_def special_name_def demo_rib_env_def)
  moreover have "\<not> newest_multipath demo_rib_env [demo_static] family" for family
    by (auto simp: newest_multipath_def static_for_def demo_static_def demo_route_def as_unicast_def multipath_def route_of_def
        next_hop_of_def special_name_def)
  ultimately obtain log where l2: "routing_startup_load_control_plane_protocols ?V (Created 0) log1 = Ret (0, log)"
    using load_protocols_run [OF demo_startup_ready(1), of "[demo_static]" "Created 0" log1] unfolding v by auto
  have "sv_context ?V 0" "sv_create ?V [] (New_path Root ''/ietf-routing:routing'' None) = 0"
    by (simp_all add: demo_startup_def)
  then show ?thesis using l1 l2 by (simp add: routing_startup_load_data_def Let_def)
qed

lemma demo_static_carried: "carried (demo_startup [demo_static]) (demo_persist\<lparr>pv_subtree := f\<rparr>) demo_static"
  by (simp add: carried_def demo_static_def demo_route_def demo_startup_def demo_rib_env_def demo_persist_def demo_gateway_def
      prefix_buffer_def demo_prefix_def cbuf_def)

theorem static_routes_restored_witness:
  "\<exists>log. routing_startup_load_data (demo_startup [demo_static]) (\<lambda>_ _. 0) [] = Ret (0, [Edit_batch log, Apply_changes])
    \<and> routing_persist_static_routes (demo_persist\<lparr>pv_subtree := log_subtree log\<rparr>) []
        = Ret (0, [new_request demo_prefix zero_route [(Some 2, Some demo_gateway)]])"
proof -
  obtain log where l: "routing_startup_load_data (demo_startup [demo_static]) (\<lambda>_ _. 0) [] = Ret (0, [Edit_batch log, Apply_changes])"
    using demo_static_load by blast
  let ?P = "demo_persist\<lparr>pv_subtree := log_subtree log\<rparr>"
  have v: "sv_routes (demo_startup [demo_static]) = [demo_static]" "sv_proto2str (demo_startup [demo_static]) RTPROT_STATIC = ''static''"
    "pv_socket ?P" "pv_connect ?P = 0"
    "accepts (pv_apply ?P)"
    by (simp_all add: demo_startup_def demo_persist_def demo_apply_env_def accepts_def)
  have s: "newest (statics [demo_static] AF_INET4) = [demo_static]" "newest (statics [demo_static] AF_INET_6) = []"
    "restored demo_static = new_request demo_prefix zero_route [(Some 2, Some demo_gateway)]"
    by (simp_all add: statics_def demo_static_def demo_route_def restored_def)
  from static_routes_restored [of "demo_startup [demo_static]" "\<lambda>_ _. 0" "[]" log ?P "[]", unfolded v(1)]
  obtain adds where p: "routing_persist_static_routes ?P [] = Ret (0, adds)"
    "mset adds = {# new_request demo_prefix zero_route [(Some 2, Some demo_gateway)] #}"
    using l log_routes.saved_routes_axioms demo_startup_ready(1) v demo_static_carried by (auto simp: s)
  then have "adds = [new_request demo_prefix zero_route [(Some 2, Some demo_gateway)]]" by (metis mset_single_iff)
  with l p(1) show ?thesis by blast
qed

end
