(* ===== verification/RtPlugin.thy ===== *)
theory RtPlugin
  imports RtStartup
begin

text \<open>
  The life cycle of the routing plugin: \<^verbatim>\<open>routing/routing.c\<close> (initialisation and cleanup),
  \<^verbatim>\<open>routing/subscription/rpc.c\<close> and \<^verbatim>\<open>routing/main.c\<close> (the program around them).
\<close>

section \<open>Initialisation and cleanup\<close>

text \<open>\<^verbatim>\<open>pe_items\<close> is what \<^verbatim>\<open>sr_get_items\<close> answers: an error, and the number of values found.\<close>

record routing_env =
  pe_startup :: startup_env
  pe_sr :: sr_answers
  pe_items :: "int \<times> nat"

text \<open>The context of the plugin; the session is there or \<^verbatim>\<open>NULL\<close>.\<close>

record routing_ctx =
  rc_startup_session :: bool

definition routing_running_datastore_is_empty :: "routing_env \<Rightarrow> bool" where
  "routing_running_datastore_is_empty P =
    (case pe_items P of (e, value_cnt) \<Rightarrow> if e \<noteq> 0 then True else value_cnt = 0)"

fun request_all :: "sr_answers \<Rightarrow> sr_request list \<Rightarrow> sr_calls \<Rightarrow> int \<times> sr_calls" where
  "request_all A [] calls = (0, calls)"
| "request_all A (r # rs) calls = (if A calls r \<noteq> 0 then (A calls r, calls @ [r]) else request_all A rs (calls @ [r]))"

definition load_and_copy :: "routing_env \<Rightarrow> routing_ctx \<Rightarrow> sr_calls \<Rightarrow> (int \<times> sr_calls) outcome" where
  "load_and_copy P ctx calls =
    (if routing_running_datastore_is_empty P then
       obind (routing_startup_load_data (pe_startup P) (pe_sr P) calls) (\<lambda>(e1, calls1).
       Ret (if e1 \<noteq> 0 then (e1, calls1) else request_all (pe_sr P) [Copy_config (rc_startup_session ctx)] calls1))
     else Ret (0, calls))"

text \<open>A startup session that cannot be opened is only reported.\<close>

definition routing_plugin_init_cb :: "routing_env \<Rightarrow> sr_calls \<Rightarrow> (int \<times> routing_ctx option \<times> sr_calls) outcome" where
  "routing_plugin_init_cb P calls =
    (let ctx = \<lparr> rc_startup_session = (pe_sr P calls Start_startup_session = 0) \<rparr>
     in obind (load_and_copy P ctx (calls @ [Start_startup_session])) (\<lambda>(e1, calls1).
       if e1 \<noteq> 0 then Ret (e1, Some ctx, calls1) else
       (case request_all (pe_sr P) [Subscribe_protocols, Subscribe_interfaces, Subscribe_ribs, Subscribe_active_route] calls1 of
          (e2, calls2) \<Rightarrow> Ret (e2, Some ctx, calls2))))"

definition routing_plugin_cleanup_cb :: "routing_ctx option \<Rightarrow> sr_calls \<Rightarrow> sr_calls outcome" where
  "routing_plugin_cleanup_cb private_data calls =
    (case private_data of
       None \<Rightarrow> Undef
     | Some ctx \<Rightarrow> Ret (if rc_startup_session ctx then calls @ [Stop_session] else calls))"

text \<open>The rpc for the active route of a prefix (\<^verbatim>\<open>subscription/rpc.c\<close>): it looks at nothing and leaves the
  output as it is.\<close>

definition routing_rpc_active_route_cb :: "cstr \<Rightarrow> 'v list \<Rightarrow> 'v list \<Rightarrow> int \<times> 'v list" where
  "routing_rpc_active_route_cb op_path input output = (0, output)"

section \<open>The program\<close>

text \<open>\<^verbatim>\<open>connect\<close> and \<^verbatim>\<open>started\<close> are the answers of \<^verbatim>\<open>sr_connect\<close> and \<^verbatim>\<open>sr_session_start\<close>; the
  program waits until it is interrupted.  The private data is \<^verbatim>\<open>NULL\<close> before the initialisation.\<close>

definition routing_main :: "routing_env \<Rightarrow> int \<Rightarrow> int \<Rightarrow> (int \<times> sr_calls) outcome" where
  "routing_main P connect started =
    obind (if connect \<noteq> 0 then Ret (connect, None, [])
           else if started \<noteq> 0 then Ret (started, None, [])
           else routing_plugin_init_cb P []) (\<lambda>(error, private_data, calls).
    obind (routing_plugin_cleanup_cb private_data calls) (\<lambda>calls1. Ret (if error \<noteq> 0 then -1 else 0, calls1)))"

section \<open>Lemmas\<close>

lemma request_all_prefix: "request_all A rs calls = (e, calls') \<Longrightarrow>
    \<exists>n\<le>length rs. calls' = calls @ take n rs \<and> (e = 0 \<longrightarrow> n = length rs)"
proof (induction rs arbitrary: calls)
  case (Cons r rs)
  show ?case
  proof (cases "A calls r = 0")
    case True
    then obtain n where "n \<le> length rs" "calls' = (calls @ [r]) @ take n rs" "e = 0 \<longrightarrow> n = length rs"
      using Cons.IH [of "calls @ [r]"] Cons.prems by auto
    then show ?thesis by (intro exI [of _ "Suc n"]) simp
  next
    case False
    then show ?thesis using Cons.prems by (intro exI [of _ 1]) auto
  qed
qed simp

lemma request_all_ok: "(\<And>calls r. r \<in> set rs \<Longrightarrow> A calls r = 0) \<Longrightarrow> request_all A rs calls = (0, calls @ rs)"
  by (induction rs arbitrary: calls) simp_all

lemma load_and_copy_calls:
  assumes "load_and_copy P ctx calls = Ret (e, calls')"
  shows "\<exists>ext. calls' = calls @ ext
    \<and> (\<forall>log. Edit_batch log \<in> set ext \<longrightarrow> scoped_tree log \<and> hd log = New_path Root ''/ietf-routing:routing'' None)"
proof (cases "routing_running_datastore_is_empty P")
  case True
  then obtain e1 calls1 where l: "routing_startup_load_data (pe_startup P) (pe_sr P) calls = Ret (e1, calls1)"
    "(e, calls') = (if e1 \<noteq> 0 then (e1, calls1) else request_all (pe_sr P) [Copy_config (rc_startup_session ctx)] calls1)"
    using assms by (auto simp: load_and_copy_def obind_eq_Ret)
  have c: "\<exists>ext. calls1 = calls @ ext
      \<and> (\<forall>log. Edit_batch log \<in> set ext \<longrightarrow> scoped_tree log \<and> hd log = New_path Root ''/ietf-routing:routing'' None)"
    using load_data_calls [OF l(1)] by auto
  have "calls' = calls1 \<or> calls' = calls1 @ [Copy_config (rc_startup_session ctx)]"
    using l(2) by (auto split: if_splits)
  then show ?thesis using c by auto
qed (use assms in \<open>simp add: load_and_copy_def\<close>)

section \<open>Properties\<close>

text \<open>C10. Whatever the libraries answer, a tree that the initialisation sends to the datastore has one node without
  a parent, the container of the module, and each other node is created below a node that was created
  before it and is not a leaf.  The routes of the tables are reported below the parent that sysrepo
  passes, in the same sense.  The getter of the interfaces does not do so without such a parent: it
  makes a node for them, but then creates every interface without a parent.\<close>

theorem edited_trees_scoped:
  assumes "routing_plugin_init_cb P [] = Ret (e, ctx, calls)"
  shows "(\<forall>log. Edit_batch log \<in> set calls \<longrightarrow> scoped_tree log \<and> hd log = New_path Root ''/ietf-routing:routing'' None)
    \<and> (\<forall>Q r log. oper_get_rib_routes_cb Q [] = Ret (r, log) \<longrightarrow> scoped_from 0 {Parent} log)
    \<and> (\<forall>Q. \<not> iq_parent Q \<and> iq_context Q \<and> iq_socket Q \<and> iq_connect Q = 0 \<and> iq_link_cache Q = 0 \<and> accepts_all (iq_create Q)
        \<and> iq_names Q \<noteq> [] \<longrightarrow> (\<exists>log. oper_get_interfaces_cb Q [] = Ret (0, log) \<and> \<not> scoped_from 1 {Parent} log \<and> \<not> scoped_tree log))"
proof (intro conjI allI impI)
  fix log
  assume log: "Edit_batch log \<in> set calls"
  obtain e1 calls1 ctx1 where l: "load_and_copy P ctx1 [Start_startup_session] = Ret (e1, calls1)"
    "calls = calls1 \<or> (e, calls) = request_all (pe_sr P) [Subscribe_protocols, Subscribe_interfaces, Subscribe_ribs, Subscribe_active_route] calls1"
    using assms by (auto simp: routing_plugin_init_cb_def Let_def obind_eq_Ret split: if_splits prod.splits)
  obtain n where "calls = calls1 \<or> calls = calls1 @ take n [Subscribe_protocols, Subscribe_interfaces, Subscribe_ribs, Subscribe_active_route]"
    using l(2) request_all_prefix by metis
  then have "Edit_batch log \<in> set calls1"
    using log set_take_subset [of n "[Subscribe_protocols, Subscribe_interfaces, Subscribe_ribs, Subscribe_active_route]"] by auto
  then show "scoped_tree log" "hd log = New_path Root ''/ietf-routing:routing'' None" using load_and_copy_calls [OF l(1)] by auto
next
  fix Q :: interfaces_query
  assume "\<not> iq_parent Q \<and> iq_context Q \<and> iq_socket Q \<and> iq_connect Q = 0 \<and> iq_link_cache Q = 0 \<and> accepts_all (iq_create Q) \<and> iq_names Q \<noteq> []"
  then have Q: "oper_get_interfaces_cb Q [] = Ret (0, New_path Root (iq_request_xpath Q) None
      # map (\<lambda>name. New_path Root ''/ietf-routing:routing/interfaces/interface'' (Some name)) (iq_names Q))" "iq_names Q \<noteq> []"
    using interfaces_without_parent by blast+
  then have "\<not> scoped_from 1 B (New_path Root (iq_request_xpath Q) None
      # map (\<lambda>name. New_path Root ''/ietf-routing:routing/interfaces/interface'' (Some name)) (iq_names Q))" if "Root \<notin> B" for B
    using that by (cases "iq_names Q") (auto simp: scoped_from_def valid_ref_def intro!: exI [of _ 1])
  then show "\<exists>log. oper_get_interfaces_cb Q [] = Ret (0, log) \<and> \<not> scoped_from 1 {Parent} log \<and> \<not> scoped_tree log"
    using Q(1) by (auto simp: scoped_tree_def)
qed (use rib_routes_scoped in blast)

text \<open>A system with one static route, an empty datastore, and sysrepo accepts everything.\<close>

definition demo_routing :: routing_env where
  "demo_routing = \<lparr> pe_startup = demo_startup [], pe_sr = (\<lambda>_ _. 0), pe_items = (0, 0) \<rparr>"

lemma demo_routing_load:
  "\<exists>log. 1 < length log \<and> routing_startup_load_data (demo_startup []) A calls =
    (if A calls (Edit_batch log) \<noteq> 0 then Ret (A calls (Edit_batch log), calls @ [Edit_batch log])
     else Ret (A (calls @ [Edit_batch log]) Apply_changes, calls @ [Edit_batch log, Apply_changes]))"
proof -
  have v: "sv_rib (demo_startup []) = demo_rib_env" "sv_routes (demo_startup []) = []" "sv_ribs_routes (demo_startup []) = []"
    by (simp_all add: demo_startup_def)
  let ?root = "[New_path Root ''/ietf-routing:routing'' None]"
  have "routing_startup_load_ribs (demo_startup []) (Created 0) ?root = Ret (0, ?root @ [New_path (Created 0) ''/ietf-routing:routing/ribs'' None])"
    by (simp add: routing_startup_load_ribs_def demo_startup_def routing_collect_ribs_def routing_build_rib_descriptions_def rnew_def rskip_def)
  moreover obtain log where "routing_startup_load_control_plane_protocols (demo_startup []) (Created 0)
      (?root @ [New_path (Created 0) ''/ietf-routing:routing/ribs'' None]) = Ret (0, log)" "1 < length log"
    using load_protocols_run [OF demo_startup_ready(1), of "[]" "Created 0"
        "?root @ [New_path (Created 0) ''/ietf-routing:routing/ribs'' None]"] unfolding v by (auto simp: newest_multipath_def)
  moreover have "sv_context (demo_startup []) 0" "sv_create (demo_startup []) [] (New_path Root ''/ietf-routing:routing'' None) = 0"
    by (simp_all add: demo_startup_def)
  ultimately show ?thesis by (intro exI [of _ log]) (simp add: routing_startup_load_data_def Let_def)
qed

lemma demo_routing_init:
  "\<exists>log. 1 < length log \<and> routing_plugin_init_cb demo_routing [] = Ret (0, Some \<lparr> rc_startup_session = True \<rparr>,
    [Start_startup_session, Edit_batch log, Apply_changes, Copy_config True, Subscribe_protocols, Subscribe_interfaces, Subscribe_ribs,
     Subscribe_active_route])"
proof -
  have v: "pe_startup demo_routing = demo_startup []" "pe_sr demo_routing = (\<lambda>_ _. 0)" "routing_running_datastore_is_empty demo_routing"
    by (simp_all add: demo_routing_def routing_running_datastore_is_empty_def)
  obtain log where "routing_startup_load_data (demo_startup []) (\<lambda>_ _. 0) [Start_startup_session]
      = Ret (0, [Start_startup_session, Edit_batch log, Apply_changes])" "1 < length log"
    using demo_routing_load [of "\<lambda>_ _. 0" "[Start_startup_session]"] by auto
  then show ?thesis by (intro exI [of _ log]) (simp add: routing_plugin_init_cb_def load_and_copy_def v)
qed

theorem edited_trees_scoped_witness:
  "\<exists>e ctx calls log. routing_plugin_init_cb demo_routing [] = Ret (e, ctx, calls) \<and> Edit_batch log \<in> set calls
     \<and> scoped_tree log \<and> 1 < length log"
proof -
  obtain log where i: "routing_plugin_init_cb demo_routing [] = Ret (0, Some \<lparr> rc_startup_session = True \<rparr>,
    [Start_startup_session, Edit_batch log, Apply_changes, Copy_config True, Subscribe_protocols, Subscribe_interfaces, Subscribe_ribs,
     Subscribe_active_route])" "1 < length log"
    using demo_routing_init by blast
  then show ?thesis using edited_trees_scoped [OF i(1)] i by auto
qed

text \<open>C12. A failure to acquire the context of libyang, or to create the container of the tree, goes unnoticed: the
  initial load answers success without having sent anything, the empty configuration is copied, and
  the plugin subscribes as if its data were there.\<close>

theorem start_without_data:
  assumes "\<not> sv_context (pe_startup P) 0 \<or> sv_create (pe_startup P) [] (New_path Root ''/ietf-routing:routing'' None) \<noteq> 0"
    and "routing_running_datastore_is_empty P" "\<forall>calls r. pe_sr P calls r = 0"
  shows "routing_plugin_init_cb P [] = Ret (0, Some \<lparr> rc_startup_session = True \<rparr>,
    [Start_startup_session, Copy_config True, Subscribe_protocols, Subscribe_interfaces, Subscribe_ribs, Subscribe_active_route])"
proof -
  have "routing_startup_load_data (pe_startup P) (pe_sr P) calls = Ret (0, calls)" for calls
    using assms(1) by (auto simp: routing_startup_load_data_def)
  then show ?thesis
    using assms(2,3) by (simp add: routing_plugin_init_cb_def load_and_copy_def)
qed

theorem start_without_data_witness:
  "routing_plugin_init_cb (demo_routing\<lparr>pe_startup := (demo_startup [])\<lparr>sv_context := (\<lambda>n. n \<noteq> 0)\<rparr>\<rparr>) []
    = Ret (0, Some \<lparr> rc_startup_session = True \<rparr>,
      [Start_startup_session, Copy_config True, Subscribe_protocols, Subscribe_interfaces, Subscribe_ribs, Subscribe_active_route])"
  by (rule start_without_data) (simp_all add: demo_routing_def demo_startup_def routing_running_datastore_is_empty_def)

text \<open>The program is undefined when it cannot connect to sysrepo or open its session, because the cleanup reads
  the context through a null pointer.  When both succeed and the initialisation answers, the program
  ends with the status of the initialisation and stops exactly the startup session that was opened,
  as its last call.\<close>

theorem main_outcomes:
  "routing_main P connect started =
    (if connect \<noteq> 0 \<or> started \<noteq> 0 then Undef
     else case routing_plugin_init_cb P [] of
       Ret (e, ctx, calls) \<Rightarrow> Ret (if e = 0 then 0 else -1,
         if pe_sr P [] Start_startup_session = 0 then calls @ [Stop_session] else calls)
     | Undef \<Rightarrow> Undef
     | Abort \<Rightarrow> Abort)"
proof (cases "connect \<noteq> 0 \<or> started \<noteq> 0")
  case False
  have ctx: "ctx = Some \<lparr> rc_startup_session = (pe_sr P [] Start_startup_session = 0) \<rparr>"
    if "routing_plugin_init_cb P [] = Ret (e, ctx, calls)" for e ctx calls
    using that by (auto simp: routing_plugin_init_cb_def Let_def obind_eq_Ret split: if_splits prod.splits)
  show ?thesis
    using False ctx by (cases "routing_plugin_init_cb P []") (auto simp: routing_main_def routing_plugin_cleanup_cb_def)
qed (auto simp: routing_main_def routing_plugin_cleanup_cb_def)

end
