(* ===== verification/Spec2Isabelle.thy ===== *)
theory Spec2Isabelle
  imports IfRound IfPlugin IfRead IfUnhandled Memory RtRound RtPlugin
begin

text \<open>
  A verification development for the sysrepo interface and routing plugins.

  The repository builds two sysrepo plugins.  The interfaces plugin
  (\<^verbatim>\<open>src/interfaces/src\<close>) turns changes of the ietf-interfaces and ietf-ip YANG data into netlink
  requests, tracks the operational state of the links, and answers operational queries.  The
  routing plugin (\<^verbatim>\<open>src/routing\<close>) does the same for ietf-routing.  libnl, libyang, sysrepo, the
  srpc helpers, uthash and utlist are not in the repository.

  How the parts interact.  sysrepo calls the plugins back: a change subscription runs one handler
  per leaf and sends requests to the kernel, an operational getter reads the caches of libnl and
  creates nodes of libyang below the tree it is given, and the initialisation loads the system into
  an empty datastore.  The interfaces plugin keeps a context between the calls (collected prefix
  lengths and link-layer addresses, sockets and caches, the hash of link states, which a thread
  updates); the routing plugin rebuilds its tables on every call.

  Shared vocabulary:

  \<^item> \<^verbatim>\<open>Prelude\<close>: C outcomes (a value, undefined behaviour, \<^verbatim>\<open>abort\<close>), strings and numbers in text,
    uthash tables as lists in insertion order, the safe-call macros.
  \<^item> \<^verbatim>\<open>Memory\<close>: the allocation wrappers of \<^verbatim>\<open>utils/memory.c\<close>.
  \<^item> \<^verbatim>\<open>KeyedTable\<close>, \<^verbatim>\<open>PutTable\<close>: the locales of tables with unique keys, one for tables that refuse a
    known key and one for tables that merge into its entry; the interface hash, the state hash, the
    routing tables and the routes by prefix are interpretations.
  \<^item> \<^verbatim>\<open>NlEnv\<close>: the environment of the change handlers.  Everything the libraries answer is a field
    of the record \<^verbatim>\<open>env\<close>; everything the handlers do to them is in the trace of the world.  The
    locale \<^verbatim>\<open>change_handler\<close> is the contract every handler meets.
  \<^item> \<^verbatim>\<open>LyTree\<close> and \<^verbatim>\<open>RtTree\<close>: the calls of libyang.  The calls made so far are a log, a created node
    is named by the position of its call, and a plan is the list of calls of a run in which every
    node can be created.  \<^verbatim>\<open>LyTree\<close> has the constructors of \<^verbatim>\<open>plugin/ly_tree.c\<close>; \<^verbatim>\<open>RtTree\<close> has the
    control flow around the calls (the variable \<^verbatim>\<open>error\<close>, the label \<^verbatim>\<open>error_out\<close>) and a judgement that
    a piece of code only creates nodes below nodes that exist and are not leaves.
  \<^item> \<^verbatim>\<open>LogTree\<close>: the tree that a log of calls makes, for the calls of either plugin: the children of a
    node are found by position, and the part of the log that a plan fills has all children of its nodes.

  The interfaces plugin, \<^verbatim>\<open>interfaces/src\<close>:

  \<^item> \<^verbatim>\<open>IfData\<close>: \<^verbatim>\<open>plugin/types.h\<close> and \<^verbatim>\<open>plugin/data/interfaces\<close>: types, lists, hash, releases, netmask
    and type conversions.
  \<^item> \<^verbatim>\<open>IfLy\<close>: the conversion between the hash and YANG data in \<^verbatim>\<open>interface.c\<close>.
  \<^item> \<^verbatim>\<open>IfLoad\<close> and \<^verbatim>\<open>IfStore\<close>: \<^verbatim>\<open>api/interfaces/load.c\<close>, \<^verbatim>\<open>store.c\<close>, \<^verbatim>\<open>check.c\<close>, the loaders of
    \<^verbatim>\<open>api/interfaces/interface\<close>, and the \<^verbatim>\<open>running\<close> and \<^verbatim>\<open>startup\<close> datastores; the objects of libnl are
    numbered, so that leaks and double releases show.
  \<^item> \<^verbatim>\<open>IfRound\<close>: the composition of the two: the locale \<^verbatim>\<open>created_tree\<close> states that the accessors
    read the tree that a log of creation calls made, a reader that answers from the log interprets it,
    and what \<^verbatim>\<open>running_load\<close> saves is what \<^verbatim>\<open>startup_store\<close> restores.
  \<^item> \<^verbatim>\<open>IfAddrChange\<close>, \<^verbatim>\<open>IfNeighChange\<close>, \<^verbatim>\<open>IfLinkChange\<close>: the change handlers and the change subscription
    that runs them in order.
  \<^item> \<^verbatim>\<open>IfUnhandled\<close>: the handlers of the leaves that are not supported yet (IPv6, autoconf, carrier-delay,
    dampening, encapsulation): they accept every change and the change subscription names none of them.
  \<^item> \<^verbatim>\<open>IfRead\<close>: \<^verbatim>\<open>api/interfaces/read.c\<close>, numbers in files, which have no caller.
  \<^item> \<^verbatim>\<open>IfState\<close>: \<^verbatim>\<open>interface_state.c\<close> and the tracker of \<^verbatim>\<open>plugin.c\<close>: a state machine of cache-change
    callbacks with its reachable states and invariants.
  \<^item> \<^verbatim>\<open>IfOper\<close> and \<^verbatim>\<open>IfOperIp\<close>: every getter of \<^verbatim>\<open>subscription/operational.c\<close>.
  \<^item> \<^verbatim>\<open>IfPlugin\<close>: the initialisation and cleanup of \<^verbatim>\<open>plugin.c\<close> and \<^verbatim>\<open>main.c\<close>, composed of the initial
    load, the table of getters and the tracker, and the life cycle as a step relation.

  The routing plugin, \<^verbatim>\<open>routing\<close>:

  \<^item> \<^verbatim>\<open>RtData\<close>: next hops, routes, lists and tables (\<^verbatim>\<open>route.c\<close>, \<^verbatim>\<open>rib.c\<close>, \<^verbatim>\<open>route\<close>, \<^verbatim>\<open>rib\<close>).
  \<^item> \<^verbatim>\<open>RtCommon\<close>: the collection of tables and routes from the system in \<^verbatim>\<open>common.c\<close>; \<^verbatim>\<open>RtApply\<close>: the
    requests that add and delete routes.
  \<^item> \<^verbatim>\<open>RtChange\<close>: \<^verbatim>\<open>subscription/change.c\<close>; \<^verbatim>\<open>RtPersist\<close>: \<^verbatim>\<open>persist.c\<close>.
  \<^item> \<^verbatim>\<open>RtOper\<close>: \<^verbatim>\<open>subscription/operational.c\<close>; \<^verbatim>\<open>RtStartup\<close>: \<^verbatim>\<open>startup.c\<close>; \<^verbatim>\<open>RtPlugin\<close>: \<^verbatim>\<open>routing.c\<close>,
    \<^verbatim>\<open>subscription/rpc.c\<close> and \<^verbatim>\<open>main.c\<close>.
  \<^item> \<^verbatim>\<open>RtRound\<close>: the composition of \<^verbatim>\<open>RtStartup\<close> and \<^verbatim>\<open>RtPersist\<close>: the locale \<^verbatim>\<open>saved_routes\<close> states that
    the datastore gives back the routes of the tree that was edited in, a datastore that answers from the
    log interprets it, and restoring sends the newest static route of every prefix that was loaded.

  What the lemmas show.  The handlers: which requests a change sends, in which order, that it stops at
  the first failure, what it releases and which collected values it resets; that a request is made
  (\<^verbatim>\<open>single_run\<close>, \<^verbatim>\<open>replace_run\<close>, and \<^verbatim>\<open>sends\<close> for the routes) unless a call before it can fail.  The data: the laws of
  the tables, that releases free nothing twice and what they leak.  The trees: for each conversion
  the calls it makes (\<^verbatim>\<open>executes\<close> in \<^verbatim>\<open>IfLy\<close>, \<^verbatim>\<open>does\<close> in \<^verbatim>\<open>RtTree\<close>), and that
  reading the written tree gives the data back.  The collection of routes: the
  tables as a function of the routes of the system, with exactly one active route per prefix.  The
  changes of static routes refine a list of pending routes.  The plugins: what the initialisation
  subscribes and sends, and what goes wrong in the life cycle.

  Conventions.  A C function with an out-parameter returns the pair of its result and the value.
  \<^verbatim>\<open>goto\<close> labels are local functions of the pointers that the cleanup code tests.  Allocation
  succeeds where the code does not check it.  Logging is left out.  What a library answers is a field
  of an environment record, one per function or group of functions; where the answer may depend on
  what was asked before, the field is a function of the log of the calls.

  Bounds and fuel.  The loop of \<^verbatim>\<open>netmask2prefix\<close> has fuel 33: each round shifts the 32-bit word right,
  so it is zero after 32.  The walks over the masters of a link (\<^verbatim>\<open>higher_loop\<close>, \<^verbatim>\<open>lower_loop\<close>)
  have fuel, because they need not end: it is proved how much is enough when the chain of masters
  ends, and that no amount is when it is circular.  The readers of YANG lists walk siblings with fuel;
  as many rounds as the tree has nodes are enough.  \<^verbatim>\<open>srpc_iterate_changes\<close> is assumed to meet
  \<^verbatim>\<open>iterate_law\<close>: it acts only through the callbacks it is given and reports success only when
  they all succeeded.

  Not modelled: the debug printer of the interface hash, which changes nothing; the rpc and common
  files of the interfaces plugin, which are empty; references that are taken on libnl objects in the
  getters; the waiting loop of the programs; and the interleaving of two callbacks inside each other,
  which the mutex of the state hash excludes for the tracker.
\<close>

end
